(* ===== verification/Headset_Prelude.thy ===== *)
theory Headset_Prelude
  imports Main "HOL-Library.Word"
begin

text \<open>
  Shared vocabulary of the headset driver model (src/drivers/input/misc/headset_sprd.c):
  the 32-bit register word, the C macro \<open>BIT(n)\<close>, the interrupt lines and trigger
  types the driver programs, the switch-class states it publishes, and the
  datatype of externally visible effects (input events, switch updates, codec bias
  calls, notifier calls, GPIO outputs and delays) that every component appends to
  the machine's effect log. Generic lemmas on bits and on the effect log are
  collected here and declared into the \<open>headset_simps\<close> collection.
\<close>

unbundle bit_operations_syntax

named_theorems headset_simps "rewrite rules shared by the headset component proofs"

type_synonym u32 = "32 word"

definition BIT :: "nat \<Rightarrow> u32" where
  "BIT nr = push_bit nr 1"

text \<open>Interrupt lines the driver requests, and the trigger types it programs.\<close>

datatype irq_line = Detect_Irq | Button_Irq

datatype trigger = IRQF_TRIGGER_HIGH | IRQF_TRIGGER_LOW

text \<open>
  The switch-class states of \<open>ht_detect->type\<close> (\<open>BIT_HEADSET_OUT\<close>,
  \<open>BIT_HEADSET_MIC\<close>, \<open>BIT_HEADSET_NO_MIC\<close> of linux/headset_sprd.h).
\<close>

datatype switch_type = BIT_HEADSET_OUT | BIT_HEADSET_MIC | BIT_HEADSET_NO_MIC

text \<open>Key codes: \<open>KEY_RESERVED\<close> of linux/input.h is 0.\<close>

definition KEY_RESERVED :: int where
  "KEY_RESERVED = 0"

text \<open>
  Externally visible effects, in the order the driver performs them:
  \<open>input_event(dev, EV_KEY, code, value)\<close>, \<open>input_sync\<close>,
  \<open>switch_set_state\<close>, \<open>sprd_codec_headmic_bias_control(on, 1)\<close>,
  \<open>blocking_notifier_call_chain(&list, state, ...)\<close>,
  \<open>gpio_direction_output(gpio, v)\<close>, \<open>mdelay\<close>, \<open>msleep\<close>, and the kernel's
  warning on an unbalanced \<open>enable_irq\<close>.
\<close>

datatype out_event =
    Input_Event int int
  | Input_Sync
  | Switch_Set_State switch_type
  | Bias_Control bool
  | Notify_Call int
  | Gpio_Direction_Output nat bool
  | Mdelay int
  | Msleep int
  | Unbalanced_Enable irq_line

text \<open>The key events of an effect log, as (code, value) pairs.\<close>

definition key_events :: "out_event list \<Rightarrow> (int \<times> int) list" where
  "key_events evs = [(c, v). Input_Event c v \<leftarrow> evs]"

text \<open>The codec bias calls of an effect log.\<close>

definition bias_calls :: "out_event list \<Rightarrow> bool list" where
  "bias_calls evs = [b. Bias_Control b \<leftarrow> evs]"

text \<open>The switch states published in an effect log.\<close>

definition switch_states :: "out_event list \<Rightarrow> switch_type list" where
  "switch_states evs = [t. Switch_Set_State t \<leftarrow> evs]"

subsection \<open>Generic lemmas\<close>

lemma bit_BIT [headset_simps]: "bit (BIT nr) n \<longleftrightarrow> nr = n \<and> n < 32"
  by (auto simp: BIT_def bit_exp_iff)

lemma and_mask_eq_self:
  "((x::u32) AND m = m) \<longleftrightarrow> (\<forall>n. bit m n \<longrightarrow> bit x n)"
proof -
  have "(x AND m = m) \<longleftrightarrow> (\<forall>n. bit (x AND m) n \<longleftrightarrow> bit m n)"
    by (auto intro: bit_word_eqI)
  then show ?thesis by (auto simp: bit_and_iff)
qed

lemma bit_mask_or [headset_simps]:
  "bit ((x AND NOT m) OR v :: u32) n \<longleftrightarrow> (bit x n \<and> \<not> bit m n) \<or> bit v n"
  by (auto simp: bit_and_iff bit_or_iff bit_not_iff dest: bit_imp_le_length)

lemma key_events_append [headset_simps]:
  "key_events (xs @ ys) = key_events xs @ key_events ys"
  by (simp add: key_events_def)

lemma key_events_simps [headset_simps]:
  "key_events [] = []"
  "key_events (Input_Event c v # xs) = (c, v) # key_events xs"
  "key_events (Input_Sync # xs) = key_events xs"
  "key_events (Switch_Set_State t # xs) = key_events xs"
  "key_events (Bias_Control b # xs) = key_events xs"
  "key_events (Notify_Call k # xs) = key_events xs"
  "key_events (Gpio_Direction_Output g w # xs) = key_events xs"
  "key_events (Mdelay d # xs) = key_events xs"
  "key_events (Msleep d # xs) = key_events xs"
  "key_events (Unbalanced_Enable i # xs) = key_events xs"
  by (simp_all add: key_events_def)

lemma bias_calls_append [headset_simps]:
  "bias_calls (xs @ ys) = bias_calls xs @ bias_calls ys"
  by (simp add: bias_calls_def)

lemma bias_calls_simps [headset_simps]:
  "bias_calls [] = []"
  "bias_calls (Input_Event c v # xs) = bias_calls xs"
  "bias_calls (Input_Sync # xs) = bias_calls xs"
  "bias_calls (Switch_Set_State t # xs) = bias_calls xs"
  "bias_calls (Bias_Control b # xs) = b # bias_calls xs"
  "bias_calls (Notify_Call k # xs) = bias_calls xs"
  "bias_calls (Gpio_Direction_Output g w # xs) = bias_calls xs"
  "bias_calls (Mdelay d # xs) = bias_calls xs"
  "bias_calls (Msleep d # xs) = bias_calls xs"
  "bias_calls (Unbalanced_Enable i # xs) = bias_calls xs"
  by (simp_all add: bias_calls_def)

lemma switch_states_append [headset_simps]:
  "switch_states (xs @ ys) = switch_states xs @ switch_states ys"
  by (simp add: switch_states_def)

lemma switch_states_simps [headset_simps]:
  "switch_states [] = []"
  "switch_states (Input_Event c v # xs) = switch_states xs"
  "switch_states (Input_Sync # xs) = switch_states xs"
  "switch_states (Switch_Set_State t # xs) = t # switch_states xs"
  "switch_states (Bias_Control b # xs) = switch_states xs"
  "switch_states (Notify_Call k # xs) = switch_states xs"
  "switch_states (Gpio_Direction_Output g w # xs) = switch_states xs"
  "switch_states (Mdelay d # xs) = switch_states xs"
  "switch_states (Msleep d # xs) = switch_states xs"
  "switch_states (Unbalanced_Enable i # xs) = switch_states xs"
  by (simp_all add: switch_states_def)

text \<open>Clearing a mask after a masked write, and setting bits after clearing them.\<close>

lemma msk_clr: "((x AND NOT m) OR v) AND NOT m = (x AND NOT m) OR (v AND NOT (m :: u32))"
  by (simp add: bit.conj_disj_distrib2 and.assoc)

lemma clr_set_bits: "(x AND NOT b) OR b = x OR (b :: u32)"
  by (auto simp: bit_eq_iff bit_simps)

lemma sint_nonneg_unat_less:
  "\<not> sint (u :: u32) < 0 \<Longrightarrow> unat u < 2 ^ 31"
proof -
  assume a: "\<not> sint u < 0"
  have b: "\<not> bit (unat u) 31" using a bit_last_iff [of u] by (simp add: bit_unsigned_iff)
  have "unat u = take_bit LENGTH(32) (unat u)"
    by (simp only: unsigned_take_bit_eq [symmetric] take_bit_length_eq)
  also have "\<dots> = take_bit (Suc 31) (unat u)" by simp
  also have "\<dots> = take_bit 31 (unat u)" using b by (simp only: take_bit_Suc_from_most) simp
  also have "\<dots> < 2 ^ 31" by (rule take_bit_nat_less_exp)
  finally show ?thesis .
qed

end
