(* ===== verification/Headset_Regs.thy ===== *)
theory Headset_Regs
  imports Headset_Prelude
begin

text \<open>
  The machine the driver runs on and its register-level operations
  (headset_sprd.c lines 34-90, 141-175, 238-267, 716-745). The state is the record
  \<open>machine\<close>: the ADI register file, the GPIO levels, the ADC sample source, the
  effect log and the module parameters of lines 112-114. The read-modify-write
  macros \<open>headset_reg_msk_or\<close>, \<open>headset_reg_clr_bit\<close> and
  \<open>headset_reg_set_bit\<close> become functions on it; every circuit-control routine
  is their composition, in the code's order. The ADI bus accessors, GPIO and ADC
  primitives are platform code outside this repository's sources and are modelled
  from their contracts.
\<close>

unbundle bit_operations_syntax

text \<open>
  ADI registers, by block: \<open>HEADMIC_DETECT_REG(X)\<close> is
  \<open>SPRD_MISC_BASE + 0x700 + X\<close>, \<open>HEADMIC_BUTTON_REG(X)\<close> is
  \<open>SPRD_MISC_BASE + 0xe00 + X\<close>, \<open>HEADMIC_DETECT_GLB_REG(X)\<close> is
  \<open>ANA_REGS_GLB_BASE + X\<close>; the offsets used are small, so the three blocks do
  not overlap.
\<close>

datatype adi_reg =
    HEADMIC_DETECT_REG u32
  | HEADMIC_BUTTON_REG u32
  | HEADMIC_DETECT_GLB_REG u32

record machine =
  adi :: "adi_reg \<Rightarrow> u32"
  gpio :: "nat \<Rightarrow> bool"
  adc_src :: "bool \<Rightarrow> nat \<Rightarrow> int"
  adc_cnt :: nat
  out_log :: "out_event list"
  headset_timer_period :: int
  headset_read_adc_delay :: int
  headset_switch_gpio_delay :: int

text \<open>
  The GPIO numbers and interrupt polarities of the detect platform data
  (\<open>struct sprd_headset_detect_platform_data\<close>).
\<close>

record detect_pdata =
  switch_gpio :: nat
  detect_gpio :: nat
  button_gpio :: nat
  detect_active_low :: int
  button_active_low :: int

definition emit :: "out_event list \<Rightarrow> 'a machine_scheme \<Rightarrow> 'a machine_scheme" where
  "emit evs s = s\<lparr>out_log := out_log s @ evs\<rparr>"

subsection \<open>Platform primitives\<close>

definition sci_adi_read :: "'a machine_scheme \<Rightarrow> adi_reg \<Rightarrow> u32" where
  "sci_adi_read s addr = adi s addr"

definition sci_adi_raw_write :: "adi_reg \<Rightarrow> u32 \<Rightarrow> 'a machine_scheme \<Rightarrow> 'a machine_scheme" where
  "sci_adi_raw_write addr v s = s\<lparr>adi := (adi s)(addr := v)\<rparr>"

definition gpio_get_value :: "'a machine_scheme \<Rightarrow> nat \<Rightarrow> bool" where
  "gpio_get_value s g = gpio s g"

definition gpio_direction_output :: "nat \<Rightarrow> bool \<Rightarrow> 'a machine_scheme \<Rightarrow> 'a machine_scheme" where
  "gpio_direction_output g v s = emit [Gpio_Direction_Output g v] (s\<lparr>gpio := (gpio s)(g := v)\<rparr>)"

text \<open>
  \<open>sci_adc_get_value(ADC_CHANNEL_HEADMIC, 0)\<close>: one conversion of the head-mic
  channel. Its analog input is the one \<open>HEADMIC_ADC_SWITCH_BIT\<close> (bit 13 of
  detect register 0xA0) routes to the AUXADC; the source is a stream of samples per
  routing, consumed one per conversion.
\<close>

definition sci_adc_get_value :: "'a machine_scheme \<Rightarrow> int \<times> 'a machine_scheme" where
  "sci_adc_get_value s =
     (adc_src s (bit (adi s (HEADMIC_DETECT_REG 0xA0)) 13) (adc_cnt s),
      s\<lparr>adc_cnt := Suc (adc_cnt s)\<rparr>)"

definition mdelay :: "int \<Rightarrow> 'a machine_scheme \<Rightarrow> 'a machine_scheme" where
  "mdelay ms s = emit [Mdelay ms] s"

definition msleep :: "int \<Rightarrow> 'a machine_scheme \<Rightarrow> 'a machine_scheme" where
  "msleep ms s = emit [Msleep ms] s"

subsection \<open>Register macros and bit constants (lines 34-90)\<close>

definition headset_reg_msk_or :: "u32 \<Rightarrow> adi_reg \<Rightarrow> u32 \<Rightarrow> 'a machine_scheme \<Rightarrow> 'a machine_scheme" where
  "headset_reg_msk_or val addr msk s =
     (let temp = sci_adi_read s addr;
          temp = (temp AND NOT msk) OR val
      in sci_adi_raw_write addr temp s)"

definition headset_reg_clr_bit :: "adi_reg \<Rightarrow> u32 \<Rightarrow> 'a machine_scheme \<Rightarrow> 'a machine_scheme" where
  "headset_reg_clr_bit addr bt s =
     (let temp = sci_adi_read s addr;
          temp = temp AND NOT bt
      in sci_adi_raw_write addr temp s)"

definition headset_reg_set_bit :: "adi_reg \<Rightarrow> u32 \<Rightarrow> 'a machine_scheme \<Rightarrow> 'a machine_scheme" where
  "headset_reg_set_bit addr bt s =
     (let temp = sci_adi_read s addr;
          temp = temp OR bt
      in sci_adi_raw_write addr temp s)"

definition HEADMIC_DETECT_INSRT_VOL_SHIFT :: nat where
  "HEADMIC_DETECT_INSRT_VOL_SHIFT = 5"

definition HEADMIC_DETECT_INSRT_VOL_MSK :: u32 where
  "HEADMIC_DETECT_INSRT_VOL_MSK = push_bit HEADMIC_DETECT_INSRT_VOL_SHIFT 0x3"

definition HEADMIC_DETECT_INSRT_2P1V :: u32 where "HEADMIC_DETECT_INSRT_2P1V = 3"
definition HEADMIC_DETECT_INSRT_2P3V :: u32 where "HEADMIC_DETECT_INSRT_2P3V = 2"
definition HEADMIC_DETECT_INSRT_2P5V :: u32 where "HEADMIC_DETECT_INSRT_2P5V = 1"
definition HEADMIC_DETECT_INSRT_2P7V :: u32 where "HEADMIC_DETECT_INSRT_2P7V = 0"

definition HEADMIC_ADC_SWITCH_BIT :: u32 where "HEADMIC_ADC_SWITCH_BIT = BIT 13"
definition HEADMIC_DETECT_CIRCUIT_BIT :: u32 where "HEADMIC_DETECT_CIRCUIT_BIT = BIT 11"
definition HEADMIC_DET_ADC_BUF :: u32 where "HEADMIC_DET_ADC_BUF = BIT 15"
definition HEADMIC_DET_ADC_EN :: u32 where "HEADMIC_DET_ADC_EN = BIT 14"

subsection \<open>Circuit control (lines 141-175, 238-267)\<close>

text \<open>\<open>on = 0\<close>: open the head-mic detect circuit.\<close>

definition headset_detect_circuit :: "bool \<Rightarrow> 'a machine_scheme \<Rightarrow> 'a machine_scheme" where
  "headset_detect_circuit on s =
     (if on then headset_reg_clr_bit (HEADMIC_DETECT_REG 0xA0) HEADMIC_DETECT_CIRCUIT_BIT s
      else headset_reg_set_bit (HEADMIC_DETECT_REG 0xA0) HEADMIC_DETECT_CIRCUIT_BIT s)"

definition headset_detect_openclk :: "'a machine_scheme \<Rightarrow> 'a machine_scheme" where
  "headset_detect_openclk s = headset_reg_set_bit (HEADMIC_DETECT_GLB_REG 0x84) (BIT 14 OR BIT 15) s"

definition headset_detect_init :: "'a machine_scheme \<Rightarrow> 'a machine_scheme" where
  "headset_detect_init s =
     (let s = headset_reg_set_bit (HEADMIC_DETECT_GLB_REG 0x84) (BIT 14 OR BIT 15) s;
          s = headset_reg_set_bit (HEADMIC_DETECT_REG 0xA0) (HEADMIC_DET_ADC_BUF OR HEADMIC_DET_ADC_EN) s
      in headset_reg_msk_or HEADMIC_DETECT_INSRT_2P1V (HEADMIC_DETECT_REG 0xA0)
           HEADMIC_DETECT_INSRT_VOL_MSK s)"

text \<open>\<open>is_set = 1\<close>: route the head-mic input to the AUXADC.\<close>

definition set_adc_to_headmic :: "bool \<Rightarrow> 'a machine_scheme \<Rightarrow> 'a machine_scheme" where
  "set_adc_to_headmic is_set s =
     (if is_set then headset_reg_set_bit (HEADMIC_DETECT_REG 0xA0) HEADMIC_ADC_SWITCH_BIT s
      else headset_reg_clr_bit (HEADMIC_DETECT_REG 0xA0) HEADMIC_ADC_SWITCH_BIT s)"

definition headset_mic_level :: "bool \<Rightarrow> 'a machine_scheme \<Rightarrow> 'a machine_scheme" where
  "headset_mic_level level s =
     (if level then headset_reg_msk_or 0x02 (HEADMIC_DETECT_REG 0xA0) 0x1e s
      else headset_reg_msk_or 0x16 (HEADMIC_DETECT_REG 0xA0) 0x1e s)"

definition headset_button_down :: "'a machine_scheme \<Rightarrow> bool" where
  "headset_button_down s =
     (let button_status = sci_adi_read s (HEADMIC_DETECT_REG 0xC0) AND (BIT 5 OR BIT 6 OR BIT 7)
      in button_status = 0xe0)"

definition headset_plug_in :: "detect_pdata \<Rightarrow> 'a machine_scheme \<Rightarrow> bool" where
  "headset_plug_in pd s =
     (let plug_status = sci_adi_read s (HEADMIC_DETECT_REG 0xC0) AND (BIT 5 OR BIT 6)
      in plug_status = 0x60 \<and> gpio_get_value s (detect_gpio pd))"

subsection \<open>Register-level lemmas\<close>

lemmas [headset_simps] = emit_def mdelay_def msleep_def gpio_get_value_def

text \<open>The read-modify-write macros in closed form: one register word changes.\<close>

lemma headset_reg_msk_or_eq [headset_simps]:
  "headset_reg_msk_or v a m s = s\<lparr>adi := (adi s)(a := (adi s a AND NOT m) OR v)\<rparr>"
  by (simp add: headset_reg_msk_or_def sci_adi_read_def sci_adi_raw_write_def)

lemma headset_reg_set_bit_eq [headset_simps]:
  "headset_reg_set_bit a b s = s\<lparr>adi := (adi s)(a := adi s a OR b)\<rparr>"
  by (simp add: headset_reg_set_bit_def sci_adi_read_def sci_adi_raw_write_def)

lemma headset_reg_clr_bit_eq [headset_simps]:
  "headset_reg_clr_bit a b s = s\<lparr>adi := (adi s)(a := adi s a AND NOT b)\<rparr>"
  by (simp add: headset_reg_clr_bit_def sci_adi_read_def sci_adi_raw_write_def)

lemma machine_upd_absorb:
  "t = s\<lparr>adi := a, adc_cnt := c, out_log := l\<rparr> \<Longrightarrow>
   t\<lparr>adi := a', adc_cnt := c', out_log := l'\<rparr> = s\<lparr>adi := a', adc_cnt := c', out_log := l'\<rparr>"
  by simp

text \<open>The numeric masks of the code, as sums of \<open>BIT(n)\<close>.\<close>

lemma regs_consts:
  "(0x1e::u32) = BIT 1 OR BIT 2 OR BIT 3 OR BIT 4"
  "(0x02::u32) = BIT 1"
  "(0x16::u32) = BIT 1 OR BIT 2 OR BIT 4"
  "(0x60::u32) = BIT 5 OR BIT 6"
  "(0xe0::u32) = BIT 5 OR BIT 6 OR BIT 7"
  "(3::u32) = BIT 0 OR BIT 1"
  by (simp_all add: BIT_def)

lemmas regs_bit_defs = HEADMIC_DETECT_INSRT_VOL_SHIFT_def HEADMIC_DETECT_INSRT_VOL_MSK_def
  HEADMIC_DETECT_INSRT_2P1V_def HEADMIC_DET_ADC_BUF_def HEADMIC_DET_ADC_EN_def
  HEADMIC_ADC_SWITCH_BIT_def HEADMIC_DETECT_CIRCUIT_BIT_def

lemmas regs_bit_simps = regs_consts regs_bit_defs bit_or_iff bit_and_iff bit_not_iff bit_BIT
  bit_push_bit_iff

lemma headset_detect_init_bits:
  "bit (adi (headset_detect_init s) (HEADMIC_DETECT_REG 0xA0)) n \<longleftrightarrow>
     (if n \<in> {0, 1, 14, 15} then True
      else if n \<in> {5, 6} then False else bit (adi s (HEADMIC_DETECT_REG 0xA0)) n)"
  by (auto simp: headset_detect_init_def Let_def headset_simps regs_bit_simps
      dest: bit_imp_le_length)

lemma headset_detect_init_other:
  "r \<noteq> HEADMIC_DETECT_REG 0xA0 \<Longrightarrow> r \<noteq> HEADMIC_DETECT_GLB_REG 0x84 \<Longrightarrow>
     adi (headset_detect_init s) r = adi s r"
  by (simp add: headset_detect_init_def Let_def headset_simps)

lemma headset_detect_circuit_bits:
  "bit (adi (headset_detect_circuit on s) r) n \<longleftrightarrow>
     (if r = HEADMIC_DETECT_REG 0xA0 \<and> n = 11 then \<not> on else bit (adi s r) n)"
  by (auto simp: headset_detect_circuit_def headset_simps regs_bit_simps
      dest: bit_imp_le_length)

lemma set_adc_to_headmic_bits:
  "bit (adi (set_adc_to_headmic is_set s) r) n \<longleftrightarrow>
     (if r = HEADMIC_DETECT_REG 0xA0 \<and> n = 13 then is_set else bit (adi s r) n)"
  by (auto simp: set_adc_to_headmic_def headset_simps regs_bit_simps
      dest: bit_imp_le_length)

lemma headset_mic_level_bits:
  "bit (adi (headset_mic_level level s) r) n \<longleftrightarrow>
     (if r = HEADMIC_DETECT_REG 0xA0 \<and> n \<in> {1, 2, 3, 4}
      then n = 1 \<or> (\<not> level \<and> n \<in> {2, 4}) else bit (adi s r) n)"
  by (auto simp: headset_mic_level_def headset_simps regs_bit_simps
      dest: bit_imp_le_length)

lemma headset_button_down_iff:
  "headset_button_down s \<longleftrightarrow>
     bit (adi s (HEADMIC_DETECT_REG 0xC0)) 5 \<and> bit (adi s (HEADMIC_DETECT_REG 0xC0)) 6 \<and>
     bit (adi s (HEADMIC_DETECT_REG 0xC0)) 7"
  unfolding headset_button_down_def sci_adi_read_def Let_def regs_consts(5) and_mask_eq_self
  by (auto simp: bit_or_iff bit_BIT)

lemma headset_plug_in_iff:
  "headset_plug_in pd s \<longleftrightarrow>
     bit (adi s (HEADMIC_DETECT_REG 0xC0)) 5 \<and> bit (adi s (HEADMIC_DETECT_REG 0xC0)) 6 \<and>
     gpio s (detect_gpio pd)"
  unfolding headset_plug_in_def sci_adi_read_def gpio_get_value_def Let_def regs_consts(4)
    and_mask_eq_self
  by (auto simp: bit_or_iff bit_BIT)

lemma gpio_direction_output_upd:
  "gpio_direction_output g v s = s\<lparr>gpio := (gpio s)(g := v), out_log := out_log s @ [Gpio_Direction_Output g v]\<rparr>"
  by (simp add: gpio_direction_output_def headset_simps)


lemma headset_mic_level_upd:
  "headset_mic_level l s = s\<lparr>adi := (adi s)(HEADMIC_DETECT_REG 0xA0 :=
     (adi s (HEADMIC_DETECT_REG 0xA0) AND NOT 0x1e) OR (if l then 0x02 else 0x16))\<rparr>"
  by (simp add: headset_mic_level_def headset_simps)

text \<open>
  \<^bold>\<open>C1.\<close> \<open>headset_detect_init\<close> means to program the insertion-detect voltage to
  2.1 V (\<open>HEADMIC_DETECT_INSRT_2P1V\<close>) in the field of bits 5-6 of detect register
  0xA0. It passes the unshifted value 3 with the shifted mask: whatever the
  register held, the field afterwards reads \<open>HEADMIC_DETECT_INSRT_2P7V\<close> (0), and
  the value 3 lands in bits 0-1.
\<close>

theorem headset_detect_init_voltage_field:
  "drop_bit HEADMIC_DETECT_INSRT_VOL_SHIFT (adi (headset_detect_init s) (HEADMIC_DETECT_REG 0xA0))
     AND 3 = HEADMIC_DETECT_INSRT_2P7V \<and>
   adi (headset_detect_init s) (HEADMIC_DETECT_REG 0xA0) AND HEADMIC_DETECT_INSRT_2P1V =
     HEADMIC_DETECT_INSRT_2P1V"
proof
  show "drop_bit HEADMIC_DETECT_INSRT_VOL_SHIFT (adi (headset_detect_init s) (HEADMIC_DETECT_REG 0xA0))
     AND 3 = HEADMIC_DETECT_INSRT_2P7V"
    by (rule bit_word_eqI)
      (auto simp: bit_and_iff bit_drop_bit_eq headset_detect_init_bits regs_consts(6) bit_or_iff
         bit_BIT HEADMIC_DETECT_INSRT_VOL_SHIFT_def HEADMIC_DETECT_INSRT_2P7V_def)
  show "adi (headset_detect_init s) (HEADMIC_DETECT_REG 0xA0) AND HEADMIC_DETECT_INSRT_2P1V =
     HEADMIC_DETECT_INSRT_2P1V"
    unfolding HEADMIC_DETECT_INSRT_2P1V_def regs_consts(6) and_mask_eq_self
    by (auto simp: bit_or_iff bit_BIT headset_detect_init_bits)
qed

end
