(* ===== verification/Headset_Adc.thy ===== *)
theory Headset_Adc
  imports Headset_Regs
begin

text \<open>
  The analog classifier (headset_sprd.c lines 34-36, 61, 92-98, 177-236):
  \<open>headset_read_adc\<close> powers the detect circuit, routes the head-mic or the
  ground-reference input to the AUXADC, waits, converts five times and keeps the
  third conversion (\<open>adc_val[ADC_FIFO_CNT/2]\<close>, taken from the unsorted buffer);
  \<open>ignore_wrong_button\<close> and \<open>detect_headset_type\<close> compare one mic-routed and one
  ground-routed reading. The textual macro \<open>ABS(x)\<close> is modelled as the C
  preprocessor expands it: \<open>ABS(a - b)\<close> becomes
  \<open>((a - b) < 0) ? (-a - b) : (a - b)\<close>.
  ADC readings are 12-bit conversions, so the C \<open>int\<close> arithmetic on them cannot
  overflow and is modelled on \<open>int\<close>.
\<close>

unbundle bit_operations_syntax

definition ADC_FIFO_CNT :: nat where
  "ADC_FIFO_CNT = 5"

definition HEADSET_TYPE_ADC_DISPART_VALUE :: int where
  "HEADSET_TYPE_ADC_DISPART_VALUE = 100 * 4"

definition HEADSET_TYPE_GND_VALUE :: int where
  "HEADSET_TYPE_GND_VALUE = 200"

datatype sprd_headset_type =
    HEADSET_NORMAL
  | HEADSET_NO_MIC
  | HEADSET_NORTH_AMERICA
  | HEADSET_APPLE
  | HEADSET_TYPE_MAX

text \<open>\<open>ABS(a - b)\<close> after macro expansion: the negation binds to \<open>a\<close> only.\<close>

definition ABS_sub :: "int \<Rightarrow> int \<Rightarrow> int" where
  "ABS_sub a b = (if a - b < 0 then - a - b else a - b)"

text \<open>The conversion loop \<open>for (count = 0; count < n; count++) adc_val[count] = ...\<close>.\<close>

fun adc_fifo_read :: "nat \<Rightarrow> 'a machine_scheme \<Rightarrow> int list \<times> 'a machine_scheme" where
  "adc_fifo_read 0 s = ([], s)"
| "adc_fifo_read (Suc n) s =
     (let (v, s) = sci_adc_get_value s;
          (vs, s) = adc_fifo_read n s
      in (v # vs, s))"

definition headset_read_adc :: "bool \<Rightarrow> 'a machine_scheme \<Rightarrow> int \<times> 'a machine_scheme" where
  "headset_read_adc headmic s =
     (let s = headset_detect_init s;
          s = headset_detect_circuit True s;
          s = set_adc_to_headmic headmic s;
          s = mdelay (headset_read_adc_delay s) s;
          (adc_val, s) = adc_fifo_read ADC_FIFO_CNT s
      in (adc_val ! (ADC_FIFO_CNT div 2), s))"

text \<open>The decision of \<open>ignore_wrong_button\<close> on its two readings (1 = ignore).\<close>

definition wrong_button_of :: "int \<Rightarrow> int \<Rightarrow> bool" where
  "wrong_button_of adc_mic adc_l =
     (if ABS_sub adc_mic adc_l < HEADSET_TYPE_ADC_DISPART_VALUE then
        (if ABS_sub adc_mic 0 < 500 then False else True)
      else False)"

definition ignore_wrong_button :: "'a machine_scheme \<Rightarrow> bool \<times> 'a machine_scheme" where
  "ignore_wrong_button s =
     (let (adc_mic, s) = headset_read_adc True s;
          (adc_l, s) = headset_read_adc False s
      in (wrong_button_of adc_mic adc_l, s))"

text \<open>The decision of \<open>detect_headset_type\<close> on its two readings.\<close>

definition headset_type_of :: "int \<Rightarrow> int \<Rightarrow> sprd_headset_type" where
  "headset_type_of adc_mic adc_l =
     (if ABS_sub adc_mic adc_l < HEADSET_TYPE_ADC_DISPART_VALUE then
        (if ABS_sub adc_mic 0 < HEADSET_TYPE_GND_VALUE then HEADSET_NO_MIC
         else HEADSET_NORTH_AMERICA)
      else HEADSET_NORMAL)"

definition detect_headset_type :: "'a machine_scheme \<Rightarrow> sprd_headset_type \<times> 'a machine_scheme" where
  "detect_headset_type s =
     (let (adc_mic, s) = headset_read_adc True s;
          (adc_l, s) = headset_read_adc False s
      in (headset_type_of adc_mic adc_l, s))"

subsection \<open>The conversion loop\<close>

lemma adc_fifo_read_eq:
  "adc_fifo_read n s =
     (map (\<lambda>i. adc_src s (bit (adi s (HEADMIC_DETECT_REG 0xA0)) 13) (adc_cnt s + i)) [0..<n],
      s\<lparr>adc_cnt := adc_cnt s + n\<rparr>)"
proof (induction n arbitrary: s)
  case 0
  then show ?case by simp
next
  case (Suc n)
  have "map (\<lambda>i. f (c + i)) [0..<Suc n] = f c # map (\<lambda>i. f (Suc c + i)) [0..<n]" for f :: "nat \<Rightarrow> int" and c
    by (induction n) auto
  with Suc show ?case
    by (simp add: sci_adc_get_value_def)
qed

text \<open>After the set-up of \<open>headset_read_adc\<close>, the AUXADC input is the requested one.\<close>

lemma read_adc_routing:
  "bit (adi (set_adc_to_headmic headmic (headset_detect_circuit True (headset_detect_init s)))
     (HEADMIC_DETECT_REG 0xA0)) 13 = headmic"
  by (simp add: set_adc_to_headmic_bits)

lemma headset_read_adc_eq:
  "headset_read_adc headmic s =
     (adc_src s headmic (adc_cnt s + 2),
      (set_adc_to_headmic headmic (headset_detect_circuit True (headset_detect_init s)))
        \<lparr>out_log := out_log s @ [Mdelay (headset_read_adc_delay s)], adc_cnt := adc_cnt s + 5\<rparr>)"
proof -
  let ?s = "set_adc_to_headmic headmic (headset_detect_circuit True (headset_detect_init s))"
  have fields: "adc_src ?s = adc_src s" "adc_cnt ?s = adc_cnt s" "out_log ?s = out_log s"
    "headset_read_adc_delay ?s = headset_read_adc_delay s"
    by (simp_all add: set_adc_to_headmic_def headset_detect_circuit_def headset_detect_init_def
        Let_def headset_simps)
  show ?thesis
    by (simp add: headset_read_adc_def Let_def mdelay_def emit_def adc_fifo_read_eq ADC_FIFO_CNT_def
        read_adc_routing fields)
qed

lemma headset_read_adc_fields:
  "adc_src (snd (headset_read_adc headmic s)) = adc_src s"
  "adc_cnt (snd (headset_read_adc headmic s)) = adc_cnt s + 5"
  "out_log (snd (headset_read_adc headmic s)) = out_log s @ [Mdelay (headset_read_adc_delay s)]"
  "headset_read_adc_delay (snd (headset_read_adc headmic s)) = headset_read_adc_delay s"
  by (simp_all add: headset_read_adc_eq set_adc_to_headmic_def headset_detect_circuit_def
      headset_detect_init_def Let_def headset_simps)

text \<open>A read changes the register file, the conversion count and the log, nothing else.\<close>

lemma headset_read_adc_upd:
  "snd (headset_read_adc headmic s) =
     s\<lparr>adi := adi (snd (headset_read_adc headmic s)), adc_cnt := adc_cnt s + 5,
       out_log := out_log s @ [Mdelay (headset_read_adc_delay s)]\<rparr>"
  by (simp add: headset_read_adc_eq set_adc_to_headmic_def headset_detect_circuit_def
      headset_detect_init_def Let_def headset_simps)

lemma headset_read_adc_adi_other:
  "r \<noteq> HEADMIC_DETECT_REG 0xA0 \<Longrightarrow> r \<noteq> HEADMIC_DETECT_GLB_REG 0x84 \<Longrightarrow>
     adi (snd (headset_read_adc headmic s)) r = adi s r"
  by (simp add: headset_read_adc_eq set_adc_to_headmic_def headset_detect_circuit_def
      headset_detect_init_other headset_simps)

text \<open>A mic read followed by a ground read, as \<open>ignore_wrong_button\<close> and
  \<open>detect_headset_type\<close> both do.\<close>

lemma headset_read_adc_pair:
  "(let (adc_mic, s') = headset_read_adc True s; (adc_l, s'') = headset_read_adc False s'
    in (f adc_mic adc_l, s'')) =
   (f (adc_src s True (adc_cnt s + 2)) (adc_src s False (adc_cnt s + 7)),
    s\<lparr>adi := adi (snd (headset_read_adc False (snd (headset_read_adc True s)))),
      adc_cnt := adc_cnt s + 10,
      out_log := out_log s @ [Mdelay (headset_read_adc_delay s), Mdelay (headset_read_adc_delay s)]\<rparr>)"
proof -
  let ?s1 = "snd (headset_read_adc True s)"
  let ?s2 = "snd (headset_read_adc False ?s1)"
  have mic: "fst (headset_read_adc True s) = adc_src s True (adc_cnt s + 2)"
    by (simp add: headset_read_adc_eq)
  have gnd: "fst (headset_read_adc False ?s1) = adc_src s False (adc_cnt s + 7)"
    using headset_read_adc_eq [of False ?s1] by (simp add: headset_read_adc_fields ac_simps)
  have "?s2 = ?s1\<lparr>adi := adi ?s2, adc_cnt := adc_cnt ?s1 + 5,
      out_log := out_log ?s1 @ [Mdelay (headset_read_adc_delay ?s1)]\<rparr>"
    by (rule headset_read_adc_upd)
  also have "\<dots> = s\<lparr>adi := adi ?s2, adc_cnt := adc_cnt ?s1 + 5,
      out_log := out_log ?s1 @ [Mdelay (headset_read_adc_delay ?s1)]\<rparr>"
    by (rule machine_upd_absorb [OF headset_read_adc_upd])
  finally have s2: "?s2 = s\<lparr>adi := adi ?s2, adc_cnt := adc_cnt s + 10,
      out_log := out_log s @ [Mdelay (headset_read_adc_delay s), Mdelay (headset_read_adc_delay s)]\<rparr>"
    by (simp add: headset_read_adc_fields ac_simps)
  show ?thesis
    by (simp add: split_beta mic gnd) (rule s2)
qed

lemma ignore_wrong_button_eq:
  "ignore_wrong_button s =
     (wrong_button_of (adc_src s True (adc_cnt s + 2)) (adc_src s False (adc_cnt s + 7)),
      s\<lparr>adi := adi (snd (headset_read_adc False (snd (headset_read_adc True s)))),
        adc_cnt := adc_cnt s + 10,
        out_log := out_log s @ [Mdelay (headset_read_adc_delay s), Mdelay (headset_read_adc_delay s)]\<rparr>)"
  unfolding ignore_wrong_button_def by (rule headset_read_adc_pair)

lemma detect_headset_type_eq:
  "detect_headset_type s =
     (headset_type_of (adc_src s True (adc_cnt s + 2)) (adc_src s False (adc_cnt s + 7)),
      s\<lparr>adi := adi (snd (headset_read_adc False (snd (headset_read_adc True s)))),
        adc_cnt := adc_cnt s + 10,
        out_log := out_log s @ [Mdelay (headset_read_adc_delay s), Mdelay (headset_read_adc_delay s)]\<rparr>)"
  unfolding detect_headset_type_def by (rule headset_read_adc_pair)

lemma read_adc_pair_adi_other:
  "r \<noteq> HEADMIC_DETECT_REG 0xA0 \<Longrightarrow> r \<noteq> HEADMIC_DETECT_GLB_REG 0x84 \<Longrightarrow>
     adi (snd (headset_read_adc False (snd (headset_read_adc True s)))) r = adi s r"
  by (simp add: headset_read_adc_adi_other)

lemma detect_headset_type_upd:
  "snd (detect_headset_type s) =
     s\<lparr>adi := adi (snd (detect_headset_type s)), adc_cnt := adc_cnt s + 10,
       out_log := out_log s @ [Mdelay (headset_read_adc_delay s), Mdelay (headset_read_adc_delay s)]\<rparr>"
  by (simp add: detect_headset_type_eq)

subsection \<open>Properties of the classifier\<close>

text \<open>
  \<^bold>\<open>C2.\<close> \<open>headset_read_adc\<close> returns the third of five consecutive conversions
  of the input it routes to the AUXADC (mic when \<open>headmic\<close>, ground reference
  otherwise), consumes exactly five conversions, and its only logged effect is one
  \<open>mdelay(headset_read_adc_delay)\<close>.
\<close>

theorem headset_read_adc_sample:
  "fst (headset_read_adc headmic s) = adc_src s headmic (adc_cnt s + ADC_FIFO_CNT div 2) \<and>
   adc_cnt (snd (headset_read_adc headmic s)) = adc_cnt s + ADC_FIFO_CNT \<and>
   out_log (snd (headset_read_adc headmic s)) = out_log s @ [Mdelay (headset_read_adc_delay s)]"
  by (simp add: headset_read_adc_eq ADC_FIFO_CNT_def)

text \<open>
  \<^bold>\<open>C3.\<close> For non-negative ADC readings, \<open>detect_headset_type\<close>'s decision is:
  no-mic when the mic reading is below the ground reading plus 400 and below 200,
  North-American when below the ground reading plus 400 but at least 200, normal
  otherwise. Because of the \<open>ABS\<close> expansion, every mic reading below the ground
  reading counts as "mic and ground read the same", however far apart they are
  (the witness: mic 80, ground 5000 gives no-mic).
\<close>

theorem headset_type_of_cases:
  assumes "0 \<le> adc_mic" and "0 \<le> adc_l"
  shows "headset_type_of adc_mic adc_l =
     (if adc_mic < adc_l + 400 then (if adc_mic < 200 then HEADSET_NO_MIC else HEADSET_NORTH_AMERICA)
      else HEADSET_NORMAL)"
  using assms
  by (simp add: headset_type_of_def ABS_sub_def HEADSET_TYPE_ADC_DISPART_VALUE_def
      HEADSET_TYPE_GND_VALUE_def)

theorem headset_type_of_cases_witness:
  "0 \<le> (80::int) \<and> 0 \<le> (5000::int) \<and> headset_type_of 80 5000 = HEADSET_NO_MIC"
  using headset_type_of_cases [of 80 5000] by simp

text \<open>
  \<open>detect_headset_type\<close> classifies the third mic-routed conversion
  against the third ground-routed conversion of the next batch (the eighth
  conversion), and never returns \<open>HEADSET_APPLE\<close> or \<open>HEADSET_TYPE_MAX\<close>.
\<close>

theorem detect_headset_type_reads:
  "fst (detect_headset_type s) =
     headset_type_of (adc_src s True (adc_cnt s + 2)) (adc_src s False (adc_cnt s + 7)) \<and>
   fst (detect_headset_type s) \<in> {HEADSET_NORMAL, HEADSET_NO_MIC, HEADSET_NORTH_AMERICA}"
  by (simp add: detect_headset_type_eq headset_type_of_def)

text \<open>
  \<^bold>\<open>C4.\<close> For non-negative readings, \<open>ignore_wrong_button\<close> asks to ignore a
  button interrupt exactly when the mic reading is below the ground reading plus 400
  and at least 500: two equal readings near zero are not ignored (the witness).
\<close>

theorem wrong_button_of_cases:
  assumes "0 \<le> adc_mic" and "0 \<le> adc_l"
  shows "wrong_button_of adc_mic adc_l \<longleftrightarrow> adc_mic < adc_l + 400 \<and> 500 \<le> adc_mic"
  using assms by (auto simp: wrong_button_of_def ABS_sub_def HEADSET_TYPE_ADC_DISPART_VALUE_def)

theorem wrong_button_of_cases_witness:
  "0 \<le> (80::int) \<and> 0 \<le> (80::int) \<and> \<not> wrong_button_of 80 80"
  using wrong_button_of_cases [of 80 80] by simp

end
