(* ===== verification/Headset_Kernel.thy ===== *)
theory Headset_Kernel
  imports Headset_Regs
begin

text \<open>
  The kernel services the driver calls, modelled from their contracts (they are
  kernel code outside the driver's sources): the interrupt core's per-line disable
  depth and trigger type (\<open>disable_irq\<close>, \<open>enable_irq\<close>,
  \<open>irq_set_irq_type\<close>), the tick counter \<open>jiffies\<close> as a 32-bit
  \<open>unsigned long\<close>, the one timer the driver owns (\<open>ht->detect.timer\<close>, armed
  by \<open>mod_timer\<close>), the single-threaded work queue \<open>headset_wq\<close>
  (\<open>queue_work\<close> does nothing when the work is already pending), and the
  kernel oops a NULL dereference causes. The state is the record \<open>kernel\<close>,
  which extends \<open>machine\<close>.
  The spec's countdown view of the timer (\<open>timer_countdown\<close>, \<open>countdown_tick\<close>)
  and the lemmas relating it to expiry across the wrap close the theory.
\<close>

unbundle bit_operations_syntax

text \<open>The two work items, \<open>ht->detect.work\<close> and \<open>ht->button.work\<close>.\<close>

datatype work = Detect_Work | Button_Work

record kernel = machine +
  irq_depth :: "irq_line \<Rightarrow> nat"
  irq_type :: "irq_line \<Rightarrow> trigger"
  jiffies :: u32
  detect_timer :: "u32 option"
  headset_wq :: "work list option"
  kernel_oops :: bool

subsection \<open>Interrupt core\<close>

definition disable_irq :: "irq_line \<Rightarrow> 'a kernel_scheme \<Rightarrow> 'a kernel_scheme" where
  "disable_irq irq s = s\<lparr>irq_depth := (irq_depth s)(irq := Suc (irq_depth s irq))\<rparr>"

text \<open>\<open>enable_irq\<close> at depth 0 only warns ("Unbalanced enable for IRQ").\<close>

definition enable_irq :: "irq_line \<Rightarrow> 'a kernel_scheme \<Rightarrow> 'a kernel_scheme" where
  "enable_irq irq s =
     (if irq_depth s irq = 0 then emit [Unbalanced_Enable irq] s
      else s\<lparr>irq_depth := (irq_depth s)(irq := irq_depth s irq - 1)\<rparr>)"

definition irq_set_irq_type :: "irq_line \<Rightarrow> trigger \<Rightarrow> 'a kernel_scheme \<Rightarrow> 'a kernel_scheme" where
  "irq_set_irq_type irq t s = s\<lparr>irq_type := (irq_type s)(irq := t)\<rparr>"

definition irq_enabled :: "'a kernel_scheme \<Rightarrow> irq_line \<Rightarrow> bool" where
  "irq_enabled s irq \<longleftrightarrow> irq_depth s irq = 0"

subsection \<open>Time and the debounce timer\<close>

text \<open>
  \<open>msecs_to_jiffies\<close> of Linux 3.0 (kernel/time.c) for \<open>HZ = 100\<close> (ten milliseconds
  per tick). The driver's \<open>int\<close> argument is converted to the \<open>unsigned int\<close>
  parameter; a value that is negative as an \<open>int\<close> gives \<open>MAX_JIFFY_OFFSET\<close>,
  any other is rounded up to whole ticks in unsigned arithmetic.
\<close>

definition MAX_JIFFY_OFFSET :: u32 where
  "MAX_JIFFY_OFFSET = 0x3FFFFFFE"

definition msecs_to_jiffies :: "int \<Rightarrow> u32" where
  "msecs_to_jiffies m =
     (let u = (word_of_int m :: u32)
      in if sint u < 0 then MAX_JIFFY_OFFSET else (u + 9) div 10)"

definition mod_timer :: "u32 \<Rightarrow> 'a kernel_scheme \<Rightarrow> 'a kernel_scheme" where
  "mod_timer expires s = s\<lparr>detect_timer := Some expires\<rparr>"

text \<open>\<open>time_after_eq(a, b)\<close>: \<open>(long)(a - b) >= 0\<close>, correct across the wrap of \<open>jiffies\<close>.\<close>

definition time_after_eq :: "u32 \<Rightarrow> u32 \<Rightarrow> bool" where
  "time_after_eq a b \<longleftrightarrow> 0 \<le> sint (a - b)"

text \<open>One tick: \<open>jiffies\<close> advances; a pending timer whose expiry has passed is due.\<close>

definition tick :: "'a kernel_scheme \<Rightarrow> 'a kernel_scheme" where
  "tick s = s\<lparr>jiffies := jiffies s + 1\<rparr>"

definition timer_due :: "'a kernel_scheme \<Rightarrow> bool" where
  "timer_due s \<longleftrightarrow> (case detect_timer s of None \<Rightarrow> False | Some e \<Rightarrow> time_after_eq (jiffies s) e)"

subsection \<open>The single-threaded work queue\<close>

text \<open>\<open>queue_work\<close>: a work already pending is not queued again.\<close>

definition queue_work :: "work \<Rightarrow> 'a kernel_scheme \<Rightarrow> 'a kernel_scheme" where
  "queue_work w s =
     (case headset_wq s of
        None \<Rightarrow> s
      | Some q \<Rightarrow> if w \<in> set q then s else s\<lparr>headset_wq := Some (q @ [w])\<rparr>)"

subsection \<open>The timer as a countdown\<close>

text \<open>
  The contract of the debounce timer, as the spec states it: an armed timer counts
  down the ticks left before it fires; a tick with at most one tick left fires it
  and disarms it. \<open>timer_countdown\<close> reads the ticks left off the concrete state
  (expiry minus \<open>jiffies\<close>, modulo \<open>2^32\<close>).
\<close>

definition timer_countdown :: "'a kernel_scheme \<Rightarrow> nat option" where
  "timer_countdown s = map_option (\<lambda>e. unat (e - jiffies s)) (detect_timer s)"

definition countdown_tick :: "nat option \<Rightarrow> nat option \<times> bool" where
  "countdown_tick c =
     (case c of None \<Rightarrow> (None, False)
              | Some n \<Rightarrow> if n \<le> 1 then (None, True) else (Some (n - 1), False))"

lemmas [headset_simps] = disable_irq_def irq_set_irq_type_def mod_timer_def tick_def

subsection \<open>The tick count of a delay\<close>

text \<open>Every delay the driver converts is at most \<open>MAX_JIFFY_OFFSET\<close> ticks.\<close>

lemma msecs_to_jiffies_bound: "unat (msecs_to_jiffies m) \<le> unat MAX_JIFFY_OFFSET"
proof (cases "sint (word_of_int m :: u32) < 0")
  case True
  then show ?thesis by (simp add: msecs_to_jiffies_def)
next
  case False
  let ?u = "word_of_int m :: u32"
  have u: "unat ?u < 2 ^ 31" using False by (rule sint_nonneg_unat_less)
  then have "unat (?u + 9) = unat ?u + 9"
    by (simp add: unat_add_lem [THEN iffD1])
  then have "unat (msecs_to_jiffies m) = (unat ?u + 9) div 10"
    using False by (simp add: msecs_to_jiffies_def Let_def unat_div)
  also have "\<dots> \<le> unat MAX_JIFFY_OFFSET"
    using u by (simp add: MAX_JIFFY_OFFSET_def)
  finally show ?thesis .
qed

subsection \<open>Expiry across the wrap of \<open>jiffies\<close>\<close>

text \<open>A timer armed \<open>d\<close> ticks ahead, with \<open>d\<close> below \<open>2^31\<close>, is due exactly
  when \<open>d\<close> ticks have passed, wherever \<open>jiffies\<close> stands relative to the wrap.\<close>

lemma sint_of_nat_sub:
  fixes d :: u32
  assumes "m \<le> unat d" "unat d < 2^31"
  shows "sint (word_of_nat m - d) = int m - int (unat d)"
proof -
  have "word_of_nat m - d = (word_of_int (int m - int (unat d)) :: u32)"
    by simp
  moreover have "sint (word_of_int (int m - int (unat d)) :: u32) = int m - int (unat d)"
  proof -
    have u: "uint d = int (unat d)" by (rule uint_nat)
    have "int (unat d) < int (2^31)" using assms(2) by (simp only: of_nat_less_iff)
    then have "uint d < 2^31" unfolding u by (simp only: of_nat_power of_nat_numeral)
    moreover have "int m \<le> uint d" using assms(1) unfolding u by (simp only: of_nat_le_iff)
    ultimately show ?thesis unfolding sint_sbintrunc' by (intro signed_take_bit_int_eq_self) simp_all
  qed
  ultimately show ?thesis by simp
qed

lemma time_after_eq_offset:
  fixes e d :: u32
  assumes "m \<le> unat d" "unat d < 2^31"
  shows "time_after_eq (e - d + word_of_nat m) e \<longleftrightarrow> m = unat d"
proof -
  have "e - d + word_of_nat m - e = word_of_nat m - d" by simp
  moreover have "0 \<le> int m - int (unat d) \<longleftrightarrow> m = unat d"
    using assms(1) by (metis diff_ge_0_iff_ge le_antisym of_nat_le_iff order_refl)
  ultimately show ?thesis unfolding time_after_eq_def using sint_of_nat_sub [OF assms] by simp
qed


lemma tick_due_countdown:
  assumes "detect_timer s = Some e" "unat (e - jiffies s) < 2^31"
  shows "timer_due (tick s) \<longleftrightarrow> unat (e - jiffies s) \<le> 1"
proof (cases "unat (e - jiffies s) = 0")
  case True
  then have "e = jiffies s" by (simp add: unat_eq_zero)
  then show ?thesis using assms(1) True by (simp add: timer_due_def tick_def time_after_eq_def)
next
  case False
  have "e - (e - jiffies s) + word_of_nat 1 = jiffies (tick s)" by (simp add: tick_def)
  moreover have "time_after_eq (e - (e - jiffies s) + word_of_nat 1) e \<longleftrightarrow> 1 = unat (e - jiffies s)"
    by (rule time_after_eq_offset) (use False assms(2) in simp_all)
  moreover have "detect_timer (tick s) = Some e" using assms(1) by (simp add: tick_def)
  ultimately show ?thesis using False by (auto simp: timer_due_def)
qed

lemma tick_countdown:
  assumes "detect_timer s = Some e" "2 \<le> unat (e - jiffies s)"
  shows "unat (e - jiffies (tick s)) = unat (e - jiffies s) - 1"
proof -
  have "e - jiffies s \<noteq> 0" using assms(2) by (auto simp: unat_eq_zero)
  then have "unat (e - jiffies s - 1) = unat (e - jiffies s) - 1" by (rule unat_minus_one)
  then show ?thesis by (simp add: tick_def algebra_simps)
qed

end
