(* ===== verification/Headset_Gates.thy ===== *)
theory Headset_Gates
  imports Headset_Kernel
begin

text \<open>
  The two idempotent gates of headset_sprd.c (lines 269-307), each keeping a
  function-local \<open>static int\<close>: \<open>headset_button_irq_enable\<close> (the static
  \<open>button_irq_enable\<close>, initially 1, under the spinlock
  \<open>headmic_button_irq_lock\<close>) calls \<open>disable_irq\<close>/\<open>enable_irq\<close> only on a
  change, and \<open>headset_pwr_on\<close> (the static \<open>pwr_down_flags\<close>, initially 1)
  calls the codec's \<open>sprd_codec_headmic_bias_control\<close> only on a change. Their
  invariants: the gate flag agrees with the interrupt core's disable depth, which
  therefore stays within 0..1 and never sees an unbalanced enable; and the codec
  receives strictly alternating on/off calls, beginning with on.
\<close>

record gates = kernel +
  button_irq_enable :: bool
  pwr_down_flags :: bool

definition headset_button_irq_enable :: "bool \<Rightarrow> irq_line \<Rightarrow> 'a gates_scheme \<Rightarrow> 'a gates_scheme" where
  "headset_button_irq_enable enable irq s =
     (if \<not> enable then
        (if button_irq_enable s then (disable_irq irq s)\<lparr>button_irq_enable := False\<rparr> else s)
      else
        (if \<not> button_irq_enable s then (enable_irq irq s)\<lparr>button_irq_enable := True\<rparr> else s))"

definition sprd_codec_headmic_bias_control :: "bool \<Rightarrow> 'a machine_scheme \<Rightarrow> 'a machine_scheme" where
  "sprd_codec_headmic_bias_control on s = emit [Bias_Control on] s"

definition headset_pwr_on :: "bool \<Rightarrow> 'a gates_scheme \<Rightarrow> 'a gates_scheme" where
  "headset_pwr_on pwr_on s =
     (if pwr_on then
        (if pwr_down_flags s then (sprd_codec_headmic_bias_control True s)\<lparr>pwr_down_flags := False\<rparr>
         else s)
      else
        (if \<not> pwr_down_flags s then (sprd_codec_headmic_bias_control False s)\<lparr>pwr_down_flags := True\<rparr>
         else s))"

subsection \<open>Invariants\<close>

text \<open>The gate flag agrees with the button line's disable depth.\<close>

definition gate_inv :: "'a gates_scheme \<Rightarrow> bool" where
  "gate_inv s \<longleftrightarrow> irq_depth s Button_Irq = (if button_irq_enable s then 0 else 1)"

text \<open>A list of booleans that alternates, starting from \<open>b\<close>.\<close>

fun alternates :: "bool \<Rightarrow> bool list \<Rightarrow> bool" where
  "alternates b [] = True"
| "alternates b (x # xs) = (x = b \<and> alternates (\<not> b) xs)"

text \<open>The codec's bias calls alternate on/off from on, and the flag says which is next.\<close>

definition bias_inv :: "'a gates_scheme \<Rightarrow> bool" where
  "bias_inv s \<longleftrightarrow>
     alternates True (bias_calls (out_log s)) \<and>
     (pwr_down_flags s \<longleftrightarrow> even (length (bias_calls (out_log s))))"

text \<open>
  The gate state at module load: interrupt lines requested and enabled (depth 0),
  both statics at their initial value 1, the module parameters at their defaults.
\<close>

definition gates_boot :: gates where
  "gates_boot = \<lparr>adi = (\<lambda>_. 0), gpio = (\<lambda>_. False), adc_src = (\<lambda>_ _. 0), adc_cnt = 0,
     out_log = [], headset_timer_period = 500, headset_read_adc_delay = 10,
     headset_switch_gpio_delay = 30, irq_depth = (\<lambda>_. 0), irq_type = (\<lambda>_. IRQF_TRIGGER_HIGH),
     jiffies = 0, detect_timer = None, headset_wq = Some [], kernel_oops = False,
     button_irq_enable = True, pwr_down_flags = True\<rparr>"

lemma alternates_snoc [headset_simps]:
  "alternates b (xs @ [x]) \<longleftrightarrow> alternates b xs \<and> x = (if even (length xs) then b else \<not> b)"
  by (induction xs arbitrary: b) auto

lemmas [headset_simps] = sprd_codec_headmic_bias_control_def

lemma headset_pwr_on_upd:
  "headset_pwr_on b s =
     s\<lparr>out_log := out_log s @ (if pwr_down_flags s = b then [Bias_Control b] else []),
       pwr_down_flags := \<not> b\<rparr>"
  by (cases b; cases "pwr_down_flags s") (simp_all add: headset_pwr_on_def headset_simps)


lemma headset_button_irq_enable_upd:
  "gate_inv s \<Longrightarrow> headset_button_irq_enable b Button_Irq s =
     s\<lparr>irq_depth := (irq_depth s)(Button_Irq := if b then 0 else 1), button_irq_enable := b\<rparr>"
  by (cases b; cases "button_irq_enable s")
     (simp_all add: headset_button_irq_enable_def gate_inv_def enable_irq_def headset_simps fun_upd_idem)

text \<open>
  \<^bold>\<open>C5.\<close> \<open>headset_button_irq_enable\<close> keeps the gate flag equal to "the
  button line's disable depth is 0" (so the depth stays 0 or 1), leaves the flag
  equal to the requested state, and never triggers the kernel's unbalanced-enable
  warning (its effect log is unchanged).
\<close>

theorem headset_button_irq_enable_gate:
  assumes "gate_inv s"
  shows "gate_inv (headset_button_irq_enable enable Button_Irq s) \<and>
         button_irq_enable (headset_button_irq_enable enable Button_Irq s) = enable \<and>
         out_log (headset_button_irq_enable enable Button_Irq s) = out_log s"
  using assms
  by (auto simp: headset_button_irq_enable_def gate_inv_def enable_irq_def headset_simps)

theorem headset_button_irq_enable_gate_witness:
  "gate_inv gates_boot \<and> gate_inv (headset_button_irq_enable False Button_Irq gates_boot) \<and>
   button_irq_enable (headset_button_irq_enable False Button_Irq gates_boot) = False \<and>
   out_log (headset_button_irq_enable False Button_Irq gates_boot) = out_log gates_boot"
proof -
  have "gate_inv gates_boot" by (simp add: gate_inv_def gates_boot_def)
  then show ?thesis using headset_button_irq_enable_gate [of gates_boot False] by simp
qed

text \<open>
  \<^bold>\<open>C6.\<close> \<open>headset_pwr_on\<close> keeps the codec's bias calls strictly alternating
  (on, off, on, ...), so the codec never sees two consecutive enables or
  disables, and leaves \<open>pwr_down_flags\<close> set exactly when the request was off.
\<close>

theorem headset_pwr_on_alternates:
  assumes "bias_inv s"
  shows "bias_inv (headset_pwr_on pwr_on s) \<and> pwr_down_flags (headset_pwr_on pwr_on s) = (\<not> pwr_on)"
  using assms by (auto simp: headset_pwr_on_def bias_inv_def headset_simps)

theorem headset_pwr_on_alternates_witness:
  "bias_inv gates_boot \<and> bias_inv (headset_pwr_on True gates_boot) \<and>
   pwr_down_flags (headset_pwr_on True gates_boot) = False"
proof -
  have "bias_inv gates_boot" by (simp add: bias_inv_def gates_boot_def headset_simps)
  then show ?thesis using headset_pwr_on_alternates [of gates_boot True] by simp
qed

end
