(* ===== verification/Headset_Buttons.thy ===== *)
theory Headset_Buttons
  imports Headset_Adc Headset_Gates
begin

text \<open>
  The button state machine of headset_sprd.c (lines 309-390): the table
  \<open>pdata->headset_button[0..nbuttons)\<close> of \<open>{adc_min, adc_max, code, type,
  state}\<close> entries, the function-local \<open>static int key_code\<close> of the button work,
  \<open>headset_button_release\<close> (release every pressed entry on unplug) and
  \<open>headset_button_workqueue_func\<close>. The state record \<open>buttons\<close> extends
  \<open>gates\<close> with the two platform-data pointers the code reads
  (\<open>ht->detect.platform_data\<close> and \<open>ht->button.platform_data\<close>, \<open>None\<close> for
  NULL) and \<open>key_code\<close>. A NULL dereference sets \<open>kernel_oops\<close>.

  The work sleeps 80 ms between its two samples of the debounced button status,
  and the hardware may change while it sleeps; the work is therefore split at the
  \<open>msleep(80)\<close> into \<open>headset_button_work_begin\<close> and
  \<open>headset_button_work_finish\<close>, and \<open>headset_button_workqueue_func\<close> is their
  composition with nothing happening during the sleep.
\<close>

datatype headset_button_state = HEADSET_BUTTON_STATE_RELASED | HEADSET_BUTTON_STATE_PRESSED

record headset_button =
  adc_min :: int
  adc_max :: int
  code :: int
  ev_type :: int
  state :: headset_button_state

record buttons = gates +
  detect_platform_data :: detect_pdata
  button_platform_data :: "headset_button list option"
  key_code :: int

definition input_event :: "int \<Rightarrow> int \<Rightarrow> 'a machine_scheme \<Rightarrow> 'a machine_scheme" where
  "input_event c v s = emit [Input_Event c v] s"

definition input_sync :: "'a machine_scheme \<Rightarrow> 'a machine_scheme" where
  "input_sync s = emit [Input_Sync] s"

subsection \<open>Release on unplug (lines 309-328)\<close>

text \<open>The loop body over the table, in index order: the events and the new table.\<close>

fun release_loop :: "headset_button list \<Rightarrow> out_event list \<times> headset_button list" where
  "release_loop [] = ([], [])"
| "release_loop (b # bs) =
     (let (evs, bs') = release_loop bs
      in if HEADSET_BUTTON_STATE_PRESSED = state b
         then (Input_Event (code b) 0 # Input_Sync # evs, b\<lparr>state := HEADSET_BUTTON_STATE_RELASED\<rparr> # bs')
         else (evs, b # bs'))"

definition headset_button_release :: "'a buttons_scheme \<Rightarrow> 'a buttons_scheme" where
  "headset_button_release s =
     (case button_platform_data s of
        None \<Rightarrow> s\<lparr>kernel_oops := True\<rparr>
      | Some bs \<Rightarrow>
          (let (evs, bs') = release_loop bs
           in (emit evs s)\<lparr>button_platform_data := Some bs'\<rparr>))"

subsection \<open>The button work (lines 331-390)\<close>

text \<open>
  The scan for the key code: each entry whose range does not contain the reading
  resets \<open>key_code\<close> to \<open>KEY_RESERVED\<close>, the first that does sets it and stops;
  an empty table leaves \<open>key_code\<close> as it was.
\<close>

fun scan_key_code :: "int \<Rightarrow> headset_button list \<Rightarrow> int \<Rightarrow> int" where
  "scan_key_code adc_mic [] kc = kc"
| "scan_key_code adc_mic (b # bs) kc =
     (if adc_mic \<ge> adc_min b \<and> adc_mic < adc_max b then code b
      else scan_key_code adc_mic bs KEY_RESERVED)"

text \<open>Mark the first entry with the given code (the loops of lines 372-377, 382-387).\<close>

fun mark_button :: "int \<Rightarrow> headset_button_state \<Rightarrow> headset_button list \<Rightarrow> headset_button list" where
  "mark_button kc st [] = []"
| "mark_button kc st (b # bs) =
     (if kc = code b then b\<lparr>state := st\<rparr> # bs else b # mark_button kc st bs)"

text \<open>Where the work stands at \<open>msleep(80)\<close>: finished, or asleep with its first
  sample of the button status and its mic reading.\<close>

datatype 'a button_work_point = Work_Done 'a | Work_Sleeping bool int 'a

definition headset_button_work_begin :: "'a buttons_scheme \<Rightarrow> 'a buttons_scheme button_work_point" where
  "headset_button_work_begin s =
     (let (ignore_button, s) = ignore_wrong_button s
      in if ignore_button then
           Work_Done (mod_timer (jiffies s + msecs_to_jiffies (headset_timer_period s)) s)
         else if \<not> headset_plug_in (detect_platform_data s) s then Work_Done s
         else
           (let st = headset_button_down s;
                (adc_mic, s) = headset_read_adc True s
            in Work_Sleeping st adc_mic (msleep 80 s)))"

definition headset_button_work_finish :: "bool \<Rightarrow> int \<Rightarrow> 'a buttons_scheme \<Rightarrow> 'a buttons_scheme" where
  "headset_button_work_finish st adc_mic s =
     (let st = st \<and> headset_button_down s
      in case button_platform_data s of
           None \<Rightarrow>
             if st then s\<lparr>kernel_oops := True\<rparr>
             else (input_event (key_code s) 0 s)\<lparr>kernel_oops := True\<rparr>
         | Some bs \<Rightarrow>
             if st then
               (let kc = scan_key_code adc_mic bs (key_code s);
                    s = input_event kc 1 (s\<lparr>key_code := kc\<rparr>)
                in input_sync (s\<lparr>button_platform_data := Some (mark_button kc HEADSET_BUTTON_STATE_PRESSED bs)\<rparr>))
             else
               (let s = input_event (key_code s) 0 s
                in input_sync (s\<lparr>button_platform_data :=
                     Some (mark_button (key_code s) HEADSET_BUTTON_STATE_RELASED bs)\<rparr>)))"

definition headset_button_workqueue_func :: "'a buttons_scheme \<Rightarrow> 'a buttons_scheme" where
  "headset_button_workqueue_func s =
     (case headset_button_work_begin s of
        Work_Done s' \<Rightarrow> s'
      | Work_Sleeping st adc_mic s' \<Rightarrow> headset_button_work_finish st adc_mic s')"

subsection \<open>Invariant and example states\<close>

text \<open>The key the work would release is \<open>KEY_RESERVED\<close> or a code of the table.\<close>

definition key_code_inv :: "'a buttons_scheme \<Rightarrow> bool" where
  "key_code_inv s \<longleftrightarrow>
     (case button_platform_data s of
        None \<Rightarrow> True
      | Some bs \<Rightarrow> key_code s = KEY_RESERVED \<or> key_code s \<in> code ` set bs)"

text \<open>The key-code scan as the loop means it: the code of the first entry whose range
  holds the reading, \<open>KEY_RESERVED\<close> when none does; an empty table keeps the code.\<close>

definition key_code_spec :: "int \<Rightarrow> headset_button list \<Rightarrow> int \<Rightarrow> int" where
  "key_code_spec adc_mic bs kc =
     (if bs = [] then kc
      else case find (\<lambda>b. adc_min b \<le> adc_mic \<and> adc_mic < adc_max b) bs of
             Some b \<Rightarrow> code b
           | None \<Rightarrow> KEY_RESERVED)"

text \<open>Platform data and driver state used by the witnesses below: the detect line is
  GPIO 2, the module is loaded with the given button table, \<open>key_code\<close> is
  \<open>KEY_RESERVED\<close>. Key codes are those of linux/input.h (\<open>KEY_A\<close> = 30,
  \<open>KEY_VOLUMEDOWN\<close> = 114, \<open>KEY_VOLUMEUP\<close> = 115).\<close>

definition example_pdata :: detect_pdata where
  "example_pdata = \<lparr>switch_gpio = 1, detect_gpio = 2, button_gpio = 3, detect_active_low = 0,
     button_active_low = 0\<rparr>"

definition buttons_boot :: "headset_button list option \<Rightarrow> buttons" where
  "buttons_boot bs = gates.extend gates_boot (buttons.fields example_pdata bs KEY_RESERVED)"

definition scenario_table :: "headset_button list" where
  "scenario_table = [\<lparr>adc_min = 0, adc_max = 500, code = 115, ev_type = 1,
     state = HEADSET_BUTTON_STATE_RELASED\<rparr>]"

text \<open>A mic-equipped headset inserted, button status "down" (bits 5-7 of detect
  register 0xC0), every conversion reading 250.\<close>

definition scenario_c :: buttons where
  "scenario_c = (buttons_boot (Some scenario_table))
     \<lparr>adi := (\<lambda>_. 0)(HEADMIC_DETECT_REG 0xC0 := BIT 5 OR BIT 6 OR BIT 7),
      gpio := (\<lambda>_. False)(2 := True), adc_src := (\<lambda>_ _. 250)\<rparr>"

text \<open>The same after the press: status "up" (bits 5-6 only), \<open>KEY_VOLUMEUP\<close> held.\<close>

definition scenario_c_up :: buttons where
  "scenario_c_up = scenario_c
     \<lparr>adi := (\<lambda>_. 0)(HEADMIC_DETECT_REG 0xC0 := BIT 5 OR BIT 6), key_code := 115,
      button_platform_data := Some (mark_button 115 HEADSET_BUTTON_STATE_PRESSED scenario_table)\<rparr>"

definition cex_table :: "headset_button list" where
  "cex_table = [\<lparr>adc_min = 0, adc_max = 100, code = 114, ev_type = 1,
                  state = HEADSET_BUTTON_STATE_RELASED\<rparr>,
                \<lparr>adc_min = 100, adc_max = 500, code = 115, ev_type = 1,
                  state = HEADSET_BUTTON_STATE_RELASED\<rparr>]"

text \<open>Button held down across two button works, the mic reading moving from 50
  (first fifteen conversions) to 250.\<close>

definition cex_state :: buttons where
  "cex_state = (buttons_boot (Some cex_table))
     \<lparr>adi := (\<lambda>_. 0)(HEADMIC_DETECT_REG 0xC0 := BIT 5 OR BIT 6 OR BIT 7),
      gpio := (\<lambda>_. False)(2 := True), adc_src := (\<lambda>_ n. if n < 15 then 50 else 250)\<rparr>"

lemmas boot_simps = buttons_boot_def gates.defs buttons.defs gates_boot_def example_pdata_def

subsection \<open>Lemmas on the loops\<close>

lemma release_loop_eq:
  "release_loop bs =
     (concat (map (\<lambda>b. if state b = HEADSET_BUTTON_STATE_PRESSED
                       then [Input_Event (code b) 0, Input_Sync] else []) bs),
      map (\<lambda>b. b\<lparr>state := HEADSET_BUTTON_STATE_RELASED\<rparr>) bs)"
proof (induction bs)
  case Nil
  then show ?case by simp
next
  case (Cons b bs)
  show ?case
  proof (cases "state b")
    case HEADSET_BUTTON_STATE_RELASED
    then have "b\<lparr>state := HEADSET_BUTTON_STATE_RELASED\<rparr> = b" by simp
    with Cons HEADSET_BUTTON_STATE_RELASED show ?thesis by (simp add: split_beta)
  next
    case HEADSET_BUTTON_STATE_PRESSED
    with Cons show ?thesis by (simp add: split_beta)
  qed
qed

lemma key_events_release:
  "key_events (concat (map (\<lambda>b. if state b = HEADSET_BUTTON_STATE_PRESSED
                                 then [Input_Event (code b) 0, Input_Sync] else []) bs))
   = [(code b, 0). b \<leftarrow> bs, state b = HEADSET_BUTTON_STATE_PRESSED]"
  by (induction bs) (auto simp: headset_simps)

lemma headset_button_release_upd:
  "button_platform_data s = Some bs \<Longrightarrow>
   headset_button_release s =
     s\<lparr>out_log := out_log s @ concat (map (\<lambda>b. if state b = HEADSET_BUTTON_STATE_PRESSED
                       then [Input_Event (code b) 0, Input_Sync] else []) bs),
       button_platform_data := Some (map (\<lambda>b. b\<lparr>state := HEADSET_BUTTON_STATE_RELASED\<rparr>) bs)\<rparr>"
  by (simp add: headset_button_release_def release_loop_eq headset_simps)

lemma bias_calls_release:
  "bias_calls (concat (map (\<lambda>b. if state b = HEADSET_BUTTON_STATE_PRESSED
                                 then [Input_Event (code b) 0, Input_Sync] else []) bs)) = []"
  by (induction bs) (auto simp: headset_simps)

lemma scan_key_code_range:
  "scan_key_code a bs kc \<in> insert kc (insert KEY_RESERVED (code ` set bs))"
  by (induction bs arbitrary: kc) auto

lemma code_mark_button [simp]: "code ` set (mark_button kc st bs) = code ` set bs"
  by (induction bs) auto

subsection \<open>Lemmas on the work\<close>

lemma ignore_wrong_button_status:
  "headset_plug_in pd (snd (ignore_wrong_button s)) = headset_plug_in pd s"
  "headset_button_down (snd (ignore_wrong_button s)) = headset_button_down s"
  by (simp_all add: ignore_wrong_button_eq headset_plug_in_iff headset_button_down_iff
      read_adc_pair_adi_other)

lemma headset_button_work_begin_eq:
  "headset_button_work_begin s =
    (if wrong_button_of (adc_src s True (adc_cnt s + 2)) (adc_src s False (adc_cnt s + 7))
     then Work_Done (mod_timer (jiffies s + msecs_to_jiffies (headset_timer_period s))
                      (snd (ignore_wrong_button s)))
     else if \<not> headset_plug_in (detect_platform_data s) s then Work_Done (snd (ignore_wrong_button s))
     else Work_Sleeping (headset_button_down s) (adc_src s True (adc_cnt s + 12))
            (msleep 80 (snd (headset_read_adc True (snd (ignore_wrong_button s))))))"
proof -
  have rd: "fst (headset_read_adc True (snd (ignore_wrong_button s))) = adc_src s True (adc_cnt s + 12)"
    by (simp add: headset_read_adc_eq ignore_wrong_button_eq ac_simps)
  show ?thesis
    by (simp add: headset_button_work_begin_def split_beta ignore_wrong_button_status rd)
      (simp add: ignore_wrong_button_eq)
qed

text \<open>What the state the work sleeps in still has of the state it started from.\<close>

lemma button_sleep_state:
  fixes s :: "'a buttons_scheme"
  defines "s3 \<equiv> msleep 80 (snd (headset_read_adc True (snd (ignore_wrong_button s))))"
  shows "headset_button_down s3 = headset_button_down s"
    "button_platform_data s3 = button_platform_data s" "key_code s3 = key_code s"
    "kernel_oops s3 = kernel_oops s"
    "key_events (out_log s3) = key_events (out_log s)"
proof -
  have u: "snd (headset_read_adc True (snd (ignore_wrong_button s))) =
     (snd (ignore_wrong_button s))
       \<lparr>adi := adi (snd (headset_read_adc True (snd (ignore_wrong_button s)))),
        adc_cnt := adc_cnt (snd (ignore_wrong_button s)) + 5,
        out_log := out_log (snd (ignore_wrong_button s)) @
          [Mdelay (headset_read_adc_delay (snd (ignore_wrong_button s)))]\<rparr>"
    by (rule headset_read_adc_upd)
  show "headset_button_down s3 = headset_button_down s"
    by (simp add: s3_def headset_simps headset_button_down_iff headset_read_adc_adi_other
        read_adc_pair_adi_other ignore_wrong_button_eq)
  show "button_platform_data s3 = button_platform_data s" "key_code s3 = key_code s"
    "kernel_oops s3 = kernel_oops s" "key_events (out_log s3) = key_events (out_log s)"
    by (simp_all add: s3_def msleep_def emit_def,
        (subst u, simp add: ignore_wrong_button_eq headset_simps)+)
qed

lemma headset_button_work_sleeps:
  assumes "\<not> wrong_button_of (adc_src s True (adc_cnt s + 2)) (adc_src s False (adc_cnt s + 7))"
    and "headset_plug_in (detect_platform_data s) s"
  shows "headset_button_workqueue_func s =
           headset_button_work_finish (headset_button_down s) (adc_src s True (adc_cnt s + 12))
             (msleep 80 (snd (headset_read_adc True (snd (ignore_wrong_button s)))))"
  using assms by (simp add: headset_button_workqueue_func_def headset_button_work_begin_eq)

lemmas button_finish_simps = headset_button_work_finish_def button_sleep_state input_event_def
  input_sync_def emit_def key_events_append key_events_simps Let_def

text \<open>The fields the work never writes, and the conversions it consumes.\<close>

lemma headset_button_work_frame:
  "adc_src (headset_button_workqueue_func s) = adc_src s \<and>
   gpio (headset_button_workqueue_func s) = gpio s \<and>
   detect_platform_data (headset_button_workqueue_func s) = detect_platform_data s \<and>
   adi (headset_button_workqueue_func s) (HEADMIC_DETECT_REG 0xC0) = adi s (HEADMIC_DETECT_REG 0xC0) \<and>
   headset_read_adc_delay (headset_button_workqueue_func s) = headset_read_adc_delay s \<and>
   adc_cnt (headset_button_workqueue_func s) =
     adc_cnt s + (if wrong_button_of (adc_src s True (adc_cnt s + 2)) (adc_src s False (adc_cnt s + 7))
                     \<or> \<not> headset_plug_in (detect_platform_data s) s then 10 else 15)"
proof -
  let ?s1 = "snd (ignore_wrong_button s)"
  have s1: "adc_src ?s1 = adc_src s" "gpio ?s1 = gpio s"
    "detect_platform_data ?s1 = detect_platform_data s"
    "adi ?s1 (HEADMIC_DETECT_REG 0xC0) = adi s (HEADMIC_DETECT_REG 0xC0)" "adc_cnt ?s1 = adc_cnt s + 10"
    "headset_read_adc_delay ?s1 = headset_read_adc_delay s"
    by (simp_all add: ignore_wrong_button_eq read_adc_pair_adi_other)
  let ?s2 = "snd (headset_read_adc True ?s1)"
  have s2: "adc_src ?s2 = adc_src s" "gpio ?s2 = gpio s"
    "detect_platform_data ?s2 = detect_platform_data s"
    "adi ?s2 (HEADMIC_DETECT_REG 0xC0) = adi s (HEADMIC_DETECT_REG 0xC0)" "adc_cnt ?s2 = adc_cnt s + 15"
    "headset_read_adc_delay ?s2 = headset_read_adc_delay s"
    by (subst headset_read_adc_upd; simp add: s1 headset_read_adc_adi_other)+
  show ?thesis
    by (simp add: headset_button_workqueue_func_def headset_button_work_begin_eq s1 s2
        headset_button_work_finish_def input_event_def input_sync_def emit_def msleep_def
        Let_def mod_timer_def split: option.split)
qed

subsection \<open>Properties of the button machine\<close>

text \<open>
  \<^bold>\<open>C7.\<close> \<open>headset_button_release\<close> releases every pressed entry of the table:
  afterwards every entry is released, and it has emitted exactly one key-up for each
  entry that was pressed, in table order; \<open>key_code\<close> is left as it was.
\<close>

theorem headset_button_release_all:
  assumes "button_platform_data s = Some bs"
  shows "button_platform_data (headset_button_release s) =
           Some (map (\<lambda>b. b\<lparr>state := HEADSET_BUTTON_STATE_RELASED\<rparr>) bs) \<and>
         key_events (out_log (headset_button_release s)) =
           key_events (out_log s) @ [(code b, 0). b \<leftarrow> bs, state b = HEADSET_BUTTON_STATE_PRESSED] \<and>
         key_code (headset_button_release s) = key_code s \<and>
         kernel_oops (headset_button_release s) = kernel_oops s"
  using assms
  by (simp add: headset_button_release_def release_loop_eq key_events_release emit_def key_events_append)

theorem headset_button_release_all_witness:
  "button_platform_data (buttons_boot (Some [\<lparr>adc_min = 100, adc_max = 200, code = 30, ev_type = 1,
      state = HEADSET_BUTTON_STATE_PRESSED\<rparr>])) =
     Some [\<lparr>adc_min = 100, adc_max = 200, code = 30, ev_type = 1, state = HEADSET_BUTTON_STATE_PRESSED\<rparr>] \<and>
   key_events (out_log (headset_button_release (buttons_boot (Some [\<lparr>adc_min = 100, adc_max = 200,
      code = 30, ev_type = 1, state = HEADSET_BUTTON_STATE_PRESSED\<rparr>])))) = [(30, 0)]"
  using headset_button_release_all [of "buttons_boot (Some [\<lparr>adc_min = 100, adc_max = 200, code = 30,
      ev_type = 1, state = HEADSET_BUTTON_STATE_PRESSED\<rparr>])"]
  by (simp add: boot_simps key_events_simps)

text \<open>
  \<^bold>\<open>C8.\<close> \<open>headset_button_release\<close> dereferences the button platform data
  without a check: when no button table was registered (the headset-buttons device
  was never probed), the unplug path oopses.
\<close>

theorem headset_button_release_null:
  assumes "button_platform_data s = None"
  shows "kernel_oops (headset_button_release s)"
  using assms by (simp add: headset_button_release_def)

theorem headset_button_release_null_witness:
  "button_platform_data (buttons_boot None) = None \<and> kernel_oops (headset_button_release (buttons_boot None))"
  using headset_button_release_null [of "buttons_boot None"] by (simp add: boot_simps)

text \<open>
  \<^bold>\<open>C9.\<close> A confirmed press: when \<open>ignore_wrong_button\<close> does not ignore,
  the headset reads as plugged in and both samples of the button status read "down",
  the work emits exactly one key-down, for the code the scan finds for the fresh mic
  reading (the third conversion after the ten of \<open>ignore_wrong_button\<close>), records it
  in \<open>key_code\<close> and marks the first entry with that code pressed.
\<close>

theorem headset_button_work_press:
  assumes "\<not> wrong_button_of (adc_src s True (adc_cnt s + 2)) (adc_src s False (adc_cnt s + 7))"
    and "headset_plug_in (detect_platform_data s) s" and "headset_button_down s"
    and "button_platform_data s = Some bs"
  shows "key_events (out_log (headset_button_workqueue_func s)) =
           key_events (out_log s) @ [(scan_key_code (adc_src s True (adc_cnt s + 12)) bs (key_code s), 1)] \<and>
         key_code (headset_button_workqueue_func s) =
           scan_key_code (adc_src s True (adc_cnt s + 12)) bs (key_code s) \<and>
         button_platform_data (headset_button_workqueue_func s) =
           Some (mark_button (scan_key_code (adc_src s True (adc_cnt s + 12)) bs (key_code s))
                  HEADSET_BUTTON_STATE_PRESSED bs)"
  using assms by (simp add: headset_button_work_sleeps [OF assms(1,2)] button_finish_simps)

theorem headset_button_work_press_witness:
  "\<not> wrong_button_of (adc_src scenario_c True (adc_cnt scenario_c + 2))
      (adc_src scenario_c False (adc_cnt scenario_c + 7)) \<and>
   headset_plug_in (detect_platform_data scenario_c) scenario_c \<and> headset_button_down scenario_c \<and>
   button_platform_data scenario_c = Some scenario_table \<and>
   key_events (out_log (headset_button_workqueue_func scenario_c)) = [(115, 1)] \<and>
   key_code (headset_button_workqueue_func scenario_c) = 115"
proof -
  have h1: "\<not> wrong_button_of (adc_src scenario_c True (adc_cnt scenario_c + 2))
      (adc_src scenario_c False (adc_cnt scenario_c + 7))"
    by (simp add: scenario_c_def boot_simps wrong_button_of_def ABS_sub_def
        HEADSET_TYPE_ADC_DISPART_VALUE_def)
  have h2: "headset_plug_in (detect_platform_data scenario_c) scenario_c"
    by (simp add: scenario_c_def boot_simps headset_plug_in_iff bit_or_iff bit_BIT)
  have h3: "headset_button_down scenario_c"
    by (simp add: scenario_c_def boot_simps headset_button_down_iff bit_or_iff bit_BIT)
  have h4: "button_platform_data scenario_c = Some scenario_table"
    by (simp add: scenario_c_def boot_simps)
  show ?thesis
    using headset_button_work_press [OF h1 h2 h3 h4] h1 h2 h3 h4
    by (simp add: scenario_c_def boot_simps scenario_table_def KEY_RESERVED_def key_events_simps)
qed

text \<open>
  \<^bold>\<open>C10.\<close> A release: when the work is not ignored, the headset reads as plugged
  in and the first sample of the button status reads "up", the work emits exactly
  one key-up, for the remembered \<open>key_code\<close>, and marks the first entry with that
  code released.
\<close>

theorem headset_button_work_release:
  assumes "\<not> wrong_button_of (adc_src s True (adc_cnt s + 2)) (adc_src s False (adc_cnt s + 7))"
    and "headset_plug_in (detect_platform_data s) s" and "\<not> headset_button_down s"
    and "button_platform_data s = Some bs"
  shows "key_events (out_log (headset_button_workqueue_func s)) = key_events (out_log s) @ [(key_code s, 0)] \<and>
         key_code (headset_button_workqueue_func s) = key_code s \<and>
         button_platform_data (headset_button_workqueue_func s) =
           Some (mark_button (key_code s) HEADSET_BUTTON_STATE_RELASED bs)"
  using assms by (simp add: headset_button_work_sleeps [OF assms(1,2)] button_finish_simps)

theorem headset_button_work_release_witness:
  "\<not> wrong_button_of (adc_src scenario_c_up True (adc_cnt scenario_c_up + 2))
      (adc_src scenario_c_up False (adc_cnt scenario_c_up + 7)) \<and>
   headset_plug_in (detect_platform_data scenario_c_up) scenario_c_up \<and>
   \<not> headset_button_down scenario_c_up \<and>
   button_platform_data scenario_c_up = Some (mark_button 115 HEADSET_BUTTON_STATE_PRESSED scenario_table) \<and>
   key_events (out_log (headset_button_workqueue_func scenario_c_up)) = [(115, 0)] \<and>
   button_platform_data (headset_button_workqueue_func scenario_c_up) = Some scenario_table"
proof -
  have h1: "\<not> wrong_button_of (adc_src scenario_c_up True (adc_cnt scenario_c_up + 2))
      (adc_src scenario_c_up False (adc_cnt scenario_c_up + 7))"
    by (simp add: scenario_c_up_def scenario_c_def boot_simps wrong_button_of_def ABS_sub_def
        HEADSET_TYPE_ADC_DISPART_VALUE_def)
  have h2: "headset_plug_in (detect_platform_data scenario_c_up) scenario_c_up"
    by (simp add: scenario_c_up_def scenario_c_def boot_simps headset_plug_in_iff bit_or_iff bit_BIT)
  have h3: "\<not> headset_button_down scenario_c_up"
    by (simp add: scenario_c_up_def scenario_c_def boot_simps headset_button_down_iff bit_or_iff bit_BIT)
  have h4: "button_platform_data scenario_c_up =
      Some (mark_button 115 HEADSET_BUTTON_STATE_PRESSED scenario_table)"
    by (simp add: scenario_c_up_def)
  show ?thesis
    using headset_button_work_release [OF h1 h2 h3 h4] h1 h2 h3 h4
    by (simp add: scenario_c_up_def scenario_c_def boot_simps scenario_table_def key_events_simps)
qed

text \<open>
  \<^bold>\<open>C11.\<close> When \<open>ignore_wrong_button\<close> asks to ignore, or the headset no longer
  reads as plugged in, the button work emits no key event and leaves the table and
  \<open>key_code\<close> alone; in the ignore case it re-arms the detect debounce timer to
  \<open>headset_timer_period\<close> from now.
\<close>

theorem headset_button_work_silent:
  assumes "wrong_button_of (adc_src s True (adc_cnt s + 2)) (adc_src s False (adc_cnt s + 7)) \<or>
           \<not> headset_plug_in (detect_platform_data s) s"
  shows "key_events (out_log (headset_button_workqueue_func s)) = key_events (out_log s) \<and>
         key_code (headset_button_workqueue_func s) = key_code s \<and>
         button_platform_data (headset_button_workqueue_func s) = button_platform_data s \<and>
         detect_timer (headset_button_workqueue_func s) =
           (if wrong_button_of (adc_src s True (adc_cnt s + 2)) (adc_src s False (adc_cnt s + 7))
            then Some (jiffies s + msecs_to_jiffies (headset_timer_period s)) else detect_timer s)"
  using assms
  by (auto simp: headset_button_workqueue_func_def headset_button_work_begin_eq
      ignore_wrong_button_eq headset_simps)

theorem headset_button_work_silent_witness:
  "(wrong_button_of (adc_src (buttons_boot (Some scenario_table)) True 2)
      (adc_src (buttons_boot (Some scenario_table)) False 7) \<or>
    \<not> headset_plug_in (detect_platform_data (buttons_boot (Some scenario_table))) (buttons_boot (Some scenario_table))) \<and>
   key_events (out_log (headset_button_workqueue_func (buttons_boot (Some scenario_table)))) = []"
proof -
  have h: "wrong_button_of (adc_src (buttons_boot (Some scenario_table)) True
        (adc_cnt (buttons_boot (Some scenario_table)) + 2))
      (adc_src (buttons_boot (Some scenario_table)) False (adc_cnt (buttons_boot (Some scenario_table)) + 7)) \<or>
    \<not> headset_plug_in (detect_platform_data (buttons_boot (Some scenario_table))) (buttons_boot (Some scenario_table))"
    by (simp add: boot_simps headset_plug_in_iff)
  show ?thesis
    using headset_button_work_silent [OF h] h by (simp add: boot_simps key_events_simps)
qed

text \<open>
  \<^bold>\<open>C12.\<close> The table can hold two pressed entries at once: with the button held
  and the mic reading moving from the range of \<open>KEY_VOLUMEDOWN\<close> to that of
  \<open>KEY_VOLUMEUP\<close> between two button works, the code emits two key-downs with no
  key-up between them and leaves both entries marked pressed.
\<close>

theorem two_buttons_pressed:
  "let s2 = headset_button_workqueue_func (headset_button_workqueue_func cex_state)
   in key_events (out_log s2) = [(114, 1), (115, 1)] \<and>
      [code b. b \<leftarrow> the (button_platform_data s2), state b = HEADSET_BUTTON_STATE_PRESSED] = [114, 115]"
proof -
  let ?s1 = "headset_button_workqueue_func cex_state"
  have e: "adc_cnt cex_state = 0" "button_platform_data cex_state = Some cex_table"
    "adc_src cex_state = (\<lambda>_ n. if n < 15 then 50 else 250)"
    "adi cex_state (HEADMIC_DETECT_REG 0xC0) = BIT 5 OR BIT 6 OR BIT 7"
    "gpio cex_state (detect_gpio (detect_platform_data cex_state))" "out_log cex_state = []"
    "key_code cex_state = KEY_RESERVED"
    by (simp_all add: cex_state_def boot_simps)
  have c: "\<not> wrong_button_of (adc_src cex_state True (adc_cnt cex_state + 2))
      (adc_src cex_state False (adc_cnt cex_state + 7))"
    "headset_plug_in (detect_platform_data cex_state) cex_state" "headset_button_down cex_state"
    by (simp_all add: e wrong_button_of_def ABS_sub_def HEADSET_TYPE_ADC_DISPART_VALUE_def
        headset_plug_in_iff headset_button_down_iff bit_or_iff bit_BIT)
  note p1 = headset_button_work_press [OF c e(2)]
  have f1: "adc_cnt ?s1 = 15"
    using headset_button_work_frame [of cex_state] c e by simp
  have c1: "\<not> wrong_button_of (adc_src ?s1 True (adc_cnt ?s1 + 2)) (adc_src ?s1 False (adc_cnt ?s1 + 7))"
    "headset_plug_in (detect_platform_data ?s1) ?s1" "headset_button_down ?s1"
    using headset_button_work_frame [of cex_state] c e
    by (simp_all add: f1 wrong_button_of_def ABS_sub_def HEADSET_TYPE_ADC_DISPART_VALUE_def
        headset_plug_in_iff headset_button_down_iff bit_or_iff bit_BIT)
  show ?thesis
    using headset_button_work_press [OF c1, of "mark_button 114 HEADSET_BUTTON_STATE_PRESSED cex_table"]
      p1 f1 e headset_button_work_frame [of cex_state]
    by (simp add: cex_table_def KEY_RESERVED_def key_events_simps)
qed

text \<open>
  \<^bold>\<open>C13.\<close> The button work keeps \<open>key_code\<close> equal to \<open>KEY_RESERVED\<close> or to a
  code of the table, so every key-up it emits is for one of these.
\<close>

theorem headset_button_work_key_code_inv:
  assumes "key_code_inv s"
  shows "key_code_inv (headset_button_workqueue_func s)"
proof -
  let ?s3 = "msleep 80 (snd (headset_read_adc True (snd (ignore_wrong_button s))))"
  have fin: "key_code_inv (headset_button_work_finish st a ?s3)" for st a
  proof (cases "button_platform_data s")
    case None
    then show ?thesis
      by (simp add: headset_button_work_finish_def button_sleep_state key_code_inv_def
          input_event_def emit_def)
  next
    case (Some bs)
    with assms have "key_code s = KEY_RESERVED \<or> key_code s \<in> code ` set bs"
      by (simp add: key_code_inv_def)
    moreover have "scan_key_code a bs (key_code s) \<in> insert (key_code s) (insert KEY_RESERVED (code ` set bs))"
      by (rule scan_key_code_range)
    ultimately show ?thesis using Some
      by (auto simp: headset_button_work_finish_def button_sleep_state key_code_inv_def Let_def
          input_event_def input_sync_def emit_def)
  qed
  have early: "key_code_inv (snd (ignore_wrong_button s))"
    "key_code_inv (mod_timer j (snd (ignore_wrong_button s)))" for j
    using assms by (auto simp: ignore_wrong_button_eq key_code_inv_def mod_timer_def split: option.splits)
  show ?thesis
    by (simp add: headset_button_workqueue_func_def headset_button_work_begin_eq fin early)
qed

theorem headset_button_work_key_code_inv_witness:
  "key_code_inv scenario_c \<and> key_code_inv (headset_button_workqueue_func scenario_c)"
proof -
  have h: "key_code_inv scenario_c" by (simp add: key_code_inv_def scenario_c_def boot_simps)
  show ?thesis using headset_button_work_key_code_inv [OF h] h by simp
qed


text \<open>
  \<^bold>\<open>C35.\<close> The scan loop of lines 361-368, with its \<open>break\<close> and its reset of
  \<open>key_code\<close> to \<open>KEY_RESERVED\<close> on every non-matching entry, computes the reference
  \<open>key_code_spec\<close>: the first entry whose range \<open>[adc_min, adc_max)\<close> holds the reading
  gives its code, no match gives \<open>KEY_RESERVED\<close>, an empty table keeps the previous code.
\<close>

theorem scan_key_code_spec: "scan_key_code adc_mic bs kc = key_code_spec adc_mic bs kc"
proof (induction bs arbitrary: kc)
  case Nil
  then show ?case by (simp add: key_code_spec_def)
next
  case (Cons b bs)
  then show ?case by (cases bs) (simp_all add: key_code_spec_def)
qed

end
