(* ===== verification/Headset_Sched.thy ===== *)
theory Headset_Sched
  imports Headset_Buttons
begin

text \<open>
  The dispatch layer of headset_sprd.c (lines 102-110, 462-511 and the
  \<open>#ifdef CONFIG_INPUT_SPRD_HEADSET_USING_THREAD\<close> blocks of lines 532-537 and
  568-573). Two build variants: a dedicated kernel thread woken through the single
  unlocked word \<open>s_headset_event_flags\<close> (values 0, \<open>HEADSET_DETECT\<close> = 1,
  \<open>HEADSET_BUTTON\<close> = 2) with the diagnostic counter
  \<open>headset_discard_button_irq\<close>, or the single-threaded work queue
  \<open>headset_wq\<close>. The variant is the datatype \<open>headset_config\<close>; the state record
  \<open>sched\<close> extends \<open>buttons\<close> with the thread variant's two words.
\<close>

datatype headset_config = USING_THREAD | USING_WORKQUEUE

definition HEADSET_DETECT :: int where "HEADSET_DETECT = 1"
definition HEADSET_BUTTON :: int where "HEADSET_BUTTON = 2"

record sched = buttons +
  s_headset_event_flags :: int
  headset_discard_button_irq :: int

text \<open>
  \<open>headset_wake_up_headset_thread\<close>: a button request is dropped and counted while a
  detect request is pending; any other request overwrites the pending word.
  \<open>wake_up\<close> is the thread's readiness, which is \<open>s_headset_event_flags \<noteq> 0\<close>.
\<close>

definition headset_wake_up_headset_thread :: "int \<Rightarrow> 'a sched_scheme \<Rightarrow> int \<times> 'a sched_scheme" where
  "headset_wake_up_headset_thread even_flag s =
     (if HEADSET_BUTTON = even_flag \<and> HEADSET_DETECT = s_headset_event_flags s then
        (0, s\<lparr>headset_discard_button_irq := headset_discard_button_irq s + 1\<rparr>)
      else (even_flag, s\<lparr>s_headset_event_flags := even_flag\<rparr>))"

text \<open>The event flag of a work item in the thread variant.\<close>

definition work_flag :: "work \<Rightarrow> int" where
  "work_flag w = (case w of Detect_Work \<Rightarrow> HEADSET_DETECT | Button_Work \<Rightarrow> HEADSET_BUTTON)"

text \<open>
  Posting a unit of work from interrupt or timer context, as the two
  \<open>#ifdef\<close> blocks do: wake the thread, or queue the work when the queue exists.
\<close>

definition headset_post_work :: "headset_config \<Rightarrow> work \<Rightarrow> 'a sched_scheme \<Rightarrow> 'a sched_scheme" where
  "headset_post_work cfg w s =
     (case cfg of
        USING_THREAD \<Rightarrow> snd (headset_wake_up_headset_thread (work_flag w) s)
      | USING_WORKQUEUE \<Rightarrow> if headset_wq s \<noteq> None then queue_work w s else s)"

text \<open>
  The thread's hand-off, lines 473-475: once the word is non-zero, read it, then
  clear it. The read and the clear are two separate accesses to an unlocked word.
\<close>

definition headset_thread_read_flags :: "'a sched_scheme \<Rightarrow> int" where
  "headset_thread_read_flags s = s_headset_event_flags s"

definition headset_thread_clear_flags :: "'a sched_scheme \<Rightarrow> 'a sched_scheme" where
  "headset_thread_clear_flags s = s\<lparr>s_headset_event_flags := 0\<rparr>"

text \<open>What the thread runs for a flag value (the \<open>switch\<close> of lines 478-488).\<close>

definition thread_dispatch :: "int \<Rightarrow> work option" where
  "thread_dispatch flags =
     (if flags = HEADSET_DETECT then Some Detect_Work
      else if flags = HEADSET_BUTTON then Some Button_Work else None)"

text \<open>The scheduler state of the witnesses: the button example state, thread words clear.\<close>

definition sched_boot :: "headset_button list option \<Rightarrow> sched" where
  "sched_boot bs = buttons.extend (buttons_boot bs) (sched.fields 0 0)"

subsection \<open>Lemmas on posting\<close>

lemmas sched_boot_simps = sched_boot_def boot_simps sched.defs

lemma work_UNIV: "(UNIV :: work set) = {Detect_Work, Button_Work}"
  using work.exhaust by auto

lemma post_work_thread_flags:
  "s_headset_event_flags (headset_post_work USING_THREAD w s) =
     (if s_headset_event_flags s = HEADSET_DETECT then HEADSET_DETECT else work_flag w)"
  by (cases w) (auto simp: headset_post_work_def headset_wake_up_headset_thread_def work_flag_def
      HEADSET_DETECT_def HEADSET_BUTTON_def)

lemma post_work_thread_discard:
  "headset_discard_button_irq (headset_post_work USING_THREAD w s) =
     headset_discard_button_irq s + (if s_headset_event_flags s = HEADSET_DETECT \<and> w = Button_Work then 1 else 0)"
  by (cases w) (auto simp: headset_post_work_def headset_wake_up_headset_thread_def work_flag_def
      HEADSET_DETECT_def HEADSET_BUTTON_def)

lemma post_work_queue:
  "headset_wq s = Some q \<Longrightarrow>
   headset_wq (headset_post_work USING_WORKQUEUE w s) = Some (if w \<in> set q then q else q @ [w])"
  by (simp add: headset_post_work_def queue_work_def)

lemma more_sched:
  fixes s t :: "'a sched_scheme"
  assumes "buttons.more t = buttons.more s"
  shows "s_headset_event_flags t = s_headset_event_flags s" "headset_discard_button_irq t = headset_discard_button_irq s"
  using assms by (cases s, cases t, simp)+

lemma fold_post_detect_pending:
  "s_headset_event_flags s = HEADSET_DETECT \<Longrightarrow>
   s_headset_event_flags (fold (headset_post_work USING_THREAD) ws s) = HEADSET_DETECT"
  by (induction ws arbitrary: s) (simp_all add: post_work_thread_flags)

subsection \<open>The thread variant: one word, detection first\<close>

text \<open>
  \<^bold>\<open>C17.\<close> Thread variant: once a detect request is posted, the pending word stays
  \<open>HEADSET_DETECT\<close> whatever is posted after it, so a later button request can
  never overwrite a pending detection.
\<close>

theorem thread_detect_sticky:
  assumes "Detect_Work \<in> set ws"
  shows "s_headset_event_flags (fold (headset_post_work USING_THREAD) ws s) = HEADSET_DETECT"
  using assms
proof (induction ws arbitrary: s)
  case Nil
  then show ?case by simp
next
  case (Cons w ws)
  show ?case
  proof (cases "Detect_Work \<in> set ws")
    case True
    then show ?thesis using Cons.IH by simp
  next
    case False
    with Cons.prems have "w = Detect_Work" by simp
    then have "s_headset_event_flags (headset_post_work USING_THREAD w s) = HEADSET_DETECT"
      by (simp add: post_work_thread_flags work_flag_def)
    then show ?thesis by (simp add: fold_post_detect_pending)
  qed
qed

theorem thread_detect_sticky_witness:
  "Detect_Work \<in> set [Detect_Work, Button_Work] \<and>
   s_headset_event_flags (fold (headset_post_work USING_THREAD) [Detect_Work, Button_Work]
     (sched_boot None)) = HEADSET_DETECT"
  using thread_detect_sticky [of "[Detect_Work, Button_Work]" "sched_boot None"] by simp

text \<open>
  Thread variant: while a detect request is pending, every button request is
  dropped and counted: \<open>headset_discard_button_irq\<close> grows by exactly the number of
  button requests posted.
\<close>

theorem thread_discard_count:
  assumes "s_headset_event_flags s = HEADSET_DETECT"
  shows "headset_discard_button_irq (fold (headset_post_work USING_THREAD) ws s) =
           headset_discard_button_irq s + int (count_list ws Button_Work)"
  using assms
  by (induction ws arbitrary: s) (simp_all add: post_work_thread_flags post_work_thread_discard)

theorem thread_discard_count_witness:
  "s_headset_event_flags ((sched_boot None)\<lparr>s_headset_event_flags := 1\<rparr>) = HEADSET_DETECT \<and>
   headset_discard_button_irq (fold (headset_post_work USING_THREAD) [Button_Work, Detect_Work, Button_Work]
     ((sched_boot None)\<lparr>s_headset_event_flags := 1\<rparr>)) = 2"
proof -
  have h: "s_headset_event_flags ((sched_boot None)\<lparr>s_headset_event_flags := 1\<rparr>) = HEADSET_DETECT"
    by (simp add: HEADSET_DETECT_def)
  have d: "headset_discard_button_irq ((sched_boot None)\<lparr>s_headset_event_flags := 1\<rparr>) = 0"
    by (simp add: sched_boot_simps)
  show ?thesis using thread_discard_count [OF h, of "[Button_Work, Detect_Work, Button_Work]"] h d by simp
qed

text \<open>
  Thread variant: what the thread dispatches after a post is the posted work,
  unless a detection was already pending, in which case it is the detection (the
  flag encoding of a work and \<open>thread_dispatch\<close> are inverse).
\<close>

theorem thread_post_read:
  "thread_dispatch (headset_thread_read_flags (headset_post_work USING_THREAD w s)) =
     Some (if s_headset_event_flags s = HEADSET_DETECT then Detect_Work else w)"
  by (cases w) (simp_all add: headset_thread_read_flags_def post_work_thread_flags thread_dispatch_def
      work_flag_def HEADSET_DETECT_def HEADSET_BUTTON_def)

subsection \<open>The work-queue variant: coalescing per work item\<close>

text \<open>
  \<^bold>\<open>C18.\<close> Work-queue variant: posting keeps the queue in posting order, never holds a
  work twice, and holds every work posted; so at most the two work items are ever
  pending.
\<close>

theorem workqueue_coalesce:
  assumes "headset_wq s = Some q" and "distinct q"
  shows "\<exists>r. headset_wq (fold (headset_post_work USING_WORKQUEUE) ws s) = Some (q @ r) \<and>
             distinct (q @ r) \<and> set (q @ r) = set q \<union> set ws \<and> length (q @ r) \<le> 2"
proof -
  have "\<exists>r. headset_wq (fold (headset_post_work USING_WORKQUEUE) ws s) = Some (q @ r) \<and>
             distinct (q @ r) \<and> set (q @ r) = set q \<union> set ws"
    using assms
  proof (induction ws arbitrary: s q)
    case Nil
    then show ?case by simp
  next
    case (Cons w ws)
    let ?q = "if w \<in> set q then q else q @ [w]"
    have "headset_wq (headset_post_work USING_WORKQUEUE w s) = Some ?q" "distinct ?q"
      using Cons.prems by (simp_all add: post_work_queue)
    from Cons.IH [OF this] obtain r where
      r: "headset_wq (fold (headset_post_work USING_WORKQUEUE) ws (headset_post_work USING_WORKQUEUE w s)) = Some (?q @ r)"
         "distinct (?q @ r)" "set (?q @ r) = set ?q \<union> set ws"
      by blast
    show ?case
    proof (cases "w \<in> set q")
      case True
      with r show ?thesis by auto
    next
      case False
      with r show ?thesis by (intro exI [of _ "w # r"]) auto
    qed
  qed
  moreover have "length xs \<le> 2" if "distinct (xs :: work list)" for xs
  proof -
    have "length xs = card (set xs)" using that by (simp add: distinct_card)
    also have "\<dots> \<le> card (UNIV :: work set)" by (rule card_mono) (simp add: work_UNIV, simp)
    finally show ?thesis by (simp add: work_UNIV)
  qed
  ultimately show ?thesis by blast
qed

theorem workqueue_coalesce_witness:
  "headset_wq (sched_boot None) = Some [] \<and> distinct ([] :: work list) \<and>
   headset_wq (fold (headset_post_work USING_WORKQUEUE) [Button_Work, Detect_Work, Button_Work] (sched_boot None))
     = Some [Button_Work, Detect_Work]"
proof -
  have h: "headset_wq (sched_boot None) = Some []" by (simp add: sched_boot_simps)
  from workqueue_coalesce [OF h, of "[Button_Work, Detect_Work, Button_Work]"] obtain r where
    "headset_wq (fold (headset_post_work USING_WORKQUEUE) [Button_Work, Detect_Work, Button_Work] (sched_boot None))
       = Some r" "distinct r" "set r = {Button_Work, Detect_Work}"
    by auto
  moreover have "headset_wq (fold (headset_post_work USING_WORKQUEUE) [Button_Work, Detect_Work, Button_Work] (sched_boot None))
       = Some [Button_Work, Detect_Work]"
    using h by (simp add: post_work_queue)
  ultimately show ?thesis using h by simp
qed

end
