(* ===== verification/Headset_Detect.thy ===== *)
theory Headset_Detect
  imports Headset_Sched
begin

text \<open>
  The detection state machine of headset_sprd.c (lines 392-460, 514-574): the
  detect work \<open>headset_detect_workqueue_func\<close>, the two hard-interrupt handlers
  \<open>headset_detect_irq_handler\<close> and \<open>headset_button_irq_handler\<close>, and the timer
  callback \<open>headset_detect_timer\<close>. The state record \<open>detect\<close> extends \<open>sched\<close>
  with \<open>ht_detect->headphone\<close>, \<open>ht_detect->type\<close> and the state of the switch
  device \<open>ht_detect->sdev\<close>. The switch class and the notifier chain are kernel
  code, modelled from their contracts: \<open>switch_set_state\<close> records the new state
  and emits a uevent only on a change; \<open>blocking_notifier_call_chain\<close> is one
  logged call with the raw line level.
\<close>

record detect = sched +
  headphone :: int
  detect_type :: switch_type
  sdev_state :: switch_type

definition switch_set_state :: "switch_type \<Rightarrow> 'a detect_scheme \<Rightarrow> 'a detect_scheme" where
  "switch_set_state t s =
     (if sdev_state s \<noteq> t then emit [Switch_Set_State t] (s\<lparr>sdev_state := t\<rparr>) else s)"

definition blocking_notifier_call_chain :: "int \<Rightarrow> 'a machine_scheme \<Rightarrow> 'a machine_scheme" where
  "blocking_notifier_call_chain v s = emit [Notify_Call v] s"

subsection \<open>The detect work (lines 392-460)\<close>

text \<open>The \<open>switch (headset_type)\<close> of lines 412-429.\<close>

definition detect_type_setup :: "sprd_headset_type \<Rightarrow> 'a detect_scheme \<Rightarrow> 'a detect_scheme" where
  "detect_type_setup headset_type s =
     (let pd = detect_platform_data s in
      case headset_type of
        HEADSET_NORTH_AMERICA \<Rightarrow>
          (let s = gpio_direction_output (switch_gpio pd) True s;
               s = irq_set_irq_type Button_Irq IRQF_TRIGGER_HIGH s
           in mdelay (headset_switch_gpio_delay s) s)
      | HEADSET_NORMAL \<Rightarrow> irq_set_irq_type Button_Irq IRQF_TRIGGER_HIGH s
      | HEADSET_NO_MIC \<Rightarrow>
          (let s = irq_set_irq_type Button_Irq IRQF_TRIGGER_LOW s;
               s = headset_mic_level False s
           in headset_pwr_on False s)
      | _ \<Rightarrow> s)"

text \<open>Lines 405-407: mic gain for detection, switch GPIO low, settle.\<close>

definition plug_in_prelude :: "'a detect_scheme \<Rightarrow> 'a detect_scheme" where
  "plug_in_prelude s =
     (let pd = detect_platform_data s;
          s = headset_mic_level True s;
          s = gpio_direction_output (switch_gpio pd) False s
      in mdelay (headset_switch_gpio_delay s) s)"

text \<open>Plug-in branch (lines 405-443) after the line read "inserted".\<close>

definition detect_plug_in :: "'a detect_scheme \<Rightarrow> 'a detect_scheme" where
  "detect_plug_in s =
     (let s = plug_in_prelude s;
          (headset_type, s) = detect_headset_type s;
          s = detect_type_setup headset_type s
      in if headset_type = HEADSET_NO_MIC then
           switch_set_state BIT_HEADSET_NO_MIC
             (s\<lparr>headphone := 1, detect_type := BIT_HEADSET_NO_MIC\<rparr>)
         else
           headset_button_irq_enable True Button_Irq
             (switch_set_state BIT_HEADSET_MIC (s\<lparr>headphone := 0, detect_type := BIT_HEADSET_MIC\<rparr>)))"

text \<open>Plug-out branch (lines 444-459).\<close>

definition detect_plug_out :: "'a detect_scheme \<Rightarrow> 'a detect_scheme" where
  "detect_plug_out s =
     (let s = headset_pwr_on False s;
          s = switch_set_state BIT_HEADSET_OUT (s\<lparr>detect_type := BIT_HEADSET_OUT\<rparr>)
      in headset_button_release s)"

definition headset_detect_workqueue_func :: "'a detect_scheme \<Rightarrow> 'a detect_scheme" where
  "headset_detect_workqueue_func s =
     (let s = headset_pwr_on True s;
          state = gpio_get_value s (detect_gpio (detect_platform_data s));
          s = blocking_notifier_call_chain (if state then 1 else 0) s
      in if state then detect_plug_in s else detect_plug_out s)"

subsection \<open>Interrupt handlers and the timer callback (lines 514-574)\<close>

definition headset_button_irq_handler :: "headset_config \<Rightarrow> 'a detect_scheme \<Rightarrow> 'a detect_scheme" where
  "headset_button_irq_handler cfg s =
     (if \<not> headset_plug_in (detect_platform_data s) s then s
      else if button_platform_data s = None then s
      else
        (let pd = detect_platform_data s;
             s = (if button_active_low pd = 1 then
                    irq_set_irq_type Button_Irq IRQF_TRIGGER_LOW
                      (s\<lparr>detect_platform_data := pd\<lparr>button_active_low := 0\<rparr>\<rparr>)
                  else
                    irq_set_irq_type Button_Irq IRQF_TRIGGER_HIGH
                      (s\<lparr>detect_platform_data := pd\<lparr>button_active_low := 1\<rparr>\<rparr>))
         in headset_post_work cfg Button_Work s))"

definition headset_detect_irq_handler :: "'a detect_scheme \<Rightarrow> 'a detect_scheme" where
  "headset_detect_irq_handler s =
     (let pd = detect_platform_data s;
          s = (if detect_active_low pd = 1 then
                 irq_set_irq_type Detect_Irq IRQF_TRIGGER_LOW
                   (s\<lparr>detect_platform_data := pd\<lparr>detect_active_low := 0\<rparr>\<rparr>)
               else
                 irq_set_irq_type Detect_Irq IRQF_TRIGGER_HIGH
                   (s\<lparr>detect_platform_data := pd\<lparr>detect_active_low := 1\<rparr>\<rparr>));
          s = headset_button_irq_enable False Button_Irq s
      in mod_timer (jiffies s + msecs_to_jiffies (headset_timer_period s)) s)"

definition headset_detect_timer :: "headset_config \<Rightarrow> 'a detect_scheme \<Rightarrow> 'a detect_scheme" where
  "headset_detect_timer cfg s = headset_post_work cfg Detect_Work s"

subsection \<open>Example states\<close>

text \<open>The driver state of the witnesses: the button example state with the thread
  words clear, no headset reported; a mic headset inserted (mic input 1000, ground
  0), a three-pole headset inserted (both inputs 80), and an unplug with
  \<open>KEY_VOLUMEUP\<close> held.\<close>

definition detect_boot :: "headset_button list option \<Rightarrow> detect" where
  "detect_boot bs = sched.extend (sched_boot bs) (detect.fields 0 BIT_HEADSET_OUT BIT_HEADSET_OUT)"

definition scenario_mic :: detect where
  "scenario_mic = (detect_boot (Some scenario_table))
     \<lparr>gpio := (\<lambda>_. False)(2 := True), adc_src := (\<lambda>m _. if m then 1000 else 0)\<rparr>"

definition scenario_no_mic :: detect where
  "scenario_no_mic = (detect_boot (Some scenario_table))
     \<lparr>gpio := (\<lambda>_. False)(2 := True), adc_src := (\<lambda>_ _. 80)\<rparr>"

definition scenario_out :: detect where
  "scenario_out = detect_boot (Some (mark_button 115 HEADSET_BUTTON_STATE_PRESSED scenario_table))"

subsection \<open>Update forms and field lemmas of the detect path\<close>

text \<open>
  Each step of the detect work written as one record update, and the fields each
  leaves unchanged; the claims below are assembled from these over a variable state,
  so that no proof unfolds the whole work.
\<close>

lemma switch_set_state_upd:
  "switch_set_state t s =
     s\<lparr>out_log := out_log s @ (if sdev_state s = t then [] else [Switch_Set_State t]), sdev_state := t\<rparr>"
  by (simp add: switch_set_state_def headset_simps)

lemma plug_in_prelude_upd:
  "plug_in_prelude s = s\<lparr>adi := (adi s)(HEADMIC_DETECT_REG 0xA0 :=
        (adi s (HEADMIC_DETECT_REG 0xA0) AND NOT 0x1e) OR 0x02),
      gpio := (gpio s)(switch_gpio (detect_platform_data s) := False),
      out_log := out_log s @ [Gpio_Direction_Output (switch_gpio (detect_platform_data s)) False,
                              Mdelay (headset_switch_gpio_delay s)]\<rparr>"
  by (simp add: plug_in_prelude_def gpio_direction_output_upd headset_mic_level_upd Let_def headset_simps)

lemma detect_plug_in_eq:
  "detect_plug_in s =
     (let ty = fst (detect_headset_type (plug_in_prelude s));
          t = detect_type_setup ty (snd (detect_headset_type (plug_in_prelude s)))
      in if ty = HEADSET_NO_MIC then
           switch_set_state BIT_HEADSET_NO_MIC (t\<lparr>headphone := 1, detect_type := BIT_HEADSET_NO_MIC\<rparr>)
         else headset_button_irq_enable True Button_Irq
           (switch_set_state BIT_HEADSET_MIC (t\<lparr>headphone := 0, detect_type := BIT_HEADSET_MIC\<rparr>)))"
  by (simp add: detect_plug_in_def Let_def split_beta)

lemma plug_in_prelude_type:
  "fst (detect_headset_type (plug_in_prelude s)) =
     headset_type_of (adc_src s True (adc_cnt s + 2)) (adc_src s False (adc_cnt s + 7))"
  by (simp add: detect_headset_type_eq plug_in_prelude_upd)

lemma detect_type_setup_fields:
  "irq_depth (detect_type_setup ty s) = irq_depth s"
  "button_irq_enable (detect_type_setup ty s) = button_irq_enable s"
  "sdev_state (detect_type_setup ty s) = sdev_state s"
  "button_platform_data (detect_type_setup ty s) = button_platform_data s"
  "key_events (out_log (detect_type_setup ty s)) = key_events (out_log s)"
  "irq_type (detect_type_setup ty s) Button_Irq =
     (case ty of HEADSET_NORTH_AMERICA \<Rightarrow> IRQF_TRIGGER_HIGH | HEADSET_NORMAL \<Rightarrow> IRQF_TRIGGER_HIGH
      | HEADSET_NO_MIC \<Rightarrow> IRQF_TRIGGER_LOW | _ \<Rightarrow> irq_type s Button_Irq)"
  "pwr_down_flags (detect_type_setup ty s) = (if ty = HEADSET_NO_MIC then True else pwr_down_flags s)"
  "bias_calls (out_log (detect_type_setup ty s)) =
     bias_calls (out_log s) @ (if ty = HEADSET_NO_MIC \<and> \<not> pwr_down_flags s then [False] else [])"
  by (cases ty; simp add: detect_type_setup_def Let_def headset_pwr_on_upd gpio_direction_output_upd
      headset_mic_level_upd headset_simps)+

lemma pwr_notify_fields:
  fixes s :: "'a detect_scheme" and k :: int
  defines "s1 \<equiv> blocking_notifier_call_chain k (headset_pwr_on True s)"
  shows "adc_src s1 = adc_src s" "adc_cnt s1 = adc_cnt s" "gpio s1 = gpio s"
    "detect_platform_data s1 = detect_platform_data s" "button_irq_enable s1 = button_irq_enable s"
    "irq_depth s1 = irq_depth s" "button_platform_data s1 = button_platform_data s"
    "key_events (out_log s1) = key_events (out_log s)" "sdev_state s1 = sdev_state s"
    "\<not> pwr_down_flags s1"
    "bias_calls (out_log s1) = bias_calls (out_log s) @ (if pwr_down_flags s then [True] else [])"
  by (simp_all add: s1_def blocking_notifier_call_chain_def headset_pwr_on_upd headset_simps)

lemma detect_headset_type_fields:
  fixes s :: "'a detect_scheme"
  shows "irq_depth (snd (detect_headset_type s)) = irq_depth s"
    "button_irq_enable (snd (detect_headset_type s)) = button_irq_enable s"
    "sdev_state (snd (detect_headset_type s)) = sdev_state s"
    "pwr_down_flags (snd (detect_headset_type s)) = pwr_down_flags s"
    "button_platform_data (snd (detect_headset_type s)) = button_platform_data s"
    "irq_type (snd (detect_headset_type s)) = irq_type s"
    "key_events (out_log (snd (detect_headset_type s))) = key_events (out_log s)"
    "bias_calls (out_log (snd (detect_headset_type s))) = bias_calls (out_log s)"
  by (subst detect_headset_type_upd, simp add: key_events_append bias_calls_append headset_simps)+

lemma prelude_type_fields:
  fixes s :: "'a detect_scheme"
  defines "t \<equiv> snd (detect_headset_type (plug_in_prelude s))"
  shows "irq_depth t = irq_depth s" "button_irq_enable t = button_irq_enable s"
    "sdev_state t = sdev_state s" "pwr_down_flags t = pwr_down_flags s"
    "button_platform_data t = button_platform_data s"
    "key_events (out_log t) = key_events (out_log s)" "bias_calls (out_log t) = bias_calls (out_log s)"
  by (simp_all add: t_def detect_headset_type_fields plug_in_prelude_upd key_events_append bias_calls_append headset_simps)
lemmas detect_boot_simps = detect_boot_def sched_boot_simps detect.defs

lemma headset_detect_work_inserted:
  "gpio s (detect_gpio (detect_platform_data s)) \<Longrightarrow>
   headset_detect_workqueue_func s = detect_plug_in (blocking_notifier_call_chain 1 (headset_pwr_on True s))"
  by (simp add: headset_detect_workqueue_func_def Let_def headset_pwr_on_upd headset_simps)

lemma headset_detect_work_removed:
  "\<not> gpio s (detect_gpio (detect_platform_data s)) \<Longrightarrow>
   headset_detect_workqueue_func s = detect_plug_out (blocking_notifier_call_chain 0 (headset_pwr_on True s))"
  by (simp add: headset_detect_workqueue_func_def Let_def headset_pwr_on_upd headset_simps)

lemma headset_button_irq_enable_on:
  assumes "gate_inv u"
  shows "button_irq_enable (headset_button_irq_enable True Button_Irq u)"
    "irq_depth (headset_button_irq_enable True Button_Irq u) Button_Irq = 0"
    "gate_inv (headset_button_irq_enable True Button_Irq u)"
    "sdev_state (headset_button_irq_enable True Button_Irq u) = sdev_state u"
    "irq_type (headset_button_irq_enable True Button_Irq u) = irq_type u"
    "pwr_down_flags (headset_button_irq_enable True Button_Irq u) = pwr_down_flags u"
    "out_log (headset_button_irq_enable True Button_Irq u) = out_log u"
  by (simp_all add: headset_button_irq_enable_upd [OF assms] gate_inv_def)

lemma detect_mic_tail:
  fixes t :: "'a detect_scheme"
  assumes "gate_inv t"
  defines "u \<equiv> headset_button_irq_enable True Button_Irq
                 (switch_set_state BIT_HEADSET_MIC (t\<lparr>headphone := 0, detect_type := BIT_HEADSET_MIC\<rparr>))"
  shows "sdev_state u = BIT_HEADSET_MIC" "button_irq_enable u" "irq_depth u Button_Irq = 0"
    "irq_type u = irq_type t" "pwr_down_flags u = pwr_down_flags t"
    "key_events (out_log u) = key_events (out_log t)" "gate_inv u"
proof -
  have g: "gate_inv (switch_set_state BIT_HEADSET_MIC (t\<lparr>headphone := 0, detect_type := BIT_HEADSET_MIC\<rparr>))"
    using assms(1) by (simp add: switch_set_state_upd gate_inv_def)
  note f = headset_button_irq_enable_on [OF g]
  show "sdev_state u = BIT_HEADSET_MIC" "button_irq_enable u" "irq_depth u Button_Irq = 0"
    "irq_type u = irq_type t" "pwr_down_flags u = pwr_down_flags t"
    "key_events (out_log u) = key_events (out_log t)" "gate_inv u"
    unfolding u_def using f by (simp_all add: switch_set_state_upd key_events_append key_events_simps)
qed

lemma detect_type_setup_mic:
  assumes "ty \<in> {HEADSET_NORMAL, HEADSET_NORTH_AMERICA}"
  shows "irq_type (detect_type_setup ty p) Button_Irq = IRQF_TRIGGER_HIGH"
    "pwr_down_flags (detect_type_setup ty p) = pwr_down_flags p"
    "key_events (out_log (detect_type_setup ty p)) = key_events (out_log p)"
    "gate_inv (detect_type_setup ty p) = gate_inv p"
  using assms by (auto simp: detect_type_setup_fields gate_inv_def)

lemma detect_plug_in_mic:
  fixes x :: "'a detect_scheme"
  assumes ty: "fst (detect_headset_type (plug_in_prelude x)) \<in> {HEADSET_NORMAL, HEADSET_NORTH_AMERICA}"
    and g: "gate_inv x"
  shows "sdev_state (detect_plug_in x) = BIT_HEADSET_MIC" "button_irq_enable (detect_plug_in x)"
    "irq_depth (detect_plug_in x) Button_Irq = 0"
    "irq_type (detect_plug_in x) Button_Irq = IRQF_TRIGGER_HIGH"
    "pwr_down_flags (detect_plug_in x) = pwr_down_flags x"
    "key_events (out_log (detect_plug_in x)) = key_events (out_log x)"
    "gate_inv (detect_plug_in x)"
proof -
  define p where "p = snd (detect_headset_type (plug_in_prelude x))"
  define t where "t = detect_type_setup (fst (detect_headset_type (plug_in_prelude x))) p"
  have nm: "fst (detect_headset_type (plug_in_prelude x)) \<noteq> HEADSET_NO_MIC" using ty by auto
  have w: "detect_plug_in x = headset_button_irq_enable True Button_Irq
             (switch_set_state BIT_HEADSET_MIC (t\<lparr>headphone := 0, detect_type := BIT_HEADSET_MIC\<rparr>))"
    unfolding detect_plug_in_eq Let_def t_def p_def using nm by (simp only: if_False)
  have pf: "pwr_down_flags p = pwr_down_flags x" "key_events (out_log p) = key_events (out_log x)"
    "gate_inv p"
    using g unfolding p_def gate_inv_def by (simp_all only: prelude_type_fields)
  note tf = detect_type_setup_mic [OF ty, of p, folded t_def]
  have gt: "gate_inv t" using tf(4) pf(3) by simp
  note f = detect_mic_tail [OF gt]
  show "sdev_state (detect_plug_in x) = BIT_HEADSET_MIC" "button_irq_enable (detect_plug_in x)"
    "irq_depth (detect_plug_in x) Button_Irq = 0"
    "irq_type (detect_plug_in x) Button_Irq = IRQF_TRIGGER_HIGH"
    "pwr_down_flags (detect_plug_in x) = pwr_down_flags x"
    "key_events (out_log (detect_plug_in x)) = key_events (out_log x)"
    "gate_inv (detect_plug_in x)"
    unfolding w using f tf pf by simp_all
qed

lemma detect_type_setup_no_mic:
  "irq_type (detect_type_setup HEADSET_NO_MIC p) Button_Irq = IRQF_TRIGGER_LOW"
  "pwr_down_flags (detect_type_setup HEADSET_NO_MIC p)"
  "key_events (out_log (detect_type_setup HEADSET_NO_MIC p)) = key_events (out_log p)"
  "bias_calls (out_log (detect_type_setup HEADSET_NO_MIC p)) =
     bias_calls (out_log p) @ (if pwr_down_flags p then [] else [False])"
  "irq_depth (detect_type_setup HEADSET_NO_MIC p) = irq_depth p"
  "button_irq_enable (detect_type_setup HEADSET_NO_MIC p) = button_irq_enable p"
  by (simp_all add: detect_type_setup_fields)

lemma detect_plug_in_no_mic:
  fixes x :: "'a detect_scheme"
  assumes ty: "fst (detect_headset_type (plug_in_prelude x)) = HEADSET_NO_MIC"
  shows "sdev_state (detect_plug_in x) = BIT_HEADSET_NO_MIC" "headphone (detect_plug_in x) = 1"
    "irq_type (detect_plug_in x) Button_Irq = IRQF_TRIGGER_LOW"
    "button_irq_enable (detect_plug_in x) = button_irq_enable x"
    "irq_depth (detect_plug_in x) = irq_depth x"
    "pwr_down_flags (detect_plug_in x)"
    "key_events (out_log (detect_plug_in x)) = key_events (out_log x)"
    "bias_calls (out_log (detect_plug_in x)) =
       bias_calls (out_log x) @ (if pwr_down_flags x then [] else [False])"
proof -
  define p where "p = snd (detect_headset_type (plug_in_prelude x))"
  define t where "t = detect_type_setup HEADSET_NO_MIC p"
  have w: "detect_plug_in x =
      switch_set_state BIT_HEADSET_NO_MIC (t\<lparr>headphone := 1, detect_type := BIT_HEADSET_NO_MIC\<rparr>)"
    unfolding detect_plug_in_eq Let_def ty t_def p_def by (simp only: if_True simp_thms)
  have pf: "pwr_down_flags p = pwr_down_flags x" "key_events (out_log p) = key_events (out_log x)"
    "bias_calls (out_log p) = bias_calls (out_log x)" "irq_depth p = irq_depth x"
    "button_irq_enable p = button_irq_enable x"
    unfolding p_def by (simp_all only: prelude_type_fields)
  note tf = detect_type_setup_no_mic [of p, folded t_def]
  show "sdev_state (detect_plug_in x) = BIT_HEADSET_NO_MIC" "headphone (detect_plug_in x) = 1"
    "irq_type (detect_plug_in x) Button_Irq = IRQF_TRIGGER_LOW"
    "button_irq_enable (detect_plug_in x) = button_irq_enable x"
    "irq_depth (detect_plug_in x) = irq_depth x"
    "pwr_down_flags (detect_plug_in x)"
    "key_events (out_log (detect_plug_in x)) = key_events (out_log x)"
    "bias_calls (out_log (detect_plug_in x)) =
       bias_calls (out_log x) @ (if pwr_down_flags x then [] else [False])"
    unfolding w using tf pf
    by (simp_all add: switch_set_state_upd key_events_append key_events_simps bias_calls_append bias_calls_simps)
qed

lemma more_detect:
  fixes s t :: "'a detect_scheme"
  assumes "buttons.more t = buttons.more s"
  shows "sdev_state t = sdev_state s" "headphone t = headphone s" "detect_type t = detect_type s"
  using assms by (cases s, cases t, simp)+

lemma gate_inv_flip:
  "gate_inv (s\<lparr>detect_platform_data := pd, irq_type := t\<rparr>) = gate_inv s"
  by (simp add: gate_inv_def)

lemma headset_detect_irq_handler_upd:
  assumes "gate_inv s"
  shows "headset_detect_irq_handler s =
     s\<lparr>irq_depth := (irq_depth s)(Button_Irq := 1),
       irq_type := (irq_type s)(Detect_Irq :=
         (if detect_active_low (detect_platform_data s) = 1 then IRQF_TRIGGER_LOW else IRQF_TRIGGER_HIGH)),
       detect_timer := Some (jiffies s + msecs_to_jiffies (headset_timer_period s)),
       button_irq_enable := False,
       detect_platform_data := (detect_platform_data s)\<lparr>detect_active_low :=
         (if detect_active_low (detect_platform_data s) = 1 then 0 else 1)\<rparr>\<rparr>"
  using assms
  by (cases "detect_active_low (detect_platform_data s) = 1")
     (simp_all add: headset_detect_irq_handler_def Let_def headset_button_irq_enable_upd
      gate_inv_flip headset_simps)

lemma detect_type_setup_frame:
  "detect.more (detect_type_setup ty s) = detect.more s \<and> detect_timer (detect_type_setup ty s) = detect_timer s \<and>
   headset_wq (detect_type_setup ty s) = headset_wq s \<and> jiffies (detect_type_setup ty s) = jiffies s \<and>
   s_headset_event_flags (detect_type_setup ty s) = s_headset_event_flags s"
  by (cases ty) (simp_all add: detect_type_setup_def Let_def gpio_direction_output_upd headset_mic_level_upd
      headset_pwr_on_upd headset_simps)

lemma button_irq_enable_frame:
  "detect.more (headset_button_irq_enable b l s) = detect.more s \<and>
   detect_timer (headset_button_irq_enable b l s) = detect_timer s \<and>
   headset_wq (headset_button_irq_enable b l s) = headset_wq s \<and>
   jiffies (headset_button_irq_enable b l s) = jiffies s \<and>
   s_headset_event_flags (headset_button_irq_enable b l s) = s_headset_event_flags s"
  by (simp add: headset_button_irq_enable_def enable_irq_def headset_simps)

lemma detect_headset_type_frame:
  "detect.more (snd (detect_headset_type s)) = detect.more s \<and>
   detect_timer (snd (detect_headset_type s)) = detect_timer s \<and>
   headset_wq (snd (detect_headset_type s)) = headset_wq s \<and> jiffies (snd (detect_headset_type s)) = jiffies s \<and>
   s_headset_event_flags (snd (detect_headset_type s)) = s_headset_event_flags s"
  by (subst (1 2 3 4 5) detect_headset_type_upd) simp

lemma detect_work_frame:
  "detect.more (headset_detect_workqueue_func s) = detect.more s \<and>
   detect_timer (headset_detect_workqueue_func s) = detect_timer s \<and>
   headset_wq (headset_detect_workqueue_func s) = headset_wq s \<and>
   jiffies (headset_detect_workqueue_func s) = jiffies s \<and>
   s_headset_event_flags (headset_detect_workqueue_func s) = s_headset_event_flags s"
proof -
  have i: "detect.more (detect_plug_in x) = detect.more x \<and> detect_timer (detect_plug_in x) = detect_timer x \<and>
      headset_wq (detect_plug_in x) = headset_wq x \<and> jiffies (detect_plug_in x) = jiffies x \<and>
      s_headset_event_flags (detect_plug_in x) = s_headset_event_flags x" for x :: "'a detect_scheme"
    by (simp add: detect_plug_in_eq Let_def switch_set_state_upd button_irq_enable_frame
        detect_type_setup_frame detect_headset_type_frame plug_in_prelude_upd)
  have o: "detect.more (detect_plug_out x) = detect.more x \<and> detect_timer (detect_plug_out x) = detect_timer x \<and>
      headset_wq (detect_plug_out x) = headset_wq x \<and> jiffies (detect_plug_out x) = jiffies x \<and>
      s_headset_event_flags (detect_plug_out x) = s_headset_event_flags x" for x :: "'a detect_scheme"
    by (simp add: detect_plug_out_def Let_def headset_button_release_def switch_set_state_upd
        headset_pwr_on_upd split_beta headset_simps split: option.split)
  show ?thesis
    by (simp add: headset_detect_workqueue_func_def Let_def i o blocking_notifier_call_chain_def
        headset_pwr_on_upd headset_simps)
qed

lemma more_detect_buttons:
  fixes s t :: "'a detect_scheme"
  assumes "buttons.more t = buttons.more s"
  shows "detect.more t = detect.more s"
  using assms by (cases s, cases t, simp)

subsection \<open>The detect work\<close>

text \<open>
  \<^bold>\<open>C14.\<close> Plug-in of a headset with a microphone: when the detect line reads
  "inserted" and the classifier sees a normal or North-American headset, the detect
  work reports \<open>BIT_HEADSET_MIC\<close>, leaves the button interrupt enabled (depth 0) with
  high polarity, leaves the mic bias on, emits no key event, and keeps the gate
  invariant.
\<close>

theorem headset_detect_work_mic:
  assumes "gpio s (detect_gpio (detect_platform_data s))"
    and "headset_type_of (adc_src s True (adc_cnt s + 2)) (adc_src s False (adc_cnt s + 7))
           \<in> {HEADSET_NORMAL, HEADSET_NORTH_AMERICA}"
    and "gate_inv s"
  shows "sdev_state (headset_detect_workqueue_func s) = BIT_HEADSET_MIC \<and>
         button_irq_enable (headset_detect_workqueue_func s) \<and>
         irq_depth (headset_detect_workqueue_func s) Button_Irq = 0 \<and>
         irq_type (headset_detect_workqueue_func s) Button_Irq = IRQF_TRIGGER_HIGH \<and>
         \<not> pwr_down_flags (headset_detect_workqueue_func s) \<and>
         key_events (out_log (headset_detect_workqueue_func s)) = key_events (out_log s) \<and>
         gate_inv (headset_detect_workqueue_func s)"
proof -
  define s1 where "s1 = blocking_notifier_call_chain 1 (headset_pwr_on True s)"
  have n: "adc_src s1 = adc_src s" "adc_cnt s1 = adc_cnt s" "\<not> pwr_down_flags s1"
    "key_events (out_log s1) = key_events (out_log s)" "gate_inv s1"
    using assms(3) unfolding s1_def gate_inv_def by (simp_all only: pwr_notify_fields not_False_eq_True)
  have ty: "fst (detect_headset_type (plug_in_prelude s1)) \<in> {HEADSET_NORMAL, HEADSET_NORTH_AMERICA}"
    unfolding plug_in_prelude_type n(1,2) by (rule assms(2))
  note f = detect_plug_in_mic [OF ty n(5)]
  show ?thesis
    unfolding headset_detect_work_inserted [OF assms(1), folded s1_def] using f n by simp
qed

theorem headset_detect_work_mic_witness:
  "gpio scenario_mic (detect_gpio (detect_platform_data scenario_mic)) \<and>
   headset_type_of (adc_src scenario_mic True (adc_cnt scenario_mic + 2))
     (adc_src scenario_mic False (adc_cnt scenario_mic + 7)) = HEADSET_NORMAL \<and>
   gate_inv scenario_mic \<and>
   sdev_state (headset_detect_workqueue_func scenario_mic) = BIT_HEADSET_MIC \<and>
   button_irq_enable (headset_detect_workqueue_func scenario_mic)"
proof -
  have h1: "gpio scenario_mic (detect_gpio (detect_platform_data scenario_mic))"
    by (simp add: scenario_mic_def detect_boot_simps)
  have h2: "headset_type_of (adc_src scenario_mic True (adc_cnt scenario_mic + 2))
     (adc_src scenario_mic False (adc_cnt scenario_mic + 7)) = HEADSET_NORMAL"
    by (simp add: scenario_mic_def headset_type_of_def ABS_sub_def HEADSET_TYPE_ADC_DISPART_VALUE_def)
  have h3: "gate_inv scenario_mic"
    by (simp add: scenario_mic_def detect_boot_simps gate_inv_def)
  have "sdev_state (headset_detect_workqueue_func scenario_mic) = BIT_HEADSET_MIC \<and>
        button_irq_enable (headset_detect_workqueue_func scenario_mic)"
    using headset_detect_work_mic [OF h1 _ h3] h2 by simp
  with h1 h2 h3 show ?thesis by blast
qed

text \<open>
  \<^bold>\<open>C15.\<close> Plug-in of a three-pole headset: when the detect line reads
  "inserted" and the classifier sees no microphone, the work reports
  \<open>BIT_HEADSET_NO_MIC\<close> with \<open>headphone = 1\<close>, sets the button line to low
  polarity, leaves the button interrupt gate as it found it, turns the mic bias
  off, and the codec sees exactly one "on" (when the bias was off) then one "off".
\<close>

theorem headset_detect_work_no_mic:
  assumes "gpio s (detect_gpio (detect_platform_data s))"
    and "headset_type_of (adc_src s True (adc_cnt s + 2)) (adc_src s False (adc_cnt s + 7)) = HEADSET_NO_MIC"
  shows "sdev_state (headset_detect_workqueue_func s) = BIT_HEADSET_NO_MIC \<and>
         headphone (headset_detect_workqueue_func s) = 1 \<and>
         irq_type (headset_detect_workqueue_func s) Button_Irq = IRQF_TRIGGER_LOW \<and>
         button_irq_enable (headset_detect_workqueue_func s) = button_irq_enable s \<and>
         irq_depth (headset_detect_workqueue_func s) = irq_depth s \<and>
         pwr_down_flags (headset_detect_workqueue_func s) \<and>
         key_events (out_log (headset_detect_workqueue_func s)) = key_events (out_log s) \<and>
         bias_calls (out_log (headset_detect_workqueue_func s)) =
           bias_calls (out_log s) @ (if pwr_down_flags s then [True] else []) @ [False]"
proof -
  define s1 where "s1 = blocking_notifier_call_chain 1 (headset_pwr_on True s)"
  note n = pwr_notify_fields [where s = s and k = 1, folded s1_def]
  have ty: "fst (detect_headset_type (plug_in_prelude s1)) = HEADSET_NO_MIC"
    unfolding plug_in_prelude_type n(1,2) by (rule assms(2))
  note f = detect_plug_in_no_mic [OF ty]
  show ?thesis
    unfolding headset_detect_work_inserted [OF assms(1), folded s1_def] using f n by simp
qed

theorem headset_detect_work_no_mic_witness:
  "gpio scenario_no_mic (detect_gpio (detect_platform_data scenario_no_mic)) \<and>
   headset_type_of (adc_src scenario_no_mic True (adc_cnt scenario_no_mic + 2))
     (adc_src scenario_no_mic False (adc_cnt scenario_no_mic + 7)) = HEADSET_NO_MIC \<and>
   sdev_state (headset_detect_workqueue_func scenario_no_mic) = BIT_HEADSET_NO_MIC \<and>
   bias_calls (out_log (headset_detect_workqueue_func scenario_no_mic)) = [True, False]"
proof -
  have h1: "gpio scenario_no_mic (detect_gpio (detect_platform_data scenario_no_mic))"
    by (simp add: scenario_no_mic_def detect_boot_simps)
  have h2: "headset_type_of (adc_src scenario_no_mic True (adc_cnt scenario_no_mic + 2))
     (adc_src scenario_no_mic False (adc_cnt scenario_no_mic + 7)) = HEADSET_NO_MIC"
    by (simp add: scenario_no_mic_def headset_type_of_def ABS_sub_def
        HEADSET_TYPE_ADC_DISPART_VALUE_def HEADSET_TYPE_GND_VALUE_def)
  have b: "pwr_down_flags scenario_no_mic" "bias_calls (out_log scenario_no_mic) = []"
    by (simp_all add: scenario_no_mic_def detect_boot_simps bias_calls_simps)
  have "sdev_state (headset_detect_workqueue_func scenario_no_mic) = BIT_HEADSET_NO_MIC \<and>
        bias_calls (out_log (headset_detect_workqueue_func scenario_no_mic)) = [True, False]"
    using headset_detect_work_no_mic [OF h1 h2] b by simp
  with h1 h2 show ?thesis by blast
qed

text \<open>
  \<^bold>\<open>C16.\<close> Unplug: when the detect line reads "removed", the work reports
  \<open>BIT_HEADSET_OUT\<close>, turns the bias off, releases every pressed button with one
  key-up each in table order, and leaves the button interrupt gate as it found it.
\<close>

theorem headset_detect_work_out:
  assumes "\<not> gpio s (detect_gpio (detect_platform_data s))"
    and "button_platform_data s = Some bs"
  shows "sdev_state (headset_detect_workqueue_func s) = BIT_HEADSET_OUT \<and>
         detect_type (headset_detect_workqueue_func s) = BIT_HEADSET_OUT \<and>
         pwr_down_flags (headset_detect_workqueue_func s) \<and>
         button_platform_data (headset_detect_workqueue_func s) =
           Some (map (\<lambda>b. b\<lparr>state := HEADSET_BUTTON_STATE_RELASED\<rparr>) bs) \<and>
         key_events (out_log (headset_detect_workqueue_func s)) =
           key_events (out_log s) @ [(code b, 0). b \<leftarrow> bs, state b = HEADSET_BUTTON_STATE_PRESSED] \<and>
         button_irq_enable (headset_detect_workqueue_func s) = button_irq_enable s \<and>
         irq_depth (headset_detect_workqueue_func s) = irq_depth s \<and>
         bias_calls (out_log (headset_detect_workqueue_func s)) =
           bias_calls (out_log s) @ (if pwr_down_flags s then [True] else []) @ [False]"
proof -
  define s1 where "s1 = blocking_notifier_call_chain 0 (headset_pwr_on True s)"
  note n = pwr_notify_fields [where s = s and k = 0, folded s1_def]
  define u where "u = switch_set_state BIT_HEADSET_OUT ((headset_pwr_on False s1)\<lparr>detect_type := BIT_HEADSET_OUT\<rparr>)"
  have bu: "button_platform_data u = Some bs"
    using n(7) assms(2) by (simp add: u_def switch_set_state_upd headset_pwr_on_upd)
  have w: "headset_detect_workqueue_func s = headset_button_release u"
    unfolding headset_detect_work_removed [OF assms(1), folded s1_def] detect_plug_out_def Let_def u_def ..
  show ?thesis
    unfolding w headset_button_release_upd [OF bu] using n
    by (simp add: u_def switch_set_state_upd headset_pwr_on_upd key_events_append key_events_simps
        key_events_release bias_calls_release bias_calls_append bias_calls_simps)
qed

theorem headset_detect_work_out_witness:
  "\<not> gpio scenario_out (detect_gpio (detect_platform_data scenario_out)) \<and>
   button_platform_data scenario_out = Some (mark_button 115 HEADSET_BUTTON_STATE_PRESSED scenario_table) \<and>
   sdev_state (headset_detect_workqueue_func scenario_out) = BIT_HEADSET_OUT \<and>
   key_events (out_log (headset_detect_workqueue_func scenario_out)) = [(115, 0)]"
proof -
  have h1: "\<not> gpio scenario_out (detect_gpio (detect_platform_data scenario_out))"
    by (simp add: scenario_out_def detect_boot_simps)
  have h2: "button_platform_data scenario_out = Some (mark_button 115 HEADSET_BUTTON_STATE_PRESSED scenario_table)"
    by (simp add: scenario_out_def detect_boot_simps)
  have k: "key_events (out_log scenario_out) = []"
    by (simp add: scenario_out_def detect_boot_simps key_events_simps)
  have "sdev_state (headset_detect_workqueue_func scenario_out) = BIT_HEADSET_OUT \<and>
        key_events (out_log (headset_detect_workqueue_func scenario_out)) = [(115, 0)]"
    using headset_detect_work_out [OF h1 h2] k by (simp add: scenario_table_def)
  with h1 h2 show ?thesis by blast
qed

subsection \<open>The interrupt handlers\<close>

text \<open>
  \<^bold>\<open>C19.\<close> The detect interrupt handler flips the stored detect polarity and
  re-arms the line on the opposite level, disables the button interrupt (gate flag
  off, depth 1, gate invariant kept), re-arms the one debounce timer to
  \<open>jiffies + msecs_to_jiffies(headset_timer_period)\<close>, posts no work and logs
  nothing.
\<close>

theorem headset_detect_irq_handler_effect:
  assumes "gate_inv s"
  defines "h \<equiv> headset_detect_irq_handler s"
  shows "detect_active_low (detect_platform_data h) = (if detect_active_low (detect_platform_data s) = 1 then 0 else 1) \<and>
         irq_type h Detect_Irq =
           (if detect_active_low (detect_platform_data s) = 1 then IRQF_TRIGGER_LOW else IRQF_TRIGGER_HIGH) \<and>
         \<not> button_irq_enable h \<and> irq_depth h Button_Irq = 1 \<and> gate_inv h \<and>
         detect_timer h = Some (jiffies s + msecs_to_jiffies (headset_timer_period s)) \<and>
         headset_wq h = headset_wq s \<and> s_headset_event_flags h = s_headset_event_flags s \<and>
         out_log h = out_log s"
  unfolding h_def headset_detect_irq_handler_upd [OF assms(1)] by (simp add: gate_inv_def)

theorem headset_detect_irq_handler_effect_witness:
  "gate_inv scenario_mic \<and>
   \<not> button_irq_enable (headset_detect_irq_handler scenario_mic) \<and>
   detect_timer (headset_detect_irq_handler scenario_mic) = Some 50"
proof -
  have g: "gate_inv scenario_mic" by (simp add: scenario_mic_def detect_boot_simps gate_inv_def)
  have j: "jiffies scenario_mic = 0" "headset_timer_period scenario_mic = 500"
    by (simp_all add: scenario_mic_def detect_boot_simps)
  have "msecs_to_jiffies 500 = 50" by (simp add: msecs_to_jiffies_def)
  then show ?thesis using headset_detect_irq_handler_effect [OF g] g j by simp
qed

text \<open>
  \<^bold>\<open>C20.\<close> The button interrupt handler returns at once, without flipping the
  stored button polarity or re-arming the line, when the headset does not read as
  plugged in or no button table is registered: the state is unchanged.
\<close>

theorem headset_button_irq_handler_unplugged:
  assumes "\<not> headset_plug_in (detect_platform_data s) s \<or> button_platform_data s = None"
  shows "headset_button_irq_handler cfg s = s"
  using assms by (auto simp: headset_button_irq_handler_def)

theorem headset_button_irq_handler_unplugged_witness:
  "\<not> headset_plug_in (detect_platform_data (detect_boot None)) (detect_boot None) \<and>
   headset_button_irq_handler USING_WORKQUEUE (detect_boot None) = detect_boot None \<and>
   button_active_low (detect_platform_data (headset_button_irq_handler USING_WORKQUEUE (detect_boot None))) =
     button_active_low (detect_platform_data (detect_boot None))"
proof -
  have u: "\<not> headset_plug_in (detect_platform_data (detect_boot None)) (detect_boot None)"
    by (simp add: headset_plug_in_iff detect_boot_simps)
  then show ?thesis using headset_button_irq_handler_unplugged [of "detect_boot None" USING_WORKQUEUE] by simp
qed

end
