(* ===== verification/Headset_System.thy ===== *)
theory Headset_System
  imports Headset_Detect
begin

text \<open>
  The driver as a whole: its interrupt handlers, the debounce timer, the two build
  variants of the dispatch layer and the hardware, as one step function over the
  state \<open>system\<close> (the driver state \<open>detect\<close> and the thread's local \<open>flags\<close>).
  An event is a detect or button edge delivered by the interrupt core (only while
  the line's disable depth is 0), a timer tick (which runs \<open>headset_detect_timer\<close>
  when the timer is due, as the kernel's timer softirq does), a step of the thread
  of lines 469-489 (its read of \<open>s_headset_event_flags\<close>, then its clear and the
  dispatched work, two separate steps as in the code), a work run by
  \<open>headset_wq\<close>, or the hardware changing a GPIO level, an ADI register or the
  analog inputs. Works run to completion in one step: the model serialises them as
  both variants do, and interleaves interrupts and ticks only between them and,
  in the thread variant, between the thread's read and its clear.
  \<open>sys_run\<close> runs a list of events (\<open>None\<close> when an event is not enabled);
  \<open>reach\<close> is the reachability relation, by rule induction. The theory ends with the
  kernel's \<open>flush_workqueue\<close> and the shape \<open>table_shape\<close> of the button table.
\<close>

text \<open>Thread state of the thread variant: \<open>None\<close> while it waits in \<open>wait_event\<close>, \<open>Some f\<close>
  once it has read the flags word into its local \<open>flags\<close> (line 474) and not yet cleared it.\<close>

record system = detect +
  thread_flags :: "int option"

datatype sys_event =
    Detect_Edge
  | Button_Edge
  | Tick
  | Thread_Wake
  | Thread_Run
  | Queue_Run
  | Hw_Gpio nat bool
  | Hw_Adi adi_reg u32
  | Hw_Adc "bool \<Rightarrow> nat \<Rightarrow> int"

definition run_work :: "work \<Rightarrow> 'a detect_scheme \<Rightarrow> 'a detect_scheme" where
  "run_work w s =
     (case w of Detect_Work \<Rightarrow> headset_detect_workqueue_func s
              | Button_Work \<Rightarrow> headset_button_workqueue_func s)"

definition timer_tick :: "headset_config \<Rightarrow> 'a detect_scheme \<Rightarrow> 'a detect_scheme" where
  "timer_tick cfg s =
     (let s = tick s
      in if timer_due s then headset_detect_timer cfg (s\<lparr>detect_timer := None\<rparr>) else s)"

definition headset_thread_run :: "int \<Rightarrow> 'a detect_scheme \<Rightarrow> 'a detect_scheme" where
  "headset_thread_run flags s =
     (let s = headset_thread_clear_flags s
      in case thread_dispatch flags of Some w \<Rightarrow> run_work w s | None \<Rightarrow> s)"

definition sys_step :: "headset_config \<Rightarrow> sys_event \<Rightarrow> 'a system_scheme \<Rightarrow> 'a system_scheme option" where
  "sys_step cfg e s =
     (case e of
        Detect_Edge \<Rightarrow> if irq_enabled s Detect_Irq then Some (headset_detect_irq_handler s) else None
      | Button_Edge \<Rightarrow> if irq_enabled s Button_Irq then Some (headset_button_irq_handler cfg s) else None
      | Tick \<Rightarrow> Some (timer_tick cfg s)
      | Thread_Wake \<Rightarrow>
          if cfg = USING_THREAD \<and> thread_flags s = None \<and> s_headset_event_flags s \<noteq> 0
          then Some (s\<lparr>thread_flags := Some (headset_thread_read_flags s)\<rparr>) else None
      | Thread_Run \<Rightarrow>
          (case thread_flags s of
             Some f \<Rightarrow> if cfg = USING_THREAD then Some (headset_thread_run f (s\<lparr>thread_flags := None\<rparr>)) else None
           | None \<Rightarrow> None)
      | Queue_Run \<Rightarrow>
          (case headset_wq s of
             Some (w # ws) \<Rightarrow> if cfg = USING_WORKQUEUE then Some (run_work w (s\<lparr>headset_wq := Some ws\<rparr>)) else None
           | _ \<Rightarrow> None)
      | Hw_Gpio g v \<Rightarrow> Some (s\<lparr>gpio := (gpio s)(g := v)\<rparr>)
      | Hw_Adi r v \<Rightarrow> Some (s\<lparr>adi := (adi s)(r := v)\<rparr>)
      | Hw_Adc f \<Rightarrow> Some (s\<lparr>adc_src := f\<rparr>))"

fun sys_run :: "headset_config \<Rightarrow> sys_event list \<Rightarrow> 'a system_scheme \<Rightarrow> 'a system_scheme option" where
  "sys_run cfg [] s = Some s"
| "sys_run cfg (e # es) s = (case sys_step cfg e s of None \<Rightarrow> None | Some t \<Rightarrow> sys_run cfg es t)"

inductive reach :: "headset_config \<Rightarrow> 'a system_scheme \<Rightarrow> 'a system_scheme \<Rightarrow> bool" for cfg where
  reach_refl: "reach cfg s s"
| reach_step: "reach cfg s t \<Longrightarrow> sys_step cfg e t = Some u \<Longrightarrow> reach cfg s u"

definition system_boot :: system where
  "system_boot = detect.extend (detect_boot (Some scenario_table)) (system.fields None)"

definition button_frame :: "'a buttons_scheme \<Rightarrow> 'a buttons_scheme \<Rightarrow> bool" where
  "button_frame s t \<longleftrightarrow>
     gpio t = gpio s \<and> adc_src t = adc_src s \<and> headset_timer_period t = headset_timer_period s \<and>
     headset_read_adc_delay t = headset_read_adc_delay s \<and>
     headset_switch_gpio_delay t = headset_switch_gpio_delay s \<and>
     irq_depth t = irq_depth s \<and> irq_type t = irq_type s \<and> jiffies t = jiffies s \<and>
     headset_wq t = headset_wq s \<and> button_irq_enable t = button_irq_enable s \<and>
     pwr_down_flags t = pwr_down_flags s \<and> detect_platform_data t = detect_platform_data s \<and>
     buttons.more t = buttons.more s"

definition edge_burst :: "nat list \<Rightarrow> sys_event list" where
  "edge_burst gaps = concat (map (\<lambda>g. Detect_Edge # replicate g Tick) gaps)"

text \<open>
  \<open>flush_workqueue\<close> of the kernel on \<open>headset_wq\<close>: the worker takes the first pending
  work off the queue and runs it, until the queue is empty, as \<open>Queue_Run\<close> does one
  step at a time. A loop that need not end, hence \<open>partial_function (option)\<close>.
\<close>

partial_function (option) flush_workqueue :: "'a detect_scheme \<Rightarrow> 'a detect_scheme option" where
  "flush_workqueue s =
     (case headset_wq s of
        Some (w # ws) \<Rightarrow> flush_workqueue (run_work w (s\<lparr>headset_wq := Some ws\<rparr>))
      | _ \<Rightarrow> Some s)"

text \<open>The button table with every entry's press state forgotten: its codes, types and
  ADC ranges, which only the probe writes.\<close>

definition table_shape :: "'a buttons_scheme \<Rightarrow> headset_button list option" where
  "table_shape s = map_option (map (\<lambda>b. b\<lparr>state := HEADSET_BUTTON_STATE_RELASED\<rparr>)) (button_platform_data s)"

subsection \<open>Runs and reachability\<close>

lemma reach_prepend: "reach cfg s' t \<Longrightarrow> sys_step cfg e s = Some s' \<Longrightarrow> reach cfg s t"
proof (induction rule: reach.induct)
  case (reach_refl s')
  then show ?case by (blast intro: reach.intros)
next
  case (reach_step s' t e' u)
  then show ?case by (blast intro: reach.intros)
qed

lemma sys_run_reach: "sys_run cfg es s = Some t \<Longrightarrow> reach cfg s t"
proof (induction es arbitrary: s)
  case Nil
  then show ?case by (simp add: reach_refl)
next
  case (Cons e es)
  then obtain s' where "sys_step cfg e s = Some s'" "sys_run cfg es s' = Some t"
    by (auto split: option.splits)
  with Cons.IH show ?case by (blast intro: reach_prepend)
qed

subsection \<open>What the button work leaves alone\<close>

lemma button_frame_trans: "button_frame s t \<Longrightarrow> button_frame t u \<Longrightarrow> button_frame s u"
  by (simp add: button_frame_def)

lemma button_frame_ignore: "button_frame s (snd (ignore_wrong_button s))"
  by (simp add: button_frame_def ignore_wrong_button_eq)

lemma button_frame_read: "button_frame s (snd (headset_read_adc b s))"
  unfolding button_frame_def by (subst (1 2 3 4 5 6 7 8 9 10 11 12 13) headset_read_adc_upd) simp

lemma button_frame_mod_timer: "button_frame s (mod_timer j s)"
  by (simp add: button_frame_def mod_timer_def)

lemma button_frame_msleep: "button_frame s (msleep n s)"
  by (simp add: button_frame_def headset_simps)

lemma button_frame_finish: "button_frame s (headset_button_work_finish st a s)"
  by (simp add: button_frame_def headset_button_work_finish_def Let_def input_event_def input_sync_def
      headset_simps split: option.split)

lemma button_frame_work: "button_frame s (headset_button_workqueue_func s)"
proof -
  let ?s1 = "snd (ignore_wrong_button s)"
  have f1: "button_frame s ?s1" by (rule button_frame_ignore)
  have f2: "button_frame s (mod_timer j ?s1)" for j
    by (rule button_frame_trans [OF f1 button_frame_mod_timer])
  have f3: "button_frame s (headset_button_work_finish st a (msleep 80 (snd (headset_read_adc True ?s1))))" for st a
    by (rule button_frame_trans [OF button_frame_trans [OF button_frame_trans [OF f1 button_frame_read]
          button_frame_msleep] button_frame_finish])
  show ?thesis
    by (simp add: headset_button_workqueue_func_def headset_button_work_begin_def split_beta Let_def f1 f2 f3)
qed


subsection \<open>The button gate in every reachable state\<close>

lemma detect_plug_out_gates:
  "irq_depth (detect_plug_out x) = irq_depth x \<and> button_irq_enable (detect_plug_out x) = button_irq_enable x"
  by (cases "button_platform_data x")
     (simp_all add: detect_plug_out_def headset_button_release_def Let_def split_beta headset_pwr_on_upd
      switch_set_state_upd headset_simps)

lemma headset_type_of_range:
  "headset_type_of a b \<in> {HEADSET_NO_MIC, HEADSET_NORTH_AMERICA, HEADSET_NORMAL}"
  by (simp add: headset_type_of_def)

lemma detect_work_gate_inv:
  fixes s :: "'a detect_scheme"
  assumes g: "gate_inv s"
  shows "gate_inv (headset_detect_workqueue_func s)"
proof (cases "gpio s (detect_gpio (detect_platform_data s))")
  case True
  define s1 where "s1 = blocking_notifier_call_chain 1 (headset_pwr_on True s)"
  note n = pwr_notify_fields [where s = s and k = 1, folded s1_def]
  have g1: "gate_inv s1" using g n(5,6) by (simp add: gate_inv_def)
  have ty: "fst (detect_headset_type (plug_in_prelude s1)) \<in> {HEADSET_NO_MIC, HEADSET_NORTH_AMERICA, HEADSET_NORMAL}"
    unfolding plug_in_prelude_type by (rule headset_type_of_range)
  have "gate_inv (detect_plug_in s1)"
  proof (cases "fst (detect_headset_type (plug_in_prelude s1)) = HEADSET_NO_MIC")
    case True
    note f = detect_plug_in_no_mic [OF True]
    show ?thesis using g1 f(4,5) by (simp add: gate_inv_def)
  next
    case False
    with ty have "fst (detect_headset_type (plug_in_prelude s1)) \<in> {HEADSET_NORMAL, HEADSET_NORTH_AMERICA}"
      by auto
    from detect_plug_in_mic [OF this g1] show ?thesis by simp
  qed
  then show ?thesis unfolding headset_detect_work_inserted [OF True, folded s1_def] .
next
  case False
  define s1 where "s1 = blocking_notifier_call_chain 0 (headset_pwr_on True s)"
  note n = pwr_notify_fields [where s = s and k = 0, folded s1_def]
  have "gate_inv s1" using g n(5,6) by (simp add: gate_inv_def)
  then show ?thesis
    unfolding headset_detect_work_removed [OF False, folded s1_def] using detect_plug_out_gates [of s1]
    by (simp add: gate_inv_def)
qed

lemma post_work_gates:
  "irq_depth (headset_post_work cfg w s) = irq_depth s"
  "button_irq_enable (headset_post_work cfg w s) = button_irq_enable s"
  by (cases cfg; simp add: headset_post_work_def headset_wake_up_headset_thread_def queue_work_def
      split: option.split)+

lemma detect_irq_handler_gate_inv: "gate_inv s \<Longrightarrow> gate_inv (headset_detect_irq_handler s)"
  by (simp add: headset_detect_irq_handler_upd gate_inv_def)

lemma button_irq_handler_gate_inv: "gate_inv s \<Longrightarrow> gate_inv (headset_button_irq_handler cfg s)"
  by (simp add: headset_button_irq_handler_def Let_def gate_inv_def post_work_gates headset_simps)

lemma timer_tick_gate_inv: "gate_inv s \<Longrightarrow> gate_inv (timer_tick cfg s)"
  by (simp add: timer_tick_def headset_detect_timer_def Let_def gate_inv_def post_work_gates headset_simps)

lemma gate_inv_frame:
  "gate_inv s \<Longrightarrow> irq_depth t = irq_depth s \<Longrightarrow> button_irq_enable t = button_irq_enable s \<Longrightarrow> gate_inv t"
  by (simp add: gate_inv_def)

lemma run_work_gate_inv: "gate_inv s \<Longrightarrow> gate_inv (run_work w s)"
proof (cases w)
  case Detect_Work
  then show "gate_inv s \<Longrightarrow> gate_inv (run_work w s)" by (simp add: run_work_def detect_work_gate_inv)
next
  case Button_Work
  then show "gate_inv s \<Longrightarrow> gate_inv (run_work w s)"
    using button_frame_work [of s] by (auto simp: run_work_def button_frame_def intro: gate_inv_frame)
qed

lemma thread_run_gate_inv: "gate_inv s \<Longrightarrow> gate_inv (headset_thread_run f s)"
proof -
  assume g: "gate_inv s"
  then have "gate_inv (headset_thread_clear_flags s)"
    by (rule gate_inv_frame) (simp_all add: headset_thread_clear_flags_def)
  then show ?thesis by (simp add: headset_thread_run_def Let_def run_work_gate_inv split: option.split)
qed

lemma sys_step_gate_inv: "sys_step cfg e s = Some t \<Longrightarrow> gate_inv s \<Longrightarrow> gate_inv t"
proof (cases e)
  case Thread_Run
  then show "sys_step cfg e s = Some t \<Longrightarrow> gate_inv s \<Longrightarrow> gate_inv t"
    by (auto simp: sys_step_def intro!: thread_run_gate_inv elim: gate_inv_frame split: if_splits option.splits)
next
  case Queue_Run
  then show "sys_step cfg e s = Some t \<Longrightarrow> gate_inv s \<Longrightarrow> gate_inv t"
    by (auto simp: sys_step_def intro!: run_work_gate_inv elim: gate_inv_frame split: if_splits option.splits list.splits)
qed (auto simp: sys_step_def detect_irq_handler_gate_inv button_irq_handler_gate_inv timer_tick_gate_inv
       elim: gate_inv_frame split: if_splits)

lemma reach_gate_inv: "reach cfg s t \<Longrightarrow> gate_inv s \<Longrightarrow> gate_inv t"
  by (induction rule: reach.induct) (auto intro: sys_step_gate_inv)

subsection \<open>Timer runs\<close>

lemma sys_run_append:
  "sys_run cfg (xs @ ys) s = (case sys_run cfg xs s of None \<Rightarrow> None | Some t \<Rightarrow> sys_run cfg ys t)"
  by (induction xs arbitrary: s) (simp_all split: option.split)

lemma tick_quiet:
  assumes "detect_timer s = Some e" "jiffies s = e - d + word_of_nat m" "Suc m < unat d" "unat d < 2^31"
  shows "timer_tick cfg s = s\<lparr>jiffies := jiffies s + 1\<rparr>"
proof -
  have "\<not> time_after_eq (e - d + word_of_nat (Suc m)) e"
    using time_after_eq_offset [of "Suc m" d e] assms(3,4) by simp
  then show ?thesis using assms(1,2) by (simp add: timer_tick_def tick_def timer_due_def ac_simps)
qed

lemma tick_fire:
  assumes "detect_timer s = Some e" "jiffies s = e - d + word_of_nat m" "Suc m = unat d" "unat d < 2^31"
    and "headset_wq s = Some []"
  shows "timer_tick USING_WORKQUEUE s =
           s\<lparr>jiffies := jiffies s + 1, detect_timer := None, headset_wq := Some [Detect_Work]\<rparr>"
proof -
  have "time_after_eq (e - d + word_of_nat (Suc m)) e"
    using time_after_eq_offset [of "Suc m" d e] assms(3,4) by simp
  then show ?thesis using assms(1,2,5)
    by (simp add: timer_tick_def tick_def timer_due_def headset_detect_timer_def headset_post_work_def
        queue_work_def ac_simps)
qed

lemma ticks_quiet:
  fixes s :: "'a system_scheme"
  assumes "detect_timer s = Some e" "jiffies s = e - d + word_of_nat m" "m + k < unat d" "unat d < 2^31"
  shows "sys_run cfg (replicate k Tick) s = Some (s\<lparr>jiffies := jiffies s + word_of_nat k\<rparr>)"
  using assms
proof (induction k arbitrary: s m)
  case 0
  then show ?case by simp
next
  case (Suc k)
  have t: "timer_tick cfg s = s\<lparr>jiffies := jiffies s + 1\<rparr>"
    by (rule tick_quiet [OF Suc.prems(1,2)]) (use Suc.prems(3,4) in simp_all)
  have "sys_run cfg (replicate k Tick) (s\<lparr>jiffies := jiffies s + 1\<rparr>) =
        Some ((s\<lparr>jiffies := jiffies s + 1\<rparr>)\<lparr>jiffies := jiffies (s\<lparr>jiffies := jiffies s + 1\<rparr>) + word_of_nat k\<rparr>)"
    by (rule Suc.IH [where m = "Suc m"]) (use Suc.prems in \<open>simp_all add: ac_simps\<close>)
  then show ?case by (simp add: sys_step_def t ac_simps)
qed


lemma ticks_fire:
  fixes s :: "'a system_scheme"
  assumes "detect_timer s = Some e" "jiffies s = e - d + word_of_nat m" "m + k = unat d" "0 < k"
    "unat d < 2^31" "headset_wq s = Some []"
  shows "sys_run USING_WORKQUEUE (replicate k Tick) s =
           Some (s\<lparr>jiffies := jiffies s + word_of_nat k, detect_timer := None, headset_wq := Some [Detect_Work]\<rparr>)"
proof -
  obtain k' where k: "k = Suc k'" using assms(4) by (cases k) auto
  let ?s' = "s\<lparr>jiffies := jiffies s + word_of_nat k'\<rparr>"
  have q: "sys_run USING_WORKQUEUE (replicate k' Tick) s = Some ?s'"
    by (rule ticks_quiet [OF assms(1,2)]) (use assms(3,5) k in simp_all)
  have f: "timer_tick USING_WORKQUEUE ?s' =
      ?s'\<lparr>jiffies := jiffies ?s' + 1, detect_timer := None, headset_wq := Some [Detect_Work]\<rparr>"
    by (rule tick_fire [where m = "m + k'"]) (use assms k in \<open>simp_all add: ac_simps\<close>)
  have r: "replicate k Tick = replicate k' Tick @ [Tick]" by (simp add: k replicate_append_same)
  show ?thesis unfolding r sys_run_append q using f by (simp add: sys_step_def k ac_simps)
qed

lemma detect_edge_step:
  fixes s :: "'a system_scheme"
  assumes "gate_inv s" "irq_depth s Detect_Irq = 0"
  defines "s1 \<equiv> headset_detect_irq_handler s"
  shows "sys_step cfg Detect_Edge s = Some s1"
    "detect_timer s1 = Some (jiffies s + msecs_to_jiffies (headset_timer_period s))"
    "jiffies s1 = jiffies s" "headset_wq s1 = headset_wq s" "headset_timer_period s1 = headset_timer_period s"
    "irq_depth s1 Detect_Irq = 0" "gate_inv s1"
  using assms unfolding s1_def
  by (simp_all add: sys_step_def irq_enabled_def headset_detect_irq_handler_upd gate_inv_def)

lemma burst_run:
  fixes s :: "'a system_scheme"
  assumes "gate_inv s" "irq_depth s Detect_Irq = 0" "headset_wq s = Some []"
    "headset_timer_period s = p" "unat (msecs_to_jiffies p) < 2^31"
    "gaps \<noteq> []" "\<forall>g\<in>set gaps. g < unat (msecs_to_jiffies p)"
  shows "\<exists>t e. sys_run USING_WORKQUEUE (edge_burst gaps) s = Some t \<and> headset_wq t = Some [] \<and>
           detect_timer t = Some e \<and> jiffies t = e - msecs_to_jiffies p + word_of_nat (last gaps) \<and>
           gate_inv t \<and> irq_depth t Detect_Irq = 0 \<and> headset_timer_period t = p"
  using assms
proof (induction gaps arbitrary: s)
  case Nil
  then show ?case by simp
next
  case (Cons g gs)
  let ?d = "msecs_to_jiffies p"
  note e = detect_edge_step [OF Cons.prems(1,2)]
  let ?s1 = "headset_detect_irq_handler s"
  let ?s2 = "?s1\<lparr>jiffies := jiffies ?s1 + word_of_nat g\<rparr>"
  have q: "sys_run USING_WORKQUEUE (replicate g Tick) ?s1 = Some ?s2"
    by (rule ticks_quiet [OF e(2), where m = 0]) (use Cons.prems e in simp_all)
  have r2: "sys_run USING_WORKQUEUE (Detect_Edge # replicate g Tick) s = Some ?s2"
    using e(1) q by simp
  have p2: "gate_inv ?s2" "irq_depth ?s2 Detect_Irq = 0" "headset_wq ?s2 = Some []"
    "headset_timer_period ?s2 = p" "detect_timer ?s2 = Some (jiffies s + ?d)"
    using e Cons.prems by (simp_all add: gate_inv_def)
  have b: "edge_burst (g # gs) = (Detect_Edge # replicate g Tick) @ edge_burst gs"
    by (simp add: edge_burst_def)
  show ?case
  proof (cases "gs = []")
    case True
    then show ?thesis using r2 p2 e(3) by (auto simp: b edge_burst_def)
  next
    case False
    from Cons.IH [OF p2(1-4) Cons.prems(5) False] Cons.prems(7) obtain t e' where
      "sys_run USING_WORKQUEUE (edge_burst gs) ?s2 = Some t" "headset_wq t = Some []"
      "detect_timer t = Some e'" "jiffies t = e' - ?d + word_of_nat (last gs)"
      "gate_inv t" "irq_depth t Detect_Irq = 0" "headset_timer_period t = p"
      by auto
    moreover have "sys_run USING_WORKQUEUE (edge_burst (g # gs)) s = sys_run USING_WORKQUEUE (edge_burst gs) ?s2"
      by (simp only: b sys_run_append r2 option.case)
    moreover have "last (g # gs) = last gs" using False by simp
    ultimately show ?thesis by metis
  qed
qed

lemma button_work_timer:
  assumes "\<not> wrong_button_of (adc_src s True (adc_cnt s + 2)) (adc_src s False (adc_cnt s + 7))"
  shows "detect_timer (headset_button_workqueue_func s) = detect_timer s"
proof -
  have i: "detect_timer (snd (ignore_wrong_button s)) = detect_timer s"
    by (simp add: ignore_wrong_button_eq)
  have r: "detect_timer (snd (headset_read_adc b x)) = detect_timer x" for b and x :: "'a buttons_scheme"
    by (subst headset_read_adc_upd) simp
  have f: "detect_timer (headset_button_work_finish st a x) = detect_timer x" for st a and x :: "'a buttons_scheme"
    by (simp add: headset_button_work_finish_def Let_def input_event_def input_sync_def headset_simps
        split: option.split)
  show ?thesis using assms
    by (simp add: headset_button_workqueue_func_def headset_button_work_begin_eq i r f headset_simps)
qed

lemma run_button_more:
  fixes s :: "'a system_scheme"
  shows "s_headset_event_flags (run_work Button_Work s) = s_headset_event_flags s"
    "thread_flags (run_work Button_Work s) = thread_flags s"
    "sdev_state (run_work Button_Work s) = sdev_state s"
proof -
  have m: "buttons.more (run_work Button_Work s) = buttons.more s"
    using button_frame_work [of s] by (simp add: run_work_def button_frame_def)
  show "s_headset_event_flags (run_work Button_Work s) = s_headset_event_flags s" by (rule more_sched(1) [OF m])
  show "sdev_state (run_work Button_Work s) = sdev_state s" by (rule more_detect(1) [OF m])
  show "thread_flags (run_work Button_Work s) = thread_flags s" using m by (cases s, cases "run_work Button_Work s", simp)
qed

lemma button_work_ignored_timer:
  "wrong_button_of (adc_src s True (adc_cnt s + 2)) (adc_src s False (adc_cnt s + 7)) \<Longrightarrow>
   detect_timer (headset_button_workqueue_func s) \<noteq> None"
  by (simp add: headset_button_workqueue_func_def headset_button_work_begin_eq mod_timer_def)

lemma run_work_detect_more: "detect.more (run_work w s) = detect.more s"
proof (cases w)
  case Detect_Work
  then show ?thesis using detect_work_frame [of s] by (simp add: run_work_def)
next
  case Button_Work
  have b: "buttons.more (run_work w s) = buttons.more s"
    using Button_Work button_frame_work [of s] unfolding button_frame_def run_work_def by simp
  show ?thesis by (rule more_detect_buttons [OF b])
qed

lemma run_work_timer_none: "detect_timer (run_work w s) = None \<Longrightarrow> detect_timer s = None"
proof (cases w)
  case Detect_Work
  then show "detect_timer (run_work w s) = None \<Longrightarrow> detect_timer s = None"
    using detect_work_frame [of s] by (simp add: run_work_def)
next
  case Button_Work
  then show "detect_timer (run_work w s) = None \<Longrightarrow> detect_timer s = None"
    using button_work_timer [of s] button_work_ignored_timer [of s]
    by (cases "wrong_button_of (adc_src s True (adc_cnt s + 2)) (adc_src s False (adc_cnt s + 7))")
       (auto simp: run_work_def)
qed

subsection \<open>System properties\<close>

text \<open>
  \<^bold>\<open>C21.\<close> In every state reachable from a state where the button gate flag agrees
  with the button line's disable depth, in either build variant and whatever the
  interrupts, ticks, hardware and works do, the flag still agrees with the depth:
  the depth is 0 or 1, the line is deliverable exactly when the flag says enabled,
  and \<open>enable_irq\<close> is never called on an enabled line.
\<close>

theorem reach_button_gate:
  assumes "reach cfg s t" and "gate_inv s"
  shows "gate_inv t \<and> irq_depth t Button_Irq \<le> 1 \<and> (irq_enabled t Button_Irq \<longleftrightarrow> button_irq_enable t)"
proof -
  have "gate_inv t" using assms by (rule reach_gate_inv)
  then show ?thesis by (simp add: gate_inv_def irq_enabled_def)
qed

theorem reach_button_gate_witness:
  "reach USING_WORKQUEUE system_boot (headset_detect_irq_handler system_boot) \<and> gate_inv system_boot \<and>
   irq_depth (headset_detect_irq_handler system_boot) Button_Irq \<le> 1"
proof -
  have g: "gate_inv system_boot" by (simp add: system_boot_def detect_boot_simps gate_inv_def)
  have "sys_step USING_WORKQUEUE Detect_Edge system_boot = Some (headset_detect_irq_handler system_boot)"
    by (simp add: sys_step_def irq_enabled_def system_boot_def detect_boot_simps)
  then have r: "reach USING_WORKQUEUE system_boot (headset_detect_irq_handler system_boot)"
    by (rule reach_step [OF reach_refl])
  show ?thesis using reach_button_gate [OF r g] r g by simp
qed

text \<open>
  \<^bold>\<open>C22.\<close> Debounce (spec P1), work-queue variant: a burst of detect edges, each
  followed by fewer ticks than the debounce period \<open>d = msecs_to_jiffies(headset_timer_period)\<close>,
  queues no work; after the last edge the queue stays empty for \<open>d - 1\<close> further
  ticks, and the \<open>d\<close>-th tick queues exactly one detect work and leaves the timer
  idle. This holds wherever \<open>jiffies\<close> starts, across its 32-bit wrap, for
  \<open>d < 2^31\<close>.
\<close>

theorem debounce_coalesce:
  fixes s :: "'a system_scheme"
  defines "d \<equiv> msecs_to_jiffies (headset_timer_period s)"
  assumes "gate_inv s" "irq_depth s Detect_Irq = 0" "headset_wq s = Some []" "unat d < 2^31"
    "gaps \<noteq> []" "\<forall>g\<in>set gaps. g < unat d"
  shows "\<exists>t. sys_run USING_WORKQUEUE (edge_burst gaps) s = Some t \<and> headset_wq t = Some [] \<and>
           (\<forall>k < unat d - last gaps.
              sys_run USING_WORKQUEUE (replicate k Tick) t = Some (t\<lparr>jiffies := jiffies t + word_of_nat k\<rparr>)) \<and>
           sys_run USING_WORKQUEUE (replicate (unat d - last gaps) Tick) t =
             Some (t\<lparr>jiffies := jiffies t + word_of_nat (unat d - last gaps), detect_timer := None,
                     headset_wq := Some [Detect_Work]\<rparr>)"
proof -
  from burst_run [OF assms(2-4) refl, of gaps] assms(5-7) obtain t e where
    t: "sys_run USING_WORKQUEUE (edge_burst gaps) s = Some t" "headset_wq t = Some []"
       "detect_timer t = Some e" "jiffies t = e - d + word_of_nat (last gaps)"
    unfolding d_def by blast
  have l: "last gaps < unat d" using assms(6,7) by simp
  have quiet: "sys_run USING_WORKQUEUE (replicate k Tick) t = Some (t\<lparr>jiffies := jiffies t + word_of_nat k\<rparr>)"
    if "k < unat d - last gaps" for k
    by (rule ticks_quiet [OF t(3,4)]) (use that assms(5) in simp_all)
  have fire: "sys_run USING_WORKQUEUE (replicate (unat d - last gaps) Tick) t =
      Some (t\<lparr>jiffies := jiffies t + word_of_nat (unat d - last gaps), detect_timer := None,
              headset_wq := Some [Detect_Work]\<rparr>)"
    by (rule ticks_fire [OF t(3,4)]) (use l assms(5) t(2) in simp_all)
  show ?thesis using t(1,2) quiet fire by blast
qed


theorem debounce_coalesce_witness:
  "gate_inv (system_boot\<lparr>jiffies := 0xFFFFFFF0\<rparr>) \<and>
   irq_depth (system_boot\<lparr>jiffies := 0xFFFFFFF0\<rparr>) Detect_Irq = 0 \<and>
   headset_wq (system_boot\<lparr>jiffies := 0xFFFFFFF0\<rparr>) = Some [] \<and>
   unat (msecs_to_jiffies (headset_timer_period (system_boot\<lparr>jiffies := 0xFFFFFFF0\<rparr>))) = 50 \<and>
   (\<exists>t. sys_run USING_WORKQUEUE (edge_burst [10, 30]) (system_boot\<lparr>jiffies := 0xFFFFFFF0\<rparr>) = Some t \<and>
        headset_wq t = Some [] \<and>
        sys_run USING_WORKQUEUE (replicate 20 Tick) t =
          Some (t\<lparr>jiffies := jiffies t + 20, detect_timer := None, headset_wq := Some [Detect_Work]\<rparr>))"
proof -
  let ?s = "system_boot\<lparr>jiffies := 0xFFFFFFF0\<rparr>"
  have h: "gate_inv ?s" "irq_depth ?s Detect_Irq = 0" "headset_wq ?s = Some []"
    by (simp_all add: system_boot_def detect_boot_simps gate_inv_def)
  have d0: "msecs_to_jiffies (headset_timer_period system_boot) = 50"
    by (simp add: system_boot_def detect_boot_simps msecs_to_jiffies_def)
  then have d: "unat (msecs_to_jiffies (headset_timer_period ?s)) = 50" by simp
  have "\<exists>t. sys_run USING_WORKQUEUE (edge_burst [10, 30]) ?s = Some t \<and> headset_wq t = Some [] \<and>
        sys_run USING_WORKQUEUE (replicate 20 Tick) t =
          Some (t\<lparr>jiffies := jiffies t + 20, detect_timer := None, headset_wq := Some [Detect_Work]\<rparr>)"
    using debounce_coalesce [OF h, of "[10, 30]"] d0 by simp blast
  then show ?thesis using h d by blast
qed

text \<open>
  \<^bold>\<open>C23.\<close> Lost detection, thread variant: when the thread has read
  \<open>HEADSET_BUTTON\<close> and the debounce timer fires before the thread clears the
  word, the timer's \<open>HEADSET_DETECT\<close> is written into the word and then wiped by
  the clear; the thread runs the button work, and afterwards nothing is pending
  (word 0, thread waiting, timer idle) while the reported plug state is the old
  one. Detection resumes only at the next detect edge.
\<close>

theorem thread_lost_detect:
  fixes s :: "'a system_scheme"
  assumes "thread_flags s = Some HEADSET_BUTTON" and "detect_timer s = Some (jiffies s + 1)"
    and "\<not> wrong_button_of (adc_src s True (adc_cnt s + 2)) (adc_src s False (adc_cnt s + 7))"
  shows "\<exists>u t. sys_step USING_THREAD Tick s = Some u \<and> s_headset_event_flags u = HEADSET_DETECT \<and>
           sys_step USING_THREAD Thread_Run u = Some t \<and>
           s_headset_event_flags t = 0 \<and> thread_flags t = None \<and> detect_timer t = None \<and>
           sdev_state t = sdev_state s"
proof -
  let ?u = "headset_post_work USING_THREAD Detect_Work ((tick s)\<lparr>detect_timer := None\<rparr>)"
  have due: "timer_due (tick s)" using assms(2) by (simp add: timer_due_def time_after_eq_def headset_simps)
  have u: "sys_step USING_THREAD Tick s = Some ?u"
    using due by (simp add: sys_step_def timer_tick_def headset_detect_timer_def)
  have uf: "s_headset_event_flags ?u = HEADSET_DETECT"
    by (simp add: post_work_thread_flags work_flag_def)
  have ut: "thread_flags ?u = Some HEADSET_BUTTON" "detect_timer ?u = None" "sdev_state ?u = sdev_state s"
    "adc_src ?u = adc_src s" "adc_cnt ?u = adc_cnt s"
    using assms(1) by (simp_all add: headset_post_work_def headset_wake_up_headset_thread_def headset_simps)
  let ?c = "headset_thread_clear_flags (?u\<lparr>thread_flags := None\<rparr>)"
  have t: "sys_step USING_THREAD Thread_Run ?u = Some (run_work Button_Work ?c)"
    using ut(1) by (simp add: sys_step_def headset_thread_run_def thread_dispatch_def
        HEADSET_DETECT_def HEADSET_BUTTON_def)
  have w: "\<not> wrong_button_of (adc_src ?c True (adc_cnt ?c + 2)) (adc_src ?c False (adc_cnt ?c + 7))"
    using assms(3) ut by (simp add: headset_thread_clear_flags_def)
  have tt: "detect_timer (run_work Button_Work ?c) = None"
    using button_work_timer [OF w] ut(2) by (simp add: run_work_def headset_thread_clear_flags_def)
  show ?thesis using u uf t tt run_button_more [of ?c] ut
    by (auto simp: headset_thread_clear_flags_def)
qed

theorem thread_lost_detect_witness:
  "thread_flags (system_boot\<lparr>thread_flags := Some 2, detect_timer := Some 1\<rparr>) = Some HEADSET_BUTTON \<and>
   detect_timer (system_boot\<lparr>thread_flags := Some 2, detect_timer := Some 1\<rparr>) =
     Some (jiffies (system_boot\<lparr>thread_flags := Some 2, detect_timer := Some 1\<rparr>) + 1) \<and>
   (\<exists>t. sys_run USING_THREAD [Tick, Thread_Run] (system_boot\<lparr>thread_flags := Some 2, detect_timer := Some 1\<rparr>) = Some t \<and>
        s_headset_event_flags t = 0 \<and> detect_timer t = None \<and> sdev_state t = BIT_HEADSET_OUT)"
proof -
  let ?s = "system_boot\<lparr>thread_flags := Some 2, detect_timer := Some 1\<rparr>"
  have h: "thread_flags ?s = Some HEADSET_BUTTON" "detect_timer ?s = Some (jiffies ?s + 1)"
    "\<not> wrong_button_of (adc_src ?s True (adc_cnt ?s + 2)) (adc_src ?s False (adc_cnt ?s + 7))"
    by (simp_all add: system_boot_def detect_boot_simps HEADSET_BUTTON_def wrong_button_of_def ABS_sub_def
        HEADSET_TYPE_ADC_DISPART_VALUE_def)
  have o: "sdev_state ?s = BIT_HEADSET_OUT" by (simp add: system_boot_def detect_boot_simps)
  from thread_lost_detect [OF h] obtain u t where
    "sys_step USING_THREAD Tick ?s = Some u" "sys_step USING_THREAD Thread_Run u = Some t"
    "s_headset_event_flags t = 0" "detect_timer t = None" "sdev_state t = sdev_state ?s"
    by blast
  then show ?thesis using h o by auto
qed


subsection \<open>The timer refines a countdown; the queue drains; the table keeps its shape\<close>

lemma detect_timer_post [simp]:
  "detect_timer (headset_detect_timer cfg s) = detect_timer s"
  "jiffies (headset_detect_timer cfg s) = jiffies s"
  by (cases cfg; simp add: headset_detect_timer_def headset_post_work_def headset_wake_up_headset_thread_def
      queue_work_def split: option.split)+

lemma run_work_wq: "headset_wq (run_work w s) = headset_wq s"
  using detect_work_frame [of s] button_frame_work [of s]
  by (cases w) (simp_all add: run_work_def button_frame_def)

lemma flush_workqueue_drains:
  fixes s :: "'a system_scheme"
  assumes "headset_wq s = Some q"
  shows "\<exists>t. flush_workqueue s = Some t \<and> headset_wq t = Some [] \<and> reach USING_WORKQUEUE s t"
  using assms
proof (induction q arbitrary: s)
  case Nil
  then show ?case by (simp add: flush_workqueue.simps reach_refl)
next
  case (Cons w ws)
  let ?s' = "run_work w (s\<lparr>headset_wq := Some ws\<rparr>)"
  have st: "sys_step USING_WORKQUEUE Queue_Run s = Some ?s'" using Cons.prems by (simp add: sys_step_def)
  have "headset_wq ?s' = Some ws" by (simp add: run_work_wq)
  then obtain t where t: "flush_workqueue ?s' = Some t" "headset_wq t = Some []" "reach USING_WORKQUEUE ?s' t"
    using Cons.IH by blast
  have "flush_workqueue s = flush_workqueue ?s'"
    using Cons.prems by (simp add: flush_workqueue.simps)
  moreover have "reach USING_WORKQUEUE s t" by (rule reach_prepend [OF t(3) st])
  ultimately show ?case using t(1,2) by auto
qed

lemma release_shape [simp]:
  "map (\<lambda>b. b\<lparr>state := HEADSET_BUTTON_STATE_RELASED\<rparr>) (map (\<lambda>b. b\<lparr>state := st\<rparr>) bs) =
   map (\<lambda>b. b\<lparr>state := HEADSET_BUTTON_STATE_RELASED\<rparr>) bs"
  by simp

lemma mark_button_shape [simp]:
  "map (\<lambda>b. b\<lparr>state := HEADSET_BUTTON_STATE_RELASED\<rparr>) (mark_button kc st bs) =
   map (\<lambda>b. b\<lparr>state := HEADSET_BUTTON_STATE_RELASED\<rparr>) bs"
  by (induction bs) simp_all

lemma table_shape_release: "table_shape (headset_button_release s) = table_shape s"
  by (cases "button_platform_data s") (simp_all add: table_shape_def headset_button_release_upd,
      simp add: headset_button_release_def)

lemma table_shape_plug_in: "table_shape (detect_plug_in x) = table_shape x"
  by (simp add: table_shape_def detect_plug_in_eq Let_def switch_set_state_upd headset_button_irq_enable_def
      enable_irq_def prelude_type_fields detect_type_setup_fields headset_simps)

lemma table_shape_plug_out: "table_shape (detect_plug_out x) = table_shape x"
  by (simp add: detect_plug_out_def Let_def table_shape_release,
      simp add: table_shape_def switch_set_state_upd headset_pwr_on_upd headset_simps)

lemma table_shape_detect_work: "table_shape (headset_detect_workqueue_func s) = table_shape s"
proof (cases "gpio s (detect_gpio (detect_platform_data s))")
  case True
  then show ?thesis unfolding headset_detect_work_inserted [OF True] table_shape_plug_in
    by (simp add: table_shape_def pwr_notify_fields)
next
  case False
  then show ?thesis unfolding headset_detect_work_removed [OF False] table_shape_plug_out
    by (simp add: table_shape_def pwr_notify_fields)
qed

lemma table_shape_button_work: "table_shape (headset_button_workqueue_func s) = table_shape s"
proof -
  have i: "button_platform_data (snd (ignore_wrong_button s)) = button_platform_data s"
    by (simp add: ignore_wrong_button_eq)
  have r: "button_platform_data (snd (headset_read_adc b x)) = button_platform_data x" for b and x :: "'a buttons_scheme"
    by (subst headset_read_adc_upd) simp
  have f: "table_shape (headset_button_work_finish st a x) = table_shape x" for st a and x :: "'a buttons_scheme"
    by (simp add: table_shape_def headset_button_work_finish_def Let_def input_event_def input_sync_def headset_simps
        split: option.split)
  show ?thesis
    by (simp add: headset_button_workqueue_func_def headset_button_work_begin_def split_beta Let_def f,
        simp add: table_shape_def i r headset_simps)
qed

lemma table_shape_run_work: "table_shape (run_work w s) = table_shape s"
  by (cases w) (simp_all add: run_work_def table_shape_detect_work table_shape_button_work)

lemma table_shape_post: "table_shape (headset_post_work cfg w s) = table_shape s"
  by (cases cfg) (simp_all add: table_shape_def headset_post_work_def headset_wake_up_headset_thread_def
      queue_work_def split: option.split)

lemma table_shape_sys_step: "sys_step cfg e s = Some t \<Longrightarrow> table_shape t = table_shape s"
proof (cases e)
  case Detect_Edge
  then show "sys_step cfg e s = Some t \<Longrightarrow> table_shape t = table_shape s"
    by (auto simp: sys_step_def headset_detect_irq_handler_def Let_def headset_button_irq_enable_def
        table_shape_def headset_simps split: if_splits)
next
  case Button_Edge
  then show "sys_step cfg e s = Some t \<Longrightarrow> table_shape t = table_shape s"
    by (auto simp: sys_step_def headset_button_irq_handler_def Let_def table_shape_post
        split: if_splits, simp_all add: table_shape_def headset_simps)
next
  case Tick
  then show "sys_step cfg e s = Some t \<Longrightarrow> table_shape t = table_shape s"
    by (auto simp: sys_step_def timer_tick_def headset_detect_timer_def Let_def table_shape_post,
        simp_all add: table_shape_def headset_simps)
next
  case Thread_Run
  then show "sys_step cfg e s = Some t \<Longrightarrow> table_shape t = table_shape s"
    by (auto simp: sys_step_def headset_thread_run_def Let_def table_shape_run_work
        split: if_splits option.splits, simp_all add: table_shape_def headset_thread_clear_flags_def)
next
  case Queue_Run
  then show "sys_step cfg e s = Some t \<Longrightarrow> table_shape t = table_shape s"
    by (auto simp: sys_step_def table_shape_run_work split: if_splits option.splits list.splits,
        simp_all add: table_shape_def)
qed (auto simp: sys_step_def table_shape_def split: if_splits)

text \<open>
  \<^bold>\<open>C32.\<close> The debounce timer of the kernel, kept as a 32-bit expiry compared with
  \<open>time_after_eq\<close> against the wrapping \<open>jiffies\<close>, implements the spec's countdown
  timer: while the ticks left are below \<open>2^31\<close>, a tick fires the timer callback
  (and disarms the timer) exactly when the countdown says so and otherwise only
  counts down, and \<open>mod_timer(jiffies + d)\<close> arms the countdown at \<open>d\<close>.
\<close>

theorem timer_tick_refines:
  fixes s :: "'a detect_scheme"
  assumes "\<forall>n. timer_countdown s = Some n \<longrightarrow> n < 2^31"
  shows "timer_countdown (mod_timer (jiffies s + d) s) = Some (unat d) \<and>
         timer_tick cfg s =
           (if snd (countdown_tick (timer_countdown s))
            then headset_detect_timer cfg ((tick s)\<lparr>detect_timer := None\<rparr>) else tick s) \<and>
         timer_countdown (timer_tick cfg s) = fst (countdown_tick (timer_countdown s))"
proof -
  have m: "timer_countdown (mod_timer (jiffies s + d) s) = Some (unat d)"
    by (simp add: timer_countdown_def mod_timer_def)
  have "timer_tick cfg s =
          (if snd (countdown_tick (timer_countdown s))
           then headset_detect_timer cfg ((tick s)\<lparr>detect_timer := None\<rparr>) else tick s) \<and>
        timer_countdown (timer_tick cfg s) = fst (countdown_tick (timer_countdown s))"
  proof (cases "detect_timer s")
    case None
    then show ?thesis
      by (simp add: timer_tick_def timer_countdown_def countdown_tick_def timer_due_def tick_def)
  next
    case (Some e)
    have b: "unat (e - jiffies s) < 2^31" using assms Some by (simp add: timer_countdown_def)
    note d = tick_due_countdown [OF Some b]
    show ?thesis
    proof (cases "unat (e - jiffies s) \<le> 1")
      case True
      then show ?thesis using Some d by (simp add: timer_tick_def timer_countdown_def countdown_tick_def)
    next
      case False
      then have "unat (e - jiffies (tick s)) = unat (e - jiffies s) - 1"
        by (intro tick_countdown [OF Some]) simp
      then show ?thesis using Some d False
        by (simp add: timer_tick_def timer_countdown_def countdown_tick_def tick_def)
    qed
  qed
  with m show ?thesis by blast
qed

theorem timer_tick_refines_witness:
  "timer_countdown (timer_tick USING_WORKQUEUE (system_boot\<lparr>jiffies := 0xFFFFFFF0, detect_timer := Some 0x10\<rparr>)) =
     Some 31"
proof -
  let ?s = "system_boot\<lparr>jiffies := 0xFFFFFFF0, detect_timer := Some 0x10\<rparr>"
  have h: "\<forall>n. timer_countdown ?s = Some n \<longrightarrow> n < 2^31" by (simp add: timer_countdown_def)
  have "timer_countdown (timer_tick USING_WORKQUEUE ?s) = fst (countdown_tick (timer_countdown ?s))"
    using timer_tick_refines [of ?s 0 USING_WORKQUEUE, OF h] by blast
  then show ?thesis by (simp add: timer_countdown_def countdown_tick_def)
qed

text \<open>
  \<^bold>\<open>C33.\<close> The kernel's \<open>flush_workqueue\<close> on \<open>headset_wq\<close>, which \<open>headset_exit\<close>
  calls at line 796, terminates from every state: neither work queues work, so the
  worker empties the queue; the result is reached by \<open>Queue_Run\<close> steps of the
  work-queue build.
\<close>

theorem flush_workqueue_terminates:
  fixes s :: "'a system_scheme"
  shows "\<exists>t. flush_workqueue s = Some t \<and> headset_wq t = map_option (\<lambda>_. []) (headset_wq s) \<and>
             reach USING_WORKQUEUE s t"
proof (cases "headset_wq s")
  case None
  then show ?thesis by (simp add: flush_workqueue.simps reach_refl)
next
  case (Some q)
  then show ?thesis using flush_workqueue_drains [OF Some] by simp
qed

text \<open>
  \<^bold>\<open>C34.\<close> The button table is well formed for good: in every state reachable by any
  interleaving of edges, ticks, thread and queue steps and hardware changes, in both
  build variants, the table (present or absent) keeps its entries' codes, event
  types and ADC ranges in order; the driver changes only the entries' press states.
\<close>

theorem reach_table_shape: "reach cfg s t \<Longrightarrow> table_shape t = table_shape s"
  by (induction rule: reach.induct) (auto dest: table_shape_sys_step)

theorem reach_table_shape_witness:
  "table_shape (headset_detect_irq_handler system_boot) = table_shape system_boot"
proof -
  have "sys_step USING_WORKQUEUE Detect_Edge system_boot = Some (headset_detect_irq_handler system_boot)"
    by (simp add: sys_step_def irq_enabled_def system_boot_def detect_boot_simps)
  then have r: "reach USING_WORKQUEUE system_boot (headset_detect_irq_handler system_boot)"
    by (rule reach_step [OF reach_refl])
  show ?thesis by (rule reach_table_shape [OF r])
qed

end
