(* ===== verification/Headset_Probe.thy ===== *)
theory Headset_Probe
  imports Headset_System
begin

text \<open>
  Driver set-up and tear-down of headset_sprd.c: \<open>headset_detect_probe\<close>
  (lines 576-670), \<open>headset_buttons_probe\<close> (lines 672-715), \<open>headset_init\<close> and
  \<open>headset_exit\<close> (lines 767-804), and the suspend and resume register sequences
  (lines 716-745, compiled out by \<open>#if 0\<close> at line 753). The state record \<open>probe\<close>
  extends \<open>system\<close> with the kernel resources these paths acquire: the registered
  switch device, the GPIOs and interrupt lines held, the input device and the
  registration of the two platform drivers. Every fallible kernel call reads its
  result from a function \<open>ret :: kcall \<Rightarrow> int\<close> (0 for success, a negative errno
  otherwise), so that every error branch of the code is a case of the model.
\<close>

text \<open>The kernel and platform calls of the probe and module paths that can fail.\<close>

datatype kcall =
    Switch_Dev_Register
  | Gpio_Request nat
  | Gpio_Direction_Input nat
  | Gpio_To_Irq nat
  | Request_Irq irq_line
  | Input_Allocate_Device
  | Input_Register_Device
  | Kthread_Create
  | Create_Singlethread_Workqueue
  | Platform_Driver_Register bool

datatype input_dev_state = No_Input_Dev | Input_Allocated "(int \<times> int) list"
  | Input_Registered "(int \<times> int) list" | Input_Freed

datatype probe_ret = Ret int | Oopsed

record probe = system +
  sdev_registered :: bool
  gpios_held :: "nat list"
  irqs_held :: "(irq_line \<times> trigger) list"
  input_dev :: input_dev_state
  timer_initialised :: bool
  thread_created :: bool
  thread_started :: bool
  detect_driver_registered :: bool
  buttons_driver_registered :: bool

text \<open>\<open>ENOMEM\<close> and \<open>EV_KEY\<close> of the kernel headers.\<close>

definition ENOMEM :: int where "ENOMEM = 12"
definition EV_KEY :: int where "EV_KEY = 1"

definition gpio_request :: "(kcall \<Rightarrow> int) \<Rightarrow> nat \<Rightarrow> 'a probe_scheme \<Rightarrow> int \<times> 'a probe_scheme" where
  "gpio_request ret g s =
     (if ret (Gpio_Request g) < 0 then (ret (Gpio_Request g), s)
      else (0, s\<lparr>gpios_held := gpios_held s @ [g]\<rparr>))"

definition gpio_free :: "nat \<Rightarrow> 'a probe_scheme \<Rightarrow> 'a probe_scheme" where
  "gpio_free g s = s\<lparr>gpios_held := removeAll g (gpios_held s)\<rparr>"

definition request_irq :: "(kcall \<Rightarrow> int) \<Rightarrow> irq_line \<Rightarrow> trigger \<Rightarrow> 'a probe_scheme \<Rightarrow> int \<times> 'a probe_scheme" where
  "request_irq ret l t s =
     (if ret (Request_Irq l) \<noteq> 0 then (ret (Request_Irq l), s)
      else (0, (irq_set_irq_type l t s)\<lparr>irqs_held := irqs_held s @ [(l, t)]\<rparr>))"

text \<open>\<open>headset_detect_probe\<close> (lines 576-670). Every \<open>goto fail1\<close> returns the error
  and releases nothing; two paths free the detect GPIO first. A NULL platform data
  pointer is stored and then dereferenced at line 599. In the thread variant the
  probe first starts the thread created by \<open>headset_init\<close> (\<open>wake_up_process\<close>,
  line 594).\<close>

definition headset_detect_probe ::
  "headset_config \<Rightarrow> (kcall \<Rightarrow> int) \<Rightarrow> detect_pdata option \<Rightarrow> 'a probe_scheme \<Rightarrow> probe_ret \<times> 'a probe_scheme" where
  "headset_detect_probe cfg ret pdata s =
     (if ret Switch_Dev_Register < 0 then (Ret (ret Switch_Dev_Register), s)
      else
        (let s = s\<lparr>sdev_registered := True, timer_initialised := True,
                    thread_started := (thread_started s \<or> cfg = USING_THREAD)\<rparr>
         in case pdata of
              None \<Rightarrow> (Oopsed, s\<lparr>kernel_oops := True\<rparr>)
            | Some pd \<Rightarrow>
                (let s = s\<lparr>detect_platform_data := pd\<rparr>;
                     (e, s) = gpio_request ret (switch_gpio pd) s
                 in if e < 0 then (Ret e, s) else
                 let (e, s) = gpio_request ret (detect_gpio pd) s
                 in if e < 0 then (Ret e, s) else
                 let (e, s) = gpio_request ret (button_gpio pd) s
                 in if e < 0 then (Ret e, s) else
                 if ret (Gpio_Direction_Input (detect_gpio pd)) < 0
                 then (Ret (ret (Gpio_Direction_Input (detect_gpio pd))), gpio_free (detect_gpio pd) s) else
                 if ret (Gpio_To_Irq (button_gpio pd)) < 0 then (Ret (ret (Gpio_To_Irq (button_gpio pd))), s) else
                 let (e, s) = request_irq ret Button_Irq
                       (if button_active_low pd \<noteq> 0 then IRQF_TRIGGER_HIGH else IRQF_TRIGGER_LOW) s
                 in if e \<noteq> 0 then (Ret e, s) else
                 let s = headset_button_irq_enable False Button_Irq s
                 in if ret (Gpio_To_Irq (detect_gpio pd)) < 0
                 then (Ret (ret (Gpio_To_Irq (detect_gpio pd))), gpio_free (detect_gpio pd) s) else
                 let (e, s) = request_irq ret Detect_Irq
                       (if detect_active_low pd \<noteq> 0 then IRQF_TRIGGER_HIGH else IRQF_TRIGGER_LOW) s
                 in if e < 0 then (Ret e, s) else (Ret 0, s))))"

text \<open>The loop of lines 696-702: one capability per entry (type 0 means \<open>EV_KEY\<close>),
  every entry released.\<close>

fun buttons_init_loop :: "headset_button list \<Rightarrow> (int \<times> int) list \<times> headset_button list" where
  "buttons_init_loop [] = ([], [])"
| "buttons_init_loop (b # bs) =
     (let (caps, bs') = buttons_init_loop bs
      in ((if ev_type b \<noteq> 0 then ev_type b else EV_KEY, code b) # caps,
          b\<lparr>state := HEADSET_BUTTON_STATE_RELASED\<rparr> # bs'))"

text \<open>\<open>headset_buttons_probe\<close> (lines 672-715). \<open>input_allocate_device\<close> returning
  NULL is a non-zero \<open>ret Input_Allocate_Device\<close>; a NULL \<open>pdata\<close> is \<open>None\<close>.\<close>

definition headset_buttons_probe ::
  "(kcall \<Rightarrow> int) \<Rightarrow> headset_button list option \<Rightarrow> 'a probe_scheme \<Rightarrow> probe_ret \<times> 'a probe_scheme" where
  "headset_buttons_probe ret pdata s =
     (case pdata of
        None \<Rightarrow> (Ret (- ENOMEM), s)
      | Some bs \<Rightarrow>
          if ret Input_Allocate_Device \<noteq> 0 then (Ret (- ENOMEM), s)
          else
            (let s = s\<lparr>button_platform_data := Some bs, input_dev := Input_Allocated []\<rparr>;
                 (caps, bs') = buttons_init_loop bs;
                 s = s\<lparr>button_platform_data := Some bs', input_dev := Input_Allocated caps\<rparr>
             in if ret Input_Register_Device \<noteq> 0 then (Ret (ret Input_Register_Device), s\<lparr>input_dev := Input_Freed\<rparr>)
                else (Ret 0, s\<lparr>input_dev := Input_Registered caps\<rparr>)))"

text \<open>\<open>headset_init\<close> (lines 767-785): the two registration results are combined
  with a bitwise or.\<close>

definition headset_init :: "headset_config \<Rightarrow> (kcall \<Rightarrow> int) \<Rightarrow> 'a probe_scheme \<Rightarrow> int \<times> 'a probe_scheme" where
  "headset_init cfg ret s =
     (let r = (case cfg of
                 USING_THREAD \<Rightarrow>
                   if ret Kthread_Create < 0 then None else Some (s\<lparr>thread_created := True\<rparr>)
               | USING_WORKQUEUE \<Rightarrow>
                   Some (s\<lparr>headset_wq := if ret Create_Singlethread_Workqueue < 0 then None else Some []\<rparr>))
      in case r of
           None \<Rightarrow> (-1, s)
         | Some s \<Rightarrow>
             (let r1 = ret (Platform_Driver_Register True);
                  r2 = ret (Platform_Driver_Register False)
              in (r1 OR r2, s\<lparr>detect_driver_registered := (r1 = 0), buttons_driver_registered := (r2 = 0)\<rparr>)))"




text \<open>Suspend and resume (lines 716-745): register sequences on the button block.\<close>

definition headset_suspend :: "'a machine_scheme \<Rightarrow> 'a machine_scheme" where
  "headset_suspend s =
     (let s = headset_reg_msk_or 0x01 (HEADMIC_BUTTON_REG 0x34) 0x01 s;
          s = headset_reg_msk_or 0x32 (HEADMIC_BUTTON_REG 0x3c) 0x0f s;
          s = headset_reg_msk_or 0xff (HEADMIC_BUTTON_REG 0x40) 0xffff s;
          s = headset_reg_msk_or 0xff (HEADMIC_BUTTON_REG 0x44) 0xffff s;
          s = msleep 100 s
      in headset_reg_clr_bit (HEADMIC_DETECT_REG 0x40) (BIT 5) s)"

definition headset_resume :: "'a machine_scheme \<Rightarrow> 'a machine_scheme" where
  "headset_resume s =
     (let s = headset_reg_set_bit (HEADMIC_DETECT_REG 0x40) (BIT 5) s;
          s = headset_reg_clr_bit (HEADMIC_BUTTON_REG 0x34) 0x01 s;
          s = headset_reg_clr_bit (HEADMIC_BUTTON_REG 0x3c) 0x0f s;
          s = headset_reg_clr_bit (HEADMIC_BUTTON_REG 0x40) 0xffff s
      in headset_reg_clr_bit (HEADMIC_BUTTON_REG 0x44) 0xffff s)"

text \<open>The module state before any probe: nothing registered or held.\<close>

definition probe_boot :: probe where
  "probe_boot = system.extend system_boot (probe.fields False [] [] No_Input_Dev False False False False False)"

subsection \<open>Lemmas on the kernel calls\<close>

lemma buttons_init_loop_eq:
  "buttons_init_loop bs =
     (map (\<lambda>b. (if ev_type b \<noteq> 0 then ev_type b else EV_KEY, code b)) bs,
      map (\<lambda>b. b\<lparr>state := HEADSET_BUTTON_STATE_RELASED\<rparr>) bs)"
  by (induction bs) (simp_all add: split_beta)

lemma gpio_request_ok: "0 \<le> ret (Gpio_Request g) \<Longrightarrow> gpio_request ret g s = (0, s\<lparr>gpios_held := gpios_held s @ [g]\<rparr>)"
  by (simp add: gpio_request_def)

lemma request_irq_ok:
  "ret (Request_Irq l) = 0 \<Longrightarrow> request_irq ret l t s = (0, (irq_set_irq_type l t s)\<lparr>irqs_held := irqs_held s @ [(l, t)]\<rparr>)"
  by (simp add: request_irq_def)

lemma int_or_neg: "((a :: int) OR b < 0) \<longleftrightarrow> (a < 0 \<or> b < 0)"
  by simp






lemmas probe_boot_simps = probe_boot_def system_boot_def detect_boot_simps system.defs probe.defs

subsection \<open>Properties of set-up and tear-down\<close>

text \<open>
  \<^bold>\<open>C24.\<close> When every kernel call succeeds, \<open>headset_detect_probe\<close> returns 0 holding
  the switch, detect and button GPIOs and both interrupt lines (each requested on
  the level opposite to its stored polarity), with the button interrupt disabled
  through the gate (flag off, depth 1) and the gate invariant holding.
\<close>

theorem headset_detect_probe_ok:
  fixes cfg :: headset_config and pd :: detect_pdata and s :: "'a probe_scheme"
  assumes "\<forall>c. ret c = 0" and "gate_inv s" and "button_irq_enable s"
  defines "t \<equiv> snd (headset_detect_probe cfg ret (Some pd) s)"
  shows "fst (headset_detect_probe cfg ret (Some pd) s) = Ret 0 \<and> sdev_registered t \<and>
         gpios_held t = gpios_held s @ [switch_gpio pd, detect_gpio pd, button_gpio pd] \<and>
         irqs_held t = irqs_held s @
           [(Button_Irq, if button_active_low pd \<noteq> 0 then IRQF_TRIGGER_HIGH else IRQF_TRIGGER_LOW),
            (Detect_Irq, if detect_active_low pd \<noteq> 0 then IRQF_TRIGGER_HIGH else IRQF_TRIGGER_LOW)] \<and>
         \<not> button_irq_enable t \<and> irq_depth t Button_Irq = 1 \<and> gate_inv t \<and> detect_platform_data t = pd"
  using assms(1-3) unfolding t_def
  by (simp add: headset_detect_probe_def Let_def gpio_request_ok request_irq_ok
      headset_button_irq_enable_def gate_inv_def headset_simps)

theorem headset_detect_probe_ok_witness:
  "(\<forall>c. (\<lambda>_. 0 :: int) c = 0) \<and> gate_inv probe_boot \<and> button_irq_enable probe_boot \<and>
   fst (headset_detect_probe USING_WORKQUEUE (\<lambda>_. 0) (Some example_pdata) probe_boot) = Ret 0 \<and>
   gpios_held (snd (headset_detect_probe USING_WORKQUEUE (\<lambda>_. 0) (Some example_pdata) probe_boot)) = [1, 2, 3]"
proof -
  have h: "\<forall>c. (\<lambda>_. 0 :: int) c = 0" "gate_inv probe_boot" "button_irq_enable probe_boot"
    by (simp_all add: probe_boot_simps gate_inv_def)
  have g: "gpios_held probe_boot = []" by (simp add: probe_boot_simps)
  show ?thesis
    using headset_detect_probe_ok [OF h, of USING_WORKQUEUE example_pdata] h g by (simp add: example_pdata_def)
qed

text \<open>
  \<^bold>\<open>C25.\<close> \<open>headset_detect_probe\<close> stores a NULL platform data pointer and dereferences
  it: with no detect platform data the probe oopses, after registering the switch
  device, instead of reporting a configuration error.
\<close>

theorem headset_detect_probe_null:
  assumes "0 \<le> ret Switch_Dev_Register"
  shows "fst (headset_detect_probe cfg ret None s) = Oopsed \<and> kernel_oops (snd (headset_detect_probe cfg ret None s)) \<and>
         sdev_registered (snd (headset_detect_probe cfg ret None s))"
  using assms by (simp add: headset_detect_probe_def)

theorem headset_detect_probe_null_witness:
  "0 \<le> (\<lambda>_. 0 :: int) Switch_Dev_Register \<and>
   fst (headset_detect_probe USING_WORKQUEUE (\<lambda>_. 0) None probe_boot) = Oopsed"
  using headset_detect_probe_null [of "\<lambda>_. 0" USING_WORKQUEUE probe_boot] by simp

text \<open>
  \<^bold>\<open>C26.\<close> Every error return of \<open>headset_detect_probe\<close> after the switch device
  registered leaks what it acquired: the switch device stays registered, the switch
  GPIO and the button GPIO stay held once requested, and the button interrupt line
  stays held once requested (its handler installed), whatever the later failure.
  Only the detect GPIO is ever freed.
\<close>

theorem headset_detect_probe_leaks:
  fixes s :: "'a probe_scheme"
  assumes "headset_detect_probe cfg ret (Some pd) s = (Ret e, t)" and "e \<noteq> 0" and "0 \<le> ret Switch_Dev_Register"
    and "distinct [switch_gpio pd, detect_gpio pd, button_gpio pd]"
  shows "sdev_registered t \<and>
         (0 \<le> ret (Gpio_Request (switch_gpio pd)) \<longrightarrow> switch_gpio pd \<in> set (gpios_held t)) \<and>
         (0 \<le> ret (Gpio_Request (switch_gpio pd)) \<and> 0 \<le> ret (Gpio_Request (detect_gpio pd)) \<and>
          0 \<le> ret (Gpio_Request (button_gpio pd)) \<longrightarrow> button_gpio pd \<in> set (gpios_held t)) \<and>
         (0 \<le> ret (Gpio_Request (switch_gpio pd)) \<and> 0 \<le> ret (Gpio_Request (detect_gpio pd)) \<and>
          0 \<le> ret (Gpio_Request (button_gpio pd)) \<and> 0 \<le> ret (Gpio_Direction_Input (detect_gpio pd)) \<and>
          0 \<le> ret (Gpio_To_Irq (button_gpio pd)) \<and> ret (Request_Irq Button_Irq) = 0 \<longrightarrow>
          Button_Irq \<in> fst ` set (irqs_held t))"
  using assms
  by (simp add: headset_detect_probe_def Let_def gpio_request_def request_irq_def gpio_free_def split_beta
      headset_button_irq_enable_def disable_irq_def enable_irq_def headset_simps split: if_split_asm)
     (auto)

theorem headset_detect_probe_leaks_witness:
  "headset_detect_probe USING_WORKQUEUE (\<lambda>c. if c = Gpio_Request 3 then -16 else 0) (Some example_pdata) probe_boot =
     (Ret (-16), snd (headset_detect_probe USING_WORKQUEUE (\<lambda>c. if c = Gpio_Request 3 then -16 else 0)
                       (Some example_pdata) probe_boot)) \<and>
   1 \<in> set (gpios_held (snd (headset_detect_probe USING_WORKQUEUE (\<lambda>c. if c = Gpio_Request 3 then -16 else 0)
                       (Some example_pdata) probe_boot)))"
proof -
  let ?ret = "\<lambda>c. if c = Gpio_Request 3 then -16 else (0 :: int)"
  have r: "headset_detect_probe USING_WORKQUEUE ?ret (Some example_pdata) probe_boot =
     (Ret (-16), snd (headset_detect_probe USING_WORKQUEUE ?ret (Some example_pdata) probe_boot))"
    by (simp add: headset_detect_probe_def Let_def gpio_request_def example_pdata_def)
  have h: "(-16 :: int) \<noteq> 0" "0 \<le> ?ret Switch_Dev_Register"
    "distinct [switch_gpio example_pdata, detect_gpio example_pdata, button_gpio example_pdata]"
    "0 \<le> ?ret (Gpio_Request (switch_gpio example_pdata))" "switch_gpio example_pdata = 1"
    by (simp_all add: example_pdata_def)
  show ?thesis using headset_detect_probe_leaks [OF r h(1-3)] r h(4,5) by simp
qed

text \<open>
  \<^bold>\<open>C27.\<close> When only \<open>request_irq\<close> of the detect line fails, the probe returns that
  error while still holding all three GPIOs and the button interrupt, whose handler
  stays installed (the line disabled through the gate).
\<close>

theorem headset_detect_probe_irq_fail:
  fixes cfg :: headset_config and pd :: detect_pdata and s :: "'a probe_scheme"
  assumes "\<forall>c. c \<noteq> Request_Irq Detect_Irq \<longrightarrow> ret c = 0" and "ret (Request_Irq Detect_Irq) < 0"
    and "gate_inv s" and "button_irq_enable s"
  defines "t \<equiv> snd (headset_detect_probe cfg ret (Some pd) s)"
  shows "fst (headset_detect_probe cfg ret (Some pd) s) = Ret (ret (Request_Irq Detect_Irq)) \<and>
         sdev_registered t \<and> gpios_held t = gpios_held s @ [switch_gpio pd, detect_gpio pd, button_gpio pd] \<and>
         irqs_held t = irqs_held s @
           [(Button_Irq, if button_active_low pd \<noteq> 0 then IRQF_TRIGGER_HIGH else IRQF_TRIGGER_LOW)] \<and>
         \<not> button_irq_enable t \<and> gate_inv t"
proof -
  have ok: "ret (Gpio_Request g) = 0" "ret (Gpio_Direction_Input g) = 0" "ret (Gpio_To_Irq g) = 0"
    "ret (Request_Irq Button_Irq) = 0" "ret Switch_Dev_Register = 0" for g
    using assms(1) by simp_all
  show ?thesis
    using assms(2-4) unfolding t_def
    by (simp add: headset_detect_probe_def Let_def ok gpio_request_def request_irq_def
        headset_button_irq_enable_def gate_inv_def headset_simps)
qed

theorem headset_detect_probe_irq_fail_witness:
  "(\<lambda>c. if c = Request_Irq Detect_Irq then -22 else 0 :: int) (Request_Irq Detect_Irq) < 0 \<and>
   gate_inv probe_boot \<and> button_irq_enable probe_boot \<and>
   irqs_held (snd (headset_detect_probe USING_WORKQUEUE (\<lambda>c. if c = Request_Irq Detect_Irq then -22 else 0)
     (Some example_pdata) probe_boot)) = [(Button_Irq, IRQF_TRIGGER_LOW)]"
proof -
  let ?ret = "\<lambda>c. if c = Request_Irq Detect_Irq then -22 else (0 :: int)"
  have h: "\<forall>c. c \<noteq> Request_Irq Detect_Irq \<longrightarrow> ?ret c = 0" "?ret (Request_Irq Detect_Irq) < 0"
    "gate_inv probe_boot" "button_irq_enable probe_boot"
    by (simp_all add: probe_boot_simps gate_inv_def)
  have i: "irqs_held probe_boot = []" by (simp add: probe_boot_simps)
  show ?thesis using headset_detect_probe_irq_fail [OF h, of USING_WORKQUEUE example_pdata] h i
    by (simp add: example_pdata_def)
qed

text \<open>
  \<^bold>\<open>C28.\<close> When \<open>input_register_device\<close> fails, \<open>headset_buttons_probe\<close> frees the input
  device but leaves the button table installed in \<open>ht->button\<close> together with the
  freed device: the button work would report key events to a freed device.
\<close>

theorem headset_buttons_probe_register_fail:
  assumes "ret Input_Allocate_Device = 0" and "ret Input_Register_Device \<noteq> 0"
  shows "headset_buttons_probe ret (Some bs) s =
           (Ret (ret Input_Register_Device),
            s\<lparr>button_platform_data := Some (map (\<lambda>b. b\<lparr>state := HEADSET_BUTTON_STATE_RELASED\<rparr>) bs),
              input_dev := Input_Freed\<rparr>)"
  using assms by (simp add: headset_buttons_probe_def buttons_init_loop_eq)

theorem headset_buttons_probe_register_fail_witness:
  "(\<lambda>c. if c = Input_Register_Device then -22 else 0 :: int) Input_Allocate_Device = 0 \<and>
   (\<lambda>c. if c = Input_Register_Device then -22 else 0 :: int) Input_Register_Device \<noteq> 0 \<and>
   button_platform_data (snd (headset_buttons_probe (\<lambda>c. if c = Input_Register_Device then -22 else 0)
     (Some scenario_table) probe_boot)) = Some scenario_table \<and>
   input_dev (snd (headset_buttons_probe (\<lambda>c. if c = Input_Register_Device then -22 else 0)
     (Some scenario_table) probe_boot)) = Input_Freed"
  using headset_buttons_probe_register_fail [of "\<lambda>c. if c = Input_Register_Device then -22 else 0"
      scenario_table probe_boot]
  by (simp add: scenario_table_def)

text \<open>
  \<open>headset_buttons_probe\<close> with a table and a working input core installs the
  table with every entry released and registers one capability per entry
  (\<open>EV_KEY\<close> when the entrys type is 0); without platform data it returns
  \<open>-ENOMEM\<close> and changes nothing.
\<close>

theorem headset_buttons_probe_ok:
  assumes "ret Input_Allocate_Device = 0" and "ret Input_Register_Device = 0"
  shows "headset_buttons_probe ret (Some bs) s =
           (Ret 0, s\<lparr>button_platform_data := Some (map (\<lambda>b. b\<lparr>state := HEADSET_BUTTON_STATE_RELASED\<rparr>) bs),
              input_dev := Input_Registered (map (\<lambda>b. (if ev_type b \<noteq> 0 then ev_type b else EV_KEY, code b)) bs)\<rparr>) \<and>
         headset_buttons_probe ret None s = (Ret (- ENOMEM), s)"
  using assms by (simp add: headset_buttons_probe_def buttons_init_loop_eq)

theorem headset_buttons_probe_ok_witness:
  "(\<lambda>_. 0 :: int) Input_Allocate_Device = 0 \<and> (\<lambda>_. 0 :: int) Input_Register_Device = 0 \<and>
   input_dev (snd (headset_buttons_probe (\<lambda>_. 0) (Some scenario_table) probe_boot)) = Input_Registered [(1, 115)]"
  using headset_buttons_probe_ok [of "\<lambda>_. 0" scenario_table probe_boot] by (simp add: scenario_table_def)

text \<open>
  \<open>headset_init\<close> (work-queue variant) fails exactly when one of the two
  platform driver registrations fails: the bitwise or of the two results is
  negative exactly when one of them is.
\<close>

theorem headset_init_result:
  "fst (headset_init USING_WORKQUEUE ret s) < 0 \<longleftrightarrow>
     ret (Platform_Driver_Register True) < 0 \<or> ret (Platform_Driver_Register False) < 0"
  by (simp add: headset_init_def Let_def int_or_neg)

text \<open>
  \<^bold>\<open>C29.\<close> \<open>headset_init\<close> rolls nothing back: when the detect driver fails to
  register and the buttons driver registers, the module init returns the detect
  driver's error, so the module is unloaded, while the buttons driver stays
  registered and the thread or the queue stays created.
\<close>

theorem headset_init_no_rollback:
  assumes "ret (Platform_Driver_Register True) < 0" and "ret (Platform_Driver_Register False) = 0"
  shows "(0 \<le> ret Kthread_Create \<longrightarrow>
           fst (headset_init USING_THREAD ret s) = ret (Platform_Driver_Register True) \<and>
           buttons_driver_registered (snd (headset_init USING_THREAD ret s)) \<and>
           \<not> detect_driver_registered (snd (headset_init USING_THREAD ret s)) \<and>
           thread_created (snd (headset_init USING_THREAD ret s))) \<and>
         (0 \<le> ret Create_Singlethread_Workqueue \<longrightarrow>
           fst (headset_init USING_WORKQUEUE ret s) = ret (Platform_Driver_Register True) \<and>
           buttons_driver_registered (snd (headset_init USING_WORKQUEUE ret s)) \<and>
           \<not> detect_driver_registered (snd (headset_init USING_WORKQUEUE ret s)) \<and>
           headset_wq (snd (headset_init USING_WORKQUEUE ret s)) = Some [])"
  using assms by (simp add: headset_init_def Let_def)

theorem headset_init_no_rollback_witness:
  "(\<lambda>c. if c = Platform_Driver_Register True then -19 else 0 :: int) (Platform_Driver_Register True) < 0 \<and>
   (\<lambda>c. if c = Platform_Driver_Register True then -19 else 0 :: int) (Platform_Driver_Register False) = 0 \<and>
   fst (headset_init USING_WORKQUEUE (\<lambda>c. if c = Platform_Driver_Register True then -19 else 0) probe_boot) = -19 \<and>
   buttons_driver_registered
     (snd (headset_init USING_THREAD (\<lambda>c. if c = Platform_Driver_Register True then -19 else 0) probe_boot))"
  using headset_init_no_rollback [of "\<lambda>c. if c = Platform_Driver_Register True then -19 else 0" probe_boot]
  by simp



text \<open>
  \<^bold>\<open>C31.\<close> Suspend followed by resume does not restore the button block: bits 4 and 5 of
  button register 0x3c (set because 0x32 exceeds the mask 0x0f) stay set, registers
  0x40 and 0x44 lose their low 16 bits, and bit 5 of detect register 0x40 is set
  whatever it was.
\<close>

theorem headset_suspend_resume:
  "adi (headset_resume (headset_suspend s)) =
     (adi s)(HEADMIC_BUTTON_REG 0x34 := adi s (HEADMIC_BUTTON_REG 0x34) AND NOT 0x01,
             HEADMIC_BUTTON_REG 0x3c := (adi s (HEADMIC_BUTTON_REG 0x3c) AND NOT 0x0f) OR 0x30,
             HEADMIC_BUTTON_REG 0x40 := adi s (HEADMIC_BUTTON_REG 0x40) AND NOT 0xffff,
             HEADMIC_BUTTON_REG 0x44 := adi s (HEADMIC_BUTTON_REG 0x44) AND NOT 0xffff,
             HEADMIC_DETECT_REG 0x40 := adi s (HEADMIC_DETECT_REG 0x40) OR BIT 5)"
  by (simp add: headset_suspend_def headset_resume_def Let_def headset_simps clr_set_bits fun_eq_iff
      bit.conj_disj_distrib2 and.assoc)

end
