(* ===== verification/Headset_Notify.thy ===== *)
theory Headset_Notify
  imports Headset_Prelude
begin

text \<open>
  The plug notifier hub of headset_sprd.c: the chain \<open>headset_plug_notify_list\<close>
  (line 119), the exported \<open>register_headset_plug_notifier\<close> and
  \<open>unregister_headset_plug_notifier\<close> (lines 129-139), and the call of the chain
  that the detect work makes (line 403). The chain is the kernel's singly linked
  list of \<open>struct notifier_block\<close>, kept in descending priority; the kernel's
  \<open>notifier_chain_register\<close>, \<open>notifier_chain_unregister\<close> and
  \<open>notifier_call_chain\<close> (kernel/notifier.c) are modelled from their code as
  pointer walks over a heap of blocks. A block is its address; \<open>nb_next\<close> and
  \<open>nb_priority\<close> are its fields, \<open>nb_head\<close> the chain head. A walk holds a pointer
  to a link (the head or a block's \<open>next\<close> field), as the kernel's
  \<open>struct notifier_block **nl\<close> does. The walks need not end on a cyclic heap, so
  they are \<open>partial_function (option)\<close>. The rw-semaphore of the blocking chain
  only serialises writers against callers and is not modelled.
\<close>

record nb_heap =
  nb_head :: "nat option"
  nb_next :: "nat \<Rightarrow> nat option"
  nb_priority :: "nat \<Rightarrow> int"

datatype nb_link = Head_Link | Next_Link nat

definition get_link :: "nb_heap \<Rightarrow> nb_link \<Rightarrow> nat option" where
  "get_link h nl = (case nl of Head_Link \<Rightarrow> nb_head h | Next_Link b \<Rightarrow> nb_next h b)"

definition set_link :: "nb_link \<Rightarrow> nat option \<Rightarrow> nb_heap \<Rightarrow> nb_heap" where
  "set_link nl v h =
     (case nl of Head_Link \<Rightarrow> h\<lparr>nb_head := v\<rparr> | Next_Link b \<Rightarrow> h\<lparr>nb_next := (nb_next h)(b := v)\<rparr>)"

text \<open>\<open>ENOENT\<close>, \<open>NOTIFY_DONE\<close> and \<open>NOTIFY_STOP_MASK\<close> of the kernel headers.\<close>

definition ENOENT :: int where "ENOENT = 2"
definition NOTIFY_DONE :: int where "NOTIFY_DONE = 0"
definition NOTIFY_STOP_MASK :: int where "NOTIFY_STOP_MASK = 0x8000"

text \<open>\<open>notifier_chain_register\<close>: walk while the new block's priority does not exceed
  the current one's, then \<open>n->next = *nl; *nl = n\<close>. Nothing checks that \<open>n\<close> is
  already on the chain.\<close>

partial_function (option) register_walk :: "nat \<Rightarrow> nb_link \<Rightarrow> nb_heap \<Rightarrow> nb_link option" where
  "register_walk n nl h =
     (case get_link h nl of
        None \<Rightarrow> Some nl
      | Some b \<Rightarrow> if nb_priority h n > nb_priority h b then Some nl else register_walk n (Next_Link b) h)"

definition link_in :: "nat \<Rightarrow> nb_link \<Rightarrow> nb_heap \<Rightarrow> nb_heap" where
  "link_in n nl h = set_link nl (Some n) (h\<lparr>nb_next := (nb_next h)(n := get_link h nl)\<rparr>)"

definition notifier_chain_register :: "nat \<Rightarrow> nb_heap \<Rightarrow> (int \<times> nb_heap) option" where
  "notifier_chain_register n h = map_option (\<lambda>nl. (0, link_in n nl h)) (register_walk n Head_Link h)"

text \<open>\<open>notifier_chain_unregister\<close>: unlink the first occurrence, or \<open>-ENOENT\<close>.\<close>

partial_function (option) unregister_walk :: "nat \<Rightarrow> nb_link \<Rightarrow> nb_heap \<Rightarrow> (int \<times> nb_heap) option" where
  "unregister_walk n nl h =
     (case get_link h nl of
        None \<Rightarrow> Some (- ENOENT, h)
      | Some b \<Rightarrow> if b = n then Some (0, set_link nl (nb_next h n) h) else unregister_walk n (Next_Link b) h)"

text \<open>\<open>notifier_call_chain\<close> with \<open>nr_to_call = -1\<close>: call each block in turn with the
  event value, reading \<open>next\<close> before the call, until a result has the stop bit. The
  callbacks belong to the registering drivers: \<open>cb b v\<close> is block \<open>b\<close>'s result. The
  result is the last callback's value and the blocks called, in order.\<close>

partial_function (option) notifier_call_chain ::
  "(nat \<Rightarrow> int \<Rightarrow> int) \<Rightarrow> int \<Rightarrow> nat option \<Rightarrow> int \<Rightarrow> nat list \<Rightarrow> nb_heap \<Rightarrow> (int \<times> nat list) option" where
  "notifier_call_chain cb v nb ret calls h =
     (case nb of
        None \<Rightarrow> Some (ret, calls)
      | Some b \<Rightarrow>
          (let next_nb = nb_next h b;
               r = cb b v
           in if r AND NOTIFY_STOP_MASK = NOTIFY_STOP_MASK then Some (r, calls @ [b])
              else notifier_call_chain cb v next_nb r (calls @ [b]) h))"

text \<open>The driver's exported wrappers (lines 129-139) and its call of the chain from
  the detect work (line 403, \<open>blocking_notifier_call_chain\<close> with \<open>nr_to_call = -1\<close>).\<close>

definition register_headset_plug_notifier :: "nat \<Rightarrow> nb_heap \<Rightarrow> (int \<times> nb_heap) option" where
  "register_headset_plug_notifier nb h = notifier_chain_register nb h"

definition unregister_headset_plug_notifier :: "nat \<Rightarrow> nb_heap \<Rightarrow> (int \<times> nb_heap) option" where
  "unregister_headset_plug_notifier nb h = unregister_walk nb Head_Link h"

definition headset_plug_notify :: "(nat \<Rightarrow> int \<Rightarrow> int) \<Rightarrow> int \<Rightarrow> nb_heap \<Rightarrow> (int \<times> nat list) option" where
  "headset_plug_notify cb v h = notifier_call_chain cb v (nb_head h) NOTIFY_DONE [] h"

text \<open>The chain as a list: the blocks reached from a link by following \<open>next\<close> until
  \<open>NULL\<close>.\<close>

inductive chain_list :: "nb_heap \<Rightarrow> nat option \<Rightarrow> nat list \<Rightarrow> bool" where
  chain_nil: "chain_list h None []"
| chain_cons: "chain_list h (nb_next h b) bs \<Longrightarrow> chain_list h (Some b) (b # bs)"

text \<open>The specification of the three operations on the list: a new block goes after
  every block of at least its priority; unregistering removes the first occurrence;
  a call reaches every block up to and including the first whose callback stops.\<close>

definition chain_insert :: "(nat \<Rightarrow> int) \<Rightarrow> nat \<Rightarrow> nat list \<Rightarrow> nat list" where
  "chain_insert prio n xs =
     takeWhile (\<lambda>b. prio n \<le> prio b) xs @ n # dropWhile (\<lambda>b. prio n \<le> prio b) xs"

definition stops :: "int \<Rightarrow> bool" where
  "stops r \<longleftrightarrow> r AND NOTIFY_STOP_MASK = NOTIFY_STOP_MASK"

definition chain_calls :: "(nat \<Rightarrow> int \<Rightarrow> int) \<Rightarrow> int \<Rightarrow> nat list \<Rightarrow> nat list" where
  "chain_calls cb v xs =
     takeWhile (\<lambda>b. \<not> stops (cb b v)) xs @ take 1 (dropWhile (\<lambda>b. \<not> stops (cb b v)) xs)"

definition prio_sorted :: "(nat \<Rightarrow> int) \<Rightarrow> nat list \<Rightarrow> bool" where
  "prio_sorted prio xs \<longleftrightarrow> sorted_wrt (\<lambda>a b. prio b \<le> prio a) xs"

text \<open>A well-formed chain: a finite list, without repeats, in descending priority.\<close>

definition chain_ok :: "nb_heap \<Rightarrow> nat list \<Rightarrow> bool" where
  "chain_ok h xs \<longleftrightarrow> chain_list h (nb_head h) xs \<and> distinct xs \<and> prio_sorted (nb_priority h) xs"

text \<open>The heap of the witnesses: blocks 1 and 2 on the chain, of priority 5 and 0,
  and block 3, of priority 1, not registered.\<close>

definition example_chain :: nb_heap where
  "example_chain = \<lparr>nb_head = Some 1, nb_next = (\<lambda>_. None)(1 := Some 2),
     nb_priority = (\<lambda>_. 0)(1 := 5, 3 := 1)\<rparr>"

subsection \<open>The list view of the heap\<close>

inductive_simps chain_list_None [simp]: "chain_list h None xs"
inductive_simps chain_list_Some [simp]: "chain_list h (Some b) xs"

lemma chain_list_frame:
  "chain_list h p xs \<Longrightarrow> \<forall>b\<in>set xs. nb_next h' b = nb_next h b \<Longrightarrow> chain_list h' p xs"
  by (induction rule: chain_list.induct) (auto intro: chain_list.intros)

lemma get_link_simps [simp]:
  "get_link h Head_Link = nb_head h" "get_link h (Next_Link b) = nb_next h b"
  by (simp_all add: get_link_def)

lemma set_link_simps [simp]:
  "set_link Head_Link v h = h\<lparr>nb_head := v\<rparr>"
  "set_link (Next_Link b) v h = h\<lparr>nb_next := (nb_next h)(b := v)\<rparr>"
  by (simp_all add: set_link_def)

lemma link_in_fields:
  "nb_priority (link_in n nl h) = nb_priority h"
  "nb_next (link_in n nl h) b =
     (if nl = Next_Link b then Some n else if b = n then get_link h nl else nb_next h b)"
  "get_link (link_in n nl h) nl = Some n"
  "nl' \<noteq> nl \<Longrightarrow> nl' \<noteq> Next_Link n \<Longrightarrow> get_link (link_in n nl h) nl' = get_link h nl'"
  by (cases nl; cases nl'; auto simp: link_in_def)+

lemma chain_list_Nil_iff: "chain_list h p [] \<longleftrightarrow> p = None"
  by (cases p) simp_all

lemma chain_list_Cons_iff: "chain_list h p (b # bs) \<longleftrightarrow> p = Some b \<and> chain_list h (nb_next h b) bs"
  by (cases p) auto

lemma register_walk_chain:
  assumes "chain_list h (get_link h nl) xs" "distinct xs" "n \<notin> set xs"
    "\<forall>c. nl = Next_Link c \<longrightarrow> c \<notin> set xs \<and> c \<noteq> n"
  shows "\<exists>nl'. register_walk n nl h = Some nl' \<and> (nl' = nl \<or> (\<exists>c\<in>set xs. nl' = Next_Link c)) \<and>
           chain_list (link_in n nl' h) (get_link (link_in n nl' h) nl) (chain_insert (nb_priority h) n xs)"
  using assms
proof (induction xs arbitrary: nl rule: list.induct)
  case Nil
  then have g: "get_link h nl = None" by (simp add: chain_list_Nil_iff)
  have "nl \<noteq> Next_Link n" using Nil.prems(4) by auto
  then show ?case using g
    by (simp add: register_walk.simps chain_insert_def link_in_fields)
next
  case (Cons b bs)
  have g: "get_link h nl = Some b" and r: "chain_list h (nb_next h b) bs"
    using Cons.prems(1) by (simp_all add: chain_list_Cons_iff)
  have nn: "nl \<noteq> Next_Link n" "\<forall>c\<in>set (b # bs). nl \<noteq> Next_Link c" "b \<noteq> n"
    using Cons.prems(3,4) by auto
  show ?case
  proof (cases "nb_priority h n > nb_priority h b")
    case True
    let ?h = "link_in n nl h"
    have "chain_list ?h (nb_next h b) bs"
      by (rule chain_list_frame [OF r]) (use nn Cons.prems(2,3) in \<open>auto simp: link_in_fields\<close>)
    then have "chain_list ?h (Some b) (b # bs)"
      using nn by (simp add: link_in_fields)
    then show ?thesis using True g nn
      by (simp add: register_walk.simps chain_insert_def link_in_fields)
  next
    case False
    have "\<exists>nl'. register_walk n (Next_Link b) h = Some nl' \<and>
            (nl' = Next_Link b \<or> (\<exists>c\<in>set bs. nl' = Next_Link c)) \<and>
            chain_list (link_in n nl' h) (get_link (link_in n nl' h) (Next_Link b)) (chain_insert (nb_priority h) n bs)"
      by (rule Cons.IH) (use r Cons.prems in auto)
    then obtain nl' where w: "register_walk n (Next_Link b) h = Some nl'"
      and o: "nl' = Next_Link b \<or> (\<exists>c\<in>set bs. nl' = Next_Link c)"
      and c: "chain_list (link_in n nl' h) (nb_next (link_in n nl' h) b) (chain_insert (nb_priority h) n bs)"
      by auto
    have ne: "nl \<noteq> nl'" using o nn(2) by auto
    have "get_link (link_in n nl' h) nl = Some b"
      using link_in_fields(4) [OF ne nn(1)] g by simp
    then have "chain_list (link_in n nl' h) (get_link (link_in n nl' h) nl) (b # chain_insert (nb_priority h) n bs)"
      using c by simp
    moreover have "chain_insert (nb_priority h) n (b # bs) = b # chain_insert (nb_priority h) n bs"
      using False by (simp add: chain_insert_def)
    ultimately show ?thesis using False g w o by (auto simp: register_walk.simps)
  qed
qed

subsection \<open>Register, unregister, call\<close>

lemma dropWhile_prio_less:
  "prio_sorted prio xs \<Longrightarrow> b \<in> set (dropWhile (\<lambda>b. prio n \<le> prio b) xs) \<Longrightarrow> prio b < prio n"
proof (induction xs)
  case Nil
  then show ?case by simp
next
  case (Cons x xs)
  show ?case
  proof (cases "prio n \<le> prio x")
    case True
    then show ?thesis using Cons by (simp add: prio_sorted_def)
  next
    case False
    then have "b = x \<or> b \<in> set xs" using Cons.prems(2) by auto
    then show ?thesis using False Cons.prems(1) by (auto simp: prio_sorted_def)
  qed
qed

lemma chain_insert_inv:
  assumes "distinct xs" "n \<notin> set xs" "prio_sorted prio xs"
  shows "distinct (chain_insert prio n xs) \<and> prio_sorted prio (chain_insert prio n xs) \<and>
         set (chain_insert prio n xs) = insert n (set xs)"
proof -
  let ?P = "\<lambda>b. prio n \<le> prio b"
  have sp: "takeWhile ?P xs @ dropWhile ?P xs = xs" by simp
  have s: "sorted_wrt (\<lambda>a b. prio b \<le> prio a) (takeWhile ?P xs @ dropWhile ?P xs)"
    using assms(3) unfolding prio_sorted_def sp .
  have lt: "\<forall>b\<in>set (dropWhile ?P xs). prio b < prio n" using dropWhile_prio_less [OF assms(3)] by blast
  have ge: "\<forall>b\<in>set (takeWhile ?P xs). prio n \<le> prio b" by (auto dest: set_takeWhileD)
  note s3 = s [unfolded sorted_wrt_append]
  have "sorted_wrt (\<lambda>a b. prio b \<le> prio a) (n # dropWhile ?P xs)"
    unfolding sorted_wrt.simps(2) using conjunct1 [OF conjunct2 [OF s3]] lt by (auto intro: less_imp_le)
  moreover have "\<forall>x\<in>set (takeWhile ?P xs). \<forall>y\<in>set (n # dropWhile ?P xs). prio y \<le> prio x"
  proof (intro ballI)
    fix x y assume x: "x \<in> set (takeWhile ?P xs)" and y: "y \<in> set (n # dropWhile ?P xs)"
    show "prio y \<le> prio x"
    proof (cases "y = n")
      case True
      then show ?thesis using bspec [OF ge x] by simp
    next
      case False
      then have "y \<in> set (dropWhile ?P xs)" using y by simp
      then show ?thesis using bspec [OF bspec [OF conjunct2 [OF conjunct2 [OF s3]] x]] by simp
    qed
  qed
  ultimately have "prio_sorted prio (chain_insert prio n xs)"
    using conjunct1 [OF s3] unfolding prio_sorted_def chain_insert_def sorted_wrt_append by (intro conjI)
  moreover have "distinct (chain_insert prio n xs)"
  proof -
    have "distinct (takeWhile ?P xs @ dropWhile ?P xs)" using assms(1) sp by simp
    then show ?thesis using assms(2) unfolding chain_insert_def distinct_append
      by (auto dest: set_takeWhileD set_dropWhileD)
  qed
  moreover have "set (chain_insert prio n xs) = insert n (set xs)"
  proof -
    have "set (takeWhile ?P xs @ dropWhile ?P xs) = set xs" by (simp only: sp)
    then have "set (takeWhile ?P xs) \<union> set (dropWhile ?P xs) = set xs" by (simp only: set_append)
    then show ?thesis unfolding chain_insert_def by auto
  qed
  ultimately show ?thesis by blast
qed

lemma register_chain_ok:
  assumes "chain_ok h xs" "n \<notin> set xs"
  shows "\<exists>h'. register_headset_plug_notifier n h = Some (0, h') \<and>
           chain_ok h' (chain_insert (nb_priority h) n xs) \<and> nb_priority h' = nb_priority h \<and>
           set (chain_insert (nb_priority h) n xs) = insert n (set xs)"
proof -
  have c: "chain_list h (get_link h Head_Link) xs" "distinct xs" "prio_sorted (nb_priority h) xs"
    using assms(1) by (simp_all add: chain_ok_def)
  obtain nl' where w: "register_walk n Head_Link h = Some nl'"
    and l: "chain_list (link_in n nl' h) (get_link (link_in n nl' h) Head_Link) (chain_insert (nb_priority h) n xs)"
    using register_walk_chain [OF c(1,2) assms(2)] by auto
  note i = chain_insert_inv [OF c(2) assms(2) c(3)]
  let ?h = "link_in n nl' h"
  have r: "register_headset_plug_notifier n h = Some (0, ?h)"
    using w by (simp add: register_headset_plug_notifier_def notifier_chain_register_def)
  have p: "nb_priority ?h = nb_priority h" by (rule link_in_fields(1))
  have "chain_ok ?h (chain_insert (nb_priority h) n xs)"
    using l i p unfolding chain_ok_def get_link_simps by simp
  then show ?thesis using r p i by blast
qed

lemma unregister_walk_absent:
  assumes "chain_list h (get_link h nl) xs" "n \<notin> set xs"
  shows "unregister_walk n nl h = Some (- ENOENT, h)"
  using assms
proof (induction xs arbitrary: nl rule: list.induct)
  case Nil
  then show ?case by (simp add: unregister_walk.simps chain_list_Nil_iff)
next
  case (Cons b bs)
  then have g: "get_link h nl = Some b" "chain_list h (get_link h (Next_Link b)) bs" "b \<noteq> n" "n \<notin> set bs"
    by (simp_all add: chain_list_Cons_iff)
  have "unregister_walk n (Next_Link b) h = Some (- ENOENT, h)" using Cons.IH g(2,4) .
  then show ?case using g(1,3) by (subst unregister_walk.simps) simp
qed

lemma unregister_walk_present:
  assumes "chain_list h (get_link h nl) xs" "distinct xs" "n \<in> set xs"
    "\<forall>c. nl = Next_Link c \<longrightarrow> c \<notin> set xs"
  shows "\<exists>nl'. unregister_walk n nl h = Some (0, set_link nl' (nb_next h n) h) \<and>
           (nl' = nl \<or> (\<exists>c\<in>set xs. nl' = Next_Link c)) \<and>
           chain_list (set_link nl' (nb_next h n) h) (get_link (set_link nl' (nb_next h n) h) nl) (remove1 n xs)"
  using assms
proof (induction xs arbitrary: nl rule: list.induct)
  case Nil
  then show ?case by simp
next
  case (Cons b bs)
  have g: "get_link h nl = Some b" and r: "chain_list h (nb_next h b) bs"
    using Cons.prems(1) by (simp_all add: chain_list_Cons_iff)
  have nn: "\<forall>c\<in>set (b # bs). nl \<noteq> Next_Link c" using Cons.prems(4) by auto
  show ?case
  proof (cases "b = n")
    case True
    let ?h = "set_link nl (nb_next h n) h"
    have "chain_list ?h (nb_next h b) bs"
      by (rule chain_list_frame [OF r]) (use nn in \<open>cases nl; auto\<close>)
    moreover have "get_link ?h nl = nb_next h b" using True by (cases nl) simp_all
    ultimately show ?thesis using True g by (auto simp: unregister_walk.simps)
  next
    case False
    have "\<exists>nl'. unregister_walk n (Next_Link b) h = Some (0, set_link nl' (nb_next h n) h) \<and>
            (nl' = Next_Link b \<or> (\<exists>c\<in>set bs. nl' = Next_Link c)) \<and>
            chain_list (set_link nl' (nb_next h n) h) (get_link (set_link nl' (nb_next h n) h) (Next_Link b))
              (remove1 n bs)"
      by (rule Cons.IH) (use r Cons.prems False in auto)
    then obtain nl' where w: "unregister_walk n (Next_Link b) h = Some (0, set_link nl' (nb_next h n) h)"
      and o: "nl' = Next_Link b \<or> (\<exists>c\<in>set bs. nl' = Next_Link c)"
      and c: "chain_list (set_link nl' (nb_next h n) h) (get_link (set_link nl' (nb_next h n) h) (Next_Link b))
                (remove1 n bs)"
      by blast
    have ne: "nl \<noteq> nl'" using o nn by auto
    have "get_link (set_link nl' (nb_next h n) h) nl = Some b"
      using ne g by (cases nl; cases nl'; auto)
    moreover have "nb_next (set_link nl' (nb_next h n) h) b = get_link (set_link nl' (nb_next h n) h) (Next_Link b)"
      by simp
    ultimately have "chain_list (set_link nl' (nb_next h n) h) (get_link (set_link nl' (nb_next h n) h) nl)
                       (b # remove1 n bs)"
      using c by simp
    then show ?thesis using False g w o by (auto simp: unregister_walk.simps)
  qed
qed

lemma call_chain_list:
  "chain_list h p xs \<Longrightarrow>
   \<exists>r. notifier_call_chain cb v p ret calls h = Some (r, calls @ chain_calls cb v xs)"
proof (induction arbitrary: ret calls rule: chain_list.induct)
  case (chain_nil h)
  then show ?case by (simp add: notifier_call_chain.simps chain_calls_def)
next
  case (chain_cons h b bs)
  show ?case
  proof (cases "stops (cb b v)")
    case True
    then show ?thesis by (simp add: notifier_call_chain.simps chain_calls_def stops_def)
  next
    case False
    obtain r where "notifier_call_chain cb v (nb_next h b) (cb b v) (calls @ [b]) h =
                      Some (r, (calls @ [b]) @ chain_calls cb v bs)"
      using chain_cons.IH by blast
    then show ?thesis using False by (simp add: notifier_call_chain.simps chain_calls_def stops_def Let_def)
  qed
qed

lemma call_chain_loops:
  assumes "nb_next h n = Some n" "\<forall>b. \<not> stops (cb b v)"
  shows "\<forall>ret calls. notifier_call_chain cb v (Some n) ret calls h = None"
proof (induction rule: notifier_call_chain.fixp_induct)
  case 1
  show ?case by (rule ccpo.admissibleI) (auto simp: fun_lub_def flat_lub_def)
next
  case 2
  show ?case by simp
next
  case (3 f)
  then show ?case using assms by (simp add: Let_def stops_def)
qed

lemma remove1_chain_insert: "n \<notin> set xs \<Longrightarrow> remove1 n (chain_insert prio n xs) = xs"
  by (auto simp: chain_insert_def remove1_append dest: set_takeWhileD)

lemma set_link_priority [simp]: "nb_priority (set_link nl v h) = nb_priority h"
  by (cases nl) simp_all



lemma register_walk_again:
  assumes "chain_list h (get_link h nl) (ys @ n # zs)" "\<forall>b\<in>set ys. nb_priority h n \<le> nb_priority h b"
    "\<forall>b\<in>set zs. nb_priority h b < nb_priority h n"
  shows "register_walk n nl h = Some (Next_Link n)"
  using assms
proof (induction ys arbitrary: nl)
  case Nil
  then have g: "get_link h nl = Some n" "chain_list h (nb_next h n) zs" by (simp_all add: chain_list_Cons_iff)
  have "register_walk n (Next_Link n) h = Some (Next_Link n)"
  proof (cases zs)
    case Nil
    then show ?thesis using g(2) by (simp add: register_walk.simps chain_list_Nil_iff)
  next
    case (Cons z zs')
    then show ?thesis using g(2) Nil.prems(3) by (simp add: register_walk.simps chain_list_Cons_iff)
  qed
  then show ?case using g(1) by (simp add: register_walk.simps)
next
  case (Cons y ys)
  then have g: "get_link h nl = Some y" "chain_list h (get_link h (Next_Link y)) (ys @ n # zs)"
    "nb_priority h n \<le> nb_priority h y"
    by (simp_all add: chain_list_Cons_iff)
  have "register_walk n (Next_Link y) h = Some (Next_Link n)"
    using Cons.IH g(2) Cons.prems(2,3) by simp
  then show ?case using g(1,3) by (simp add: register_walk.simps)
qed

lemma call_chain_prefix:
  assumes "chain_list h p (ys @ n # zs)" "\<forall>b\<in>set ys. \<not> stops (cb b v)"
    "\<forall>b\<in>set ys. nb_next h' b = nb_next h b"
  shows "\<exists>r. notifier_call_chain cb v p ret calls h' = notifier_call_chain cb v (Some n) r (calls @ ys) h'"
  using assms
proof (induction ys arbitrary: p ret calls)
  case Nil
  then show ?case by (auto simp: chain_list_Cons_iff)
next
  case (Cons y ys)
  then have g: "p = Some y" "chain_list h (nb_next h y) (ys @ n # zs)" "\<not> stops (cb y v)"
    "nb_next h' y = nb_next h y"
    by (simp_all add: chain_list_Cons_iff)
  have "\<exists>r. notifier_call_chain cb v (nb_next h y) (cb y v) (calls @ [y]) h' =
          notifier_call_chain cb v (Some n) r ((calls @ [y]) @ ys) h'"
    by (rule Cons.IH) (use g(2) Cons.prems(2,3) in simp_all)
  then obtain r where "notifier_call_chain cb v (nb_next h y) (cb y v) (calls @ [y]) h' =
          notifier_call_chain cb v (Some n) r ((calls @ [y]) @ ys) h'" ..
  then show ?case using g(1,3,4) by (subst notifier_call_chain.simps) (auto simp: stops_def Let_def)
qed




subsection \<open>Properties of the notifier hub\<close>

text \<open>
  \<^bold>\<open>C36.\<close> Registering a block that is not on the chain implements the chain's
  specification: on a well-formed chain (finite, without repeats, in descending
  priority) \<open>register_headset_plug_notifier\<close> returns 0 and leaves a well-formed chain
  that is \<open>chain_insert\<close> of the old one: the new block after every block of at least its
  priority (so equal priorities are called in registration order) and before the rest.
\<close>

theorem register_headset_plug_notifier_chain:
  assumes "chain_ok h xs" "n \<notin> set xs"
  shows "\<exists>h'. register_headset_plug_notifier n h = Some (0, h') \<and>
           chain_ok h' (chain_insert (nb_priority h) n xs) \<and> nb_priority h' = nb_priority h \<and>
           set (chain_insert (nb_priority h) n xs) = insert n (set xs)"
  using register_chain_ok [OF assms] .

theorem register_headset_plug_notifier_chain_witness:
  "\<exists>h'. register_headset_plug_notifier 3 example_chain = Some (0, h') \<and> chain_ok h' [1, 3, 2]"
proof -
  have "chain_ok example_chain [1, 2]" "(3::nat) \<notin> set [1, 2]"
    by (simp_all add: chain_ok_def example_chain_def prio_sorted_def)
  from register_headset_plug_notifier_chain [OF this] show ?thesis
    by (simp add: chain_insert_def example_chain_def) blast
qed

text \<open>
  \<^bold>\<open>C37.\<close> Unregistering undoes registering: on a well-formed chain, unregistering a
  block that is not on it returns \<open>-ENOENT\<close> and changes nothing, and registering a
  new block and then unregistering it returns 0 twice and gives back the same chain.
\<close>

theorem plug_notifier_register_unregister:
  assumes "chain_ok h xs" "n \<notin> set xs"
  shows "unregister_headset_plug_notifier n h = Some (- ENOENT, h) \<and>
         (\<exists>h' h''. register_headset_plug_notifier n h = Some (0, h') \<and>
                   unregister_headset_plug_notifier n h' = Some (0, h'') \<and> chain_ok h'' xs)"
proof -
  have a: "unregister_headset_plug_notifier n h = Some (- ENOENT, h)"
    using assms unfolding unregister_headset_plug_notifier_def chain_ok_def
    by (intro unregister_walk_absent) simp_all
  obtain h' where r: "register_headset_plug_notifier n h = Some (0, h')"
    and c: "chain_ok h' (chain_insert (nb_priority h) n xs)" and p: "nb_priority h' = nb_priority h"
    and s: "set (chain_insert (nb_priority h) n xs) = insert n (set xs)"
    using register_chain_ok [OF assms] by blast
  have c': "chain_list h' (get_link h' Head_Link) (chain_insert (nb_priority h) n xs)"
    "distinct (chain_insert (nb_priority h) n xs)"
    using c by (simp_all add: chain_ok_def)
  obtain nl' where u: "unregister_walk n Head_Link h' = Some (0, set_link nl' (nb_next h' n) h')"
    and l: "chain_list (set_link nl' (nb_next h' n) h') (get_link (set_link nl' (nb_next h' n) h') Head_Link)
              (remove1 n (chain_insert (nb_priority h) n xs))"
    using unregister_walk_present [OF c'(1,2)] s by auto
  have "chain_ok (set_link nl' (nb_next h' n) h') xs"
    using l assms p unfolding chain_ok_def remove1_chain_insert [OF assms(2)] by simp
  then show ?thesis using a r u unfolding unregister_headset_plug_notifier_def by blast
qed

theorem plug_notifier_register_unregister_witness:
  "unregister_headset_plug_notifier 3 example_chain = Some (- ENOENT, example_chain) \<and>
   (\<exists>h' h''. register_headset_plug_notifier 3 example_chain = Some (0, h') \<and>
      unregister_headset_plug_notifier 3 h' = Some (0, h'') \<and> chain_ok h'' [1, 2])"
proof -
  have "chain_ok example_chain [1, 2]" "(3::nat) \<notin> set [1, 2]"
    by (simp_all add: chain_ok_def example_chain_def prio_sorted_def)
  from plug_notifier_register_unregister [OF this] show ?thesis .
qed

text \<open>
  \<^bold>\<open>C38.\<close> The call of the chain that the detect work makes (line 403) returns on every
  finite chain and calls the blocks in chain order, up to and including the first
  whose callback returns a result with \<open>NOTIFY_STOP_MASK\<close>; when none stops, every
  registered block is called.
\<close>

theorem headset_plug_notify_calls:
  assumes "chain_list h (nb_head h) xs"
  shows "(\<exists>r. headset_plug_notify cb v h = Some (r, chain_calls cb v xs)) \<and>
         ((\<forall>b\<in>set xs. \<not> stops (cb b v)) \<longrightarrow> chain_calls cb v xs = xs)"
proof -
  have c: "\<exists>r. headset_plug_notify cb v h = Some (r, chain_calls cb v xs)"
    using call_chain_list [OF assms, of cb v NOTIFY_DONE "[]"] by (simp add: headset_plug_notify_def)
  have "chain_calls cb v xs = xs" if n: "\<forall>b\<in>set xs. \<not> stops (cb b v)"
  proof -
    have t: "takeWhile (\<lambda>b. \<not> stops (cb b v)) xs = xs" using n by (simp add: takeWhile_eq_all_conv)
    have d: "dropWhile (\<lambda>b. \<not> stops (cb b v)) xs = []" using n by (simp add: dropWhile_eq_Nil_conv)
    show ?thesis unfolding chain_calls_def t d by simp
  qed
  with c show ?thesis by blast
qed

theorem headset_plug_notify_calls_witness:
  "\<exists>r. headset_plug_notify (\<lambda>b v. if b = 1 then 0x8001 else NOTIFY_DONE) 1 example_chain = Some (r, [1])"
proof -
  have "chain_list example_chain (nb_head example_chain) [1, 2]" by (simp add: example_chain_def)
  from headset_plug_notify_calls [OF this, of "\<lambda>b v. if b = 1 then 0x8001 else NOTIFY_DONE" 1] show ?thesis
    by (simp add: chain_calls_def stops_def NOTIFY_STOP_MASK_def NOTIFY_DONE_def)
qed

text \<open>
  \<^bold>\<open>C39.\<close> \<open>register_headset_plug_notifier\<close> does not refuse a block that is already on
  the chain. Registering again a block that is the last of its priority makes its
  \<open>next\<close> point to itself: the next plug event's call of the chain, from the detect
  work, never returns, whatever the earlier blocks do, as long as no callback stops.
\<close>

theorem register_twice_loops:
  assumes "chain_list h (nb_head h) (ys @ n # zs)" "distinct (ys @ n # zs)"
    "\<forall>b\<in>set ys. nb_priority h n \<le> nb_priority h b" "\<forall>b\<in>set zs. nb_priority h b < nb_priority h n"
    "\<forall>b. \<not> stops (cb b v)"
  shows "\<exists>h'. register_headset_plug_notifier n h = Some (0, h') \<and> nb_next h' n = Some n \<and>
              headset_plug_notify cb v h' = None"
proof -
  have w: "register_walk n Head_Link h = Some (Next_Link n)"
    using register_walk_again [of h Head_Link] assms(1,3,4) by simp
  let ?h = "link_in n (Next_Link n) h"
  have r: "register_headset_plug_notifier n h = Some (0, ?h)"
    using w by (simp add: register_headset_plug_notifier_def notifier_chain_register_def)
  have loop: "nb_next ?h n = Some n" by (simp add: link_in_fields)
  have hd: "nb_head ?h = nb_head h" using link_in_fields(4) [of Head_Link "Next_Link n" n h] by simp
  have fr: "\<forall>b\<in>set ys. nb_next ?h b = nb_next h b" using assms(2) by (auto simp: link_in_fields)
  obtain r' where "notifier_call_chain cb v (nb_head h) NOTIFY_DONE [] ?h = notifier_call_chain cb v (Some n) r' ys ?h"
    using call_chain_prefix [OF assms(1) _ fr, of cb v NOTIFY_DONE "[]"] assms(5) by auto
  then have "headset_plug_notify cb v ?h = None"
    using call_chain_loops [of ?h n cb v, OF loop assms(5)] hd by (simp add: headset_plug_notify_def)
  then show ?thesis using r loop by blast
qed

theorem register_twice_loops_witness:
  "headset_plug_notify (\<lambda>_ _. NOTIFY_DONE) 1
     (snd (the (register_headset_plug_notifier 1
        \<lparr>nb_head = Some 1, nb_next = \<lambda>_. None, nb_priority = \<lambda>_. 0\<rparr>))) = None"
proof -
  let ?h = "\<lparr>nb_head = Some 1, nb_next = \<lambda>_. None, nb_priority = \<lambda>_. 0\<rparr>"
  have "chain_list ?h (nb_head ?h) ([] @ 1 # [])" "distinct ([] @ (1::nat) # [])" by simp_all
  from register_twice_loops [OF this, of "\<lambda>_ _. NOTIFY_DONE" 1] obtain h' where
    "register_headset_plug_notifier 1 ?h = Some (0, h')" "headset_plug_notify (\<lambda>_ _. NOTIFY_DONE) 1 h' = None"
    by (auto simp: stops_def NOTIFY_DONE_def NOTIFY_STOP_MASK_def)
  then show ?thesis by simp
qed

end
