(* ===== verification/Headset_Lock.thy ===== *)
theory Headset_Lock
  imports Headset_Gates
begin

text \<open>
  The spinlock \<open>headmic_button_irq_lock\<close> (line 100) around the gate of
  \<open>headset_button_irq_enable\<close> (lines 269-288), at the grain of its lock and unlock,
  on the CPU that runs the detect work. The process context (the detect work, which
  calls \<open>headset_button_irq_enable(1, ...)\<close> at line 441) and the detect interrupt
  handler (lines 542-562, which calls \<open>headset_button_irq_enable(0, ...)\<close> at line
  557) both take the lock. \<open>spin_lock\<close> leaves local interrupts on, so the detect
  interrupt, which the driver never disables, can enter while the process context
  holds the lock; the process context does not run again until the handler
  returns. The handler's polarity flip (lines 546-552) touches neither the lock nor
  the gate and is left out here; its \<open>mod_timer\<close> is its last step.
\<close>

datatype ctx = Process | Hardirq

text \<open>Where a context stands in its call of \<open>headset_button_irq_enable\<close>.\<close>

datatype lock_pc = At_Lock | At_Body | At_Unlock | Returned

record cpu = gates +
  lock_owner :: "ctx option"
  proc_pc :: lock_pc
  proc_enable :: bool
  irq_pc :: "lock_pc option"

inductive cpu_step :: "'a cpu_scheme \<Rightarrow> 'a cpu_scheme \<Rightarrow> bool" where
  proc_lock: "irq_pc s = None \<Longrightarrow> proc_pc s = At_Lock \<Longrightarrow> lock_owner s = None \<Longrightarrow>
    cpu_step s (s\<lparr>lock_owner := Some Process, proc_pc := At_Body\<rparr>)"
| proc_spin: "irq_pc s = None \<Longrightarrow> proc_pc s = At_Lock \<Longrightarrow> lock_owner s \<noteq> None \<Longrightarrow> cpu_step s s"
| proc_body: "irq_pc s = None \<Longrightarrow> proc_pc s = At_Body \<Longrightarrow>
    cpu_step s ((headset_button_irq_enable (proc_enable s) Button_Irq s)\<lparr>proc_pc := At_Unlock\<rparr>)"
| proc_unlock: "irq_pc s = None \<Longrightarrow> proc_pc s = At_Unlock \<Longrightarrow>
    cpu_step s (s\<lparr>lock_owner := None, proc_pc := Returned\<rparr>)"
| irq_entry: "irq_pc s = None \<Longrightarrow> irq_enabled s Detect_Irq \<Longrightarrow> cpu_step s (s\<lparr>irq_pc := Some At_Lock\<rparr>)"
| irq_lock: "irq_pc s = Some At_Lock \<Longrightarrow> lock_owner s = None \<Longrightarrow>
    cpu_step s (s\<lparr>lock_owner := Some Hardirq, irq_pc := Some At_Body\<rparr>)"
| irq_spin: "irq_pc s = Some At_Lock \<Longrightarrow> lock_owner s \<noteq> None \<Longrightarrow> cpu_step s s"
| irq_body: "irq_pc s = Some At_Body \<Longrightarrow>
    cpu_step s ((headset_button_irq_enable False Button_Irq s)\<lparr>irq_pc := Some At_Unlock\<rparr>)"
| irq_unlock: "irq_pc s = Some At_Unlock \<Longrightarrow> cpu_step s (s\<lparr>lock_owner := None, irq_pc := Some Returned\<rparr>)"
| irq_exit: "irq_pc s = Some Returned \<Longrightarrow>
    cpu_step s ((mod_timer (jiffies s + msecs_to_jiffies (headset_timer_period s)) s)\<lparr>irq_pc := None\<rparr>)"

text \<open>The CPU as the detect work reaches line 441: lock free, no handler running.\<close>

definition cpu_at_enable :: "gates \<Rightarrow> cpu" where
  "cpu_at_enable g = gates.extend g (cpu.fields None At_Lock True None)"

inductive_cases cpu_step_handler_spinning: "cpu_step s t"

lemma button_irq_enable_cpu_fields:
  "headset_button_irq_enable b l (s\<lparr>lock_owner := ow, proc_pc := p\<rparr>) =
     (headset_button_irq_enable b l s)\<lparr>lock_owner := ow, proc_pc := p\<rparr>"
  "lock_owner (headset_button_irq_enable b l s) = lock_owner s"
  "proc_pc (headset_button_irq_enable b l s) = proc_pc s"
  "irq_pc (headset_button_irq_enable b l s) = irq_pc s"
  by (simp_all add: headset_button_irq_enable_def enable_irq_def disable_irq_def emit_def)

text \<open>Without the interrupt, the call runs to its return with the effect of the
  atomic gate \<open>headset_button_irq_enable\<close> that the other theories use.\<close>

lemma cpu_uninterrupted:
  fixes s :: "'a cpu_scheme"
  assumes "proc_pc s = At_Lock" "lock_owner s = None" "irq_pc s = None"
  shows "cpu_step\<^sup>*\<^sup>* s ((headset_button_irq_enable (proc_enable s) Button_Irq s)\<lparr>proc_pc := Returned\<rparr>)"
proof -
  let ?s1 = "s\<lparr>lock_owner := Some Process, proc_pc := At_Body\<rparr>"
  let ?s2 = "(headset_button_irq_enable (proc_enable ?s1) Button_Irq ?s1)\<lparr>proc_pc := At_Unlock\<rparr>"
  have a: "cpu_step s ?s1" using assms by (intro proc_lock)
  have b: "cpu_step ?s1 ?s2" using assms by (intro proc_body) simp_all
  have c: "cpu_step ?s2 (?s2\<lparr>lock_owner := None, proc_pc := Returned\<rparr>)"
    using assms by (intro proc_unlock) (simp_all add: button_irq_enable_cpu_fields)
  have e: "?s2\<lparr>lock_owner := None, proc_pc := Returned\<rparr> =
           (headset_button_irq_enable (proc_enable s) Button_Irq s)\<lparr>proc_pc := Returned\<rparr>"
    using assms(2) by (simp add: button_irq_enable_cpu_fields)
  show ?thesis using a b c unfolding e [symmetric]
    by (meson rtranclp.rtrancl_into_rtrancl rtranclp.rtrancl_refl)
qed

text \<open>
  \<^bold>\<open>C40.\<close> The detect work and the detect interrupt handler deadlock the CPU: if the
  detect interrupt arrives after the work's \<open>spin_lock\<close> in
  \<open>headset_button_irq_enable\<close> and before its \<open>spin_unlock\<close>, the handler spins on
  the lock that the context it preempted holds, and no step of the CPU changes
  anything any more.
\<close>

theorem detect_irq_deadlock:
  fixes s :: "'a cpu_scheme"
  assumes "proc_pc s = At_Lock" "lock_owner s = None" "irq_pc s = None" "irq_enabled s Detect_Irq"
  shows "\<exists>t. cpu_step\<^sup>*\<^sup>* s t \<and> lock_owner t = Some Process \<and> irq_pc t = Some At_Lock \<and>
             (\<forall>u. cpu_step t u \<longrightarrow> u = t)"
proof -
  let ?s1 = "s\<lparr>lock_owner := Some Process, proc_pc := At_Body\<rparr>"
  let ?t = "?s1\<lparr>irq_pc := Some At_Lock\<rparr>"
  have "cpu_step s ?s1" using assms by (intro proc_lock)
  moreover have "cpu_step ?s1 ?t" using assms by (intro irq_entry) (simp_all add: irq_enabled_def)
  ultimately have r: "cpu_step\<^sup>*\<^sup>* s ?t" by (meson rtranclp.rtrancl_into_rtrancl rtranclp.rtrancl_refl)
  have "u = ?t" if "cpu_step ?t u" for u
    using that by (cases rule: cpu_step.cases) simp_all
  with r show ?thesis by auto
qed

theorem detect_irq_deadlock_witness:
  "\<exists>t. cpu_step\<^sup>*\<^sup>* (cpu_at_enable gates_boot) t \<and> lock_owner t = Some Process \<and>
       (\<forall>u. cpu_step t u \<longrightarrow> u = t)"
  using detect_irq_deadlock [of "cpu_at_enable gates_boot"]
  by (simp add: cpu_at_enable_def gates_boot_def irq_enabled_def cpu.defs gates.defs) blast

end
