(* ===== verification/Spec2Isabelle.thy ===== *)
theory Spec2Isabelle
  imports Headset_Probe Headset_Notify Headset_Lock
begin

text \<open>
  \<^bold>\<open>A model of the Spreadtrum headset driver.\<close>
  This development is a shallow embedding of src/drivers/input/misc/headset_sprd.c,
  the SC8825 headset and headset-button driver. The driver detects a plug through a
  GPIO interrupt debounced by a kernel timer. It then classifies the headset by two
  ADC readings (with mic, North-American wiring, or three-pole), reports the state
  on a switch device and a notifier chain, and turns button interrupts into key
  events on an input device. The blocking work runs in one of two build variants:
  a dedicated kernel thread woken through an unlocked flags word
  (\<open>CONFIG_INPUT_SPRD_HEADSET_USING_THREAD\<close>), or a single-threaded work queue.

  \<^bold>\<open>Theories and the code they model.\<close> Each theory extends the state record of
  the one below it, so every operation is a function over the least record it
  needs, polymorphic in the extension:
  \<^item> \<open>Headset_Prelude\<close>: the 32-bit word \<open>u32\<close>, \<open>BIT\<close>, the irq lines and triggers,
    the switch states, the log \<open>out_event\<close> of externally visible calls (key
    events, bias calls, switch updates, notifier calls) and its projections
    \<open>key_events\<close>, \<open>bias_calls\<close>, \<open>switch_states\<close>; the shared rewrite collection
    \<open>headset_simps\<close>.
  \<^item> \<open>Headset_Regs\<close>: the record \<open>machine\<close> (ADI register file, GPIO levels, ADC
    source, module parameters, output log). It holds the read-modify-write
    macros \<open>headset_reg_msk_or\<close>, \<open>headset_reg_clr_bit\<close> and \<open>headset_reg_set_bit\<close>
    (lines 68-90) and the circuit-control routines of lines 141-175 and 238-267.
  \<^item> \<open>Headset_Adc\<close>: \<open>headset_read_adc\<close> with its five-sample loop,
    \<open>ignore_wrong_button\<close>, \<open>detect_headset_type\<close> and the \<open>ABS\<close> macro as
    expanded (lines 34-36, 61, 177-236).
  \<^item> \<open>Headset_Kernel\<close>: the record \<open>kernel\<close>, covering the irq core (disable depth,
    trigger), \<open>jiffies\<close> as a wrapping 32-bit word, the one driver timer with
    \<open>mod_timer\<close>/\<open>time_after_eq\<close>, the single-threaded queue \<open>headset_wq\<close>
    and the oops flag. These are kernel code, modelled from their contracts. It
    also holds the countdown abstraction of the timer (\<open>timer_countdown\<close>,
    \<open>countdown_tick\<close>).
  \<^item> \<open>Headset_Gates\<close>: the record \<open>gates\<close> with the function-local statics of
    \<open>headset_button_irq_enable\<close> and \<open>headset_pwr_on\<close> (lines 269-307), and the
    gate invariant \<open>gate_inv\<close>.
  \<^item> \<open>Headset_Buttons\<close>: the record \<open>buttons\<close> (the button table, the static
    \<open>key_code\<close>), \<open>headset_button_release\<close> and \<open>headset_button_workqueue_func\<close>
    (lines 309-390). The work is split at \<open>msleep(80)\<close> into
    \<open>headset_button_work_begin\<close> and \<open>headset_button_work_finish\<close>, so that the
    hardware may change while it sleeps.
  \<^item> \<open>Headset_Sched\<close>: the record \<open>sched\<close> (the flags word and the discard
    counter), \<open>headset_wake_up_headset_thread\<close>, the thread's read, clear and
    dispatch (lines 462-511), and \<open>headset_post_work\<close> for both variants.
  \<^item> \<open>Headset_Detect\<close>: the record \<open>detect\<close> (switch device, headset type), the
    detect work \<open>headset_detect_workqueue_func\<close> split into its plug-in and
    plug-out branches, the two irq handlers and the timer callback
    (lines 392-460, 514-574).
  \<^item> \<open>Headset_System\<close>: the record \<open>system\<close> adds the thread's local \<open>flags\<close>.
    It holds the step function \<open>sys_step\<close> over events (edges, which the irq
    core delivers only at depth 0; ticks; thread and queue steps; hardware
    changes), runs \<open>sys_run\<close>, the reachability relation \<open>reach\<close>, and the
    kernel's \<open>flush_workqueue\<close> as a \<open>partial_function (option)\<close>.
  \<^item> \<open>Headset_Probe\<close>: the record \<open>probe\<close> (held GPIOs, irq lines, switch device,
    input device, driver registrations). It holds \<open>headset_detect_probe\<close>,
    \<open>headset_buttons_probe\<close>, \<open>headset_init\<close>, \<open>headset_exit\<close>, and the suspend and
    resume sequences (lines 576-804). Every fallible kernel call reads its
    result from a parameter \<open>ret\<close>, so that each error branch of the code is a
    case of the model. \<open>headset_exit\<close> returns an option: in the thread variant
    \<open>kthread_stop\<close> is \<open>headset_thread_stop\<close>, the thread's loop (lines 463-491) run to
    its exit, and \<open>None\<close> where that loop never reaches its stop test.
  \<^item> \<open>Headset_Notify\<close>: the plug notifier chain \<open>headset_plug_notify_list\<close> (line 119)
    as the kernel's linked list of notifier blocks on a heap \<open>nb_heap\<close>, with
    \<open>register_headset_plug_notifier\<close> and \<open>unregister_headset_plug_notifier\<close>
    (lines 129-139), the kernel walks they call (\<open>notifier_chain_register\<close>,
    \<open>notifier_chain_unregister\<close>, \<open>notifier_call_chain\<close>) as
    \<open>partial_function (option)\<close> over links, and the detect work's call of the chain
    (line 403). The list view \<open>chain_list\<close> (an inductive predicate) abstracts the
    heap; \<open>chain_insert\<close> and \<open>chain_calls\<close> are the specification.
  \<^item> \<open>Headset_Lock\<close>: the spinlock \<open>headmic_button_irq_lock\<close> (line 100) at the grain
    of \<open>spin_lock\<close> and \<open>spin_unlock\<close>. It is an inductive step relation \<open>cpu_step\<close>
    on one CPU, where the process context's call of \<open>headset_button_irq_enable\<close>
    may be preempted by the detect interrupt handler. This theory stands beside
    \<open>Headset_System\<close>, whose works run atomically; the lemma
    \<open>cpu_uninterrupted\<close> shows that an uninterrupted call has the atomic gate's
    effect.

  \<^bold>\<open>What is proved.\<close> The claims are numbered C1-C40 in the theories:
  \<^item> Register level: the insertion-voltage field written by \<open>headset_detect_init\<close>
    (C1).
  \<^item> The classifier: the sample the ADC read keeps; the three-way decision and the
    wrong-button filter, with their thresholds (C2-C4).
  \<^item> The gates: depth and flag stay in step; bias calls alternate (C5, C6).
  \<^item> The button work: release on unplug and its NULL-table oops; press, release
    and silence; two buttons marked pressed at once; the key-code invariant
    (C7-C13). The scan loop equals a first-match reference (C35).
  \<^item> The detect work on each branch: mic, no mic, unplug (C14-C16). The detect
    handler (C19) and the button handler's early return (C20).
  \<^item> Dispatch: a pending detection is sticky (C17); queue coalescing (C18).
  \<^item> Whole driver: the gate invariant (C21) and the shape of the button table (C34)
    hold in every reachable state, by rule induction over \<open>reach\<close>. Debounce across
    the jiffies wrap (C22). The thread variant loses a detection posted between
    its read and its clear (C23). The timer refines a countdown timer (C32). The
    flush of the queue terminates (C33).
  \<^item> Set-up and tear-down: the success path and each error path of the detect
    probe and what they leak, and the failure path of the buttons probe (C24-C28).
    \<open>headset_init\<close> rolls nothing back when the detect driver fails to register
    (C29). What \<open>headset_exit\<close> leaves held, and its thread variant, which does not
    return while the thread waits with no event pending (C30). Suspend followed by resume does not restore the registers (C31).
  \<^item> The notifier hub: registration implements the priority-ordered insertion
    (C36). Unregistration undoes it, and reports \<open>-ENOENT\<close> for a block that is
    not on the chain (C37). The chain call terminates and calls the blocks in order
    up to the first stop (C38). Registering a block twice can make the chain
    cyclic, so that the next plug event hangs the detect work (C39).
  \<^item> The spinlock: the detect interrupt arriving inside the detect work's critical
    section deadlocks the CPU (C40).
  Each claim with a hypothesis has a witness that applies it to a concrete state
  (\<open>system_boot\<close>, \<open>probe_boot\<close>, \<open>example_chain\<close>, \<open>cpu_at_enable\<close> and the
  scenarios of \<open>Headset_Detect\<close>).

  \<^bold>\<open>Bounds.\<close> Words are 32 bits, as \<open>unsigned long\<close> and the ADI registers are on
  this ARM target. The timer claims (C22, C32) assume fewer than \<open>2^31\<close> ticks to
  the deadline: \<open>time_after_eq\<close> compares the signed difference, and
  \<open>msecs_to_jiffies\<close> never returns more than \<open>MAX_JIFFY_OFFSET = 2^30 - 2\<close>
  (lemma \<open>msecs_to_jiffies_bound\<close>), so every deadline the driver arms meets the
  bound. No loop needs fuel:
  the loops that need not end are partial functions: \<open>flush_workqueue\<close> terminates
  (C33); the notifier walks terminate on every finite chain (C36-C38), and loop on a
  cyclic one (C39). The thread's loop under \<open>kthread_stop\<close> is not iterated: from a
  state with the thread waiting and the flags word clear no step of the exit path
  changes the word, so the wait is unbounded and the exit is \<open>None\<close> (C30).

  \<^bold>\<open>Not modelled.\<close>
  \<^item> Preemption inside a work other than around the spinlock. \<open>Headset_System\<close> runs
    works atomically. \<open>Headset_Lock\<close> models the one interleaving in which the code
    shares state with an interrupt handler under a lock.
  \<^item> \<open>sched_setscheduler\<close>, \<open>printk\<close>/\<open>pr_*\<close> logging,
    the \<open>module_param_named\<close> declarations (the parameters are fields of \<open>machine\<close>).
  \<^item> The name fields of the input device and of the switch device, the
    \<open>platform_driver\<close> structures (their probe callbacks are modelled), and the
    rw-semaphore of the blocking notifier chain, which only orders writers against
    readers.
  \<^item> src/arch/arm/mach-sc8825/include/mach/sprd_debug.h: declarations and stubs of
    a crash-debug facility that the driver neither includes nor calls.
\<close>

end
